(* ===== verification/Prelude.thy ===== *)
theory Prelude
  imports Main "HOL-Library.Word"
begin

text \<open>
  Shared vocabulary of the development: the machine types of the C code, the error numbers
  the program returns, byte strings, \<open>memcpy\<close> into a buffer, and the generic facts on lists
  and words that the component theories rely on.
\<close>

unbundle bit_operations_syntax

section \<open>Machine types\<close>

type_synonym u8 = "8 word"
type_synonym u32 = "32 word"
type_synonym u64 = "64 word"
type_synonym bytes = "u8 list"

text \<open>
  The hint collections: \<open>codec_simps\<close> for byte and bit identities, \<open>buf_simps\<close> for buffers.
\<close>

named_theorems codec_simps
named_theorems buf_simps

text \<open>A C string literal as the bytes the compiler stores (without the final NUL).\<close>

definition str :: "string \<Rightarrow> bytes" where
  "str s = map of_char s"

lemma length_str [simp]: "length (str s) = length s"
  by (simp add: str_def)

section \<open>Error numbers (Linux values)\<close>

definition EPERM :: int where "EPERM = 1"
definition ENOENT :: int where "ENOENT = 2"
definition EIO :: int where "EIO = 5"
definition ENXIO :: int where "ENXIO = 6"
definition E2BIG :: int where "E2BIG = 7"
definition EAGAIN :: int where "EAGAIN = 11"
definition EACCES :: int where "EACCES = 13"
definition EBUSY :: int where "EBUSY = 16"
definition EEXIST :: int where "EEXIST = 17"
definition ENOTDIR :: int where "ENOTDIR = 20"
definition EISDIR :: int where "EISDIR = 21"
definition EINVAL :: int where "EINVAL = 22"
definition ENOTTY :: int where "ENOTTY = 25"
definition EFBIG :: int where "EFBIG = 27"
definition EROFS :: int where "EROFS = 30"
definition ERANGE :: int where "ERANGE = 34"
definition ENOTEMPTY :: int where "ENOTEMPTY = 39"
definition ENODATA :: int where "ENODATA = 61"
definition ESTALE :: int where "ESTALE = 116"
definition ENOATTR :: int where "ENOATTR = ENODATA"

lemmas errno_defs = EPERM_def ENOENT_def EIO_def ENXIO_def E2BIG_def EAGAIN_def EACCES_def
  EBUSY_def EEXIST_def ENOTDIR_def EISDIR_def EINVAL_def ENOTTY_def EFBIG_def EROFS_def
  ERANGE_def ENOTEMPTY_def ENODATA_def ESTALE_def

section \<open>Buffers\<close>

text \<open>\<open>memcpy(buf + off, src, length src)\<close> on a buffer given by its contents.\<close>

definition blit :: "'a list \<Rightarrow> nat \<Rightarrow> 'a list \<Rightarrow> 'a list" where
  "blit buf off src = take off buf @ src @ drop (off + length src) buf"

lemma length_blit [buf_simps]:
  "off + length src \<le> length buf \<Longrightarrow> length (blit buf off src) = length buf"
  by (simp add: blit_def)

lemma nth_blit:
  assumes "off + length src \<le> length buf" "i < length buf"
  shows "blit buf off src ! i =
    (if off \<le> i \<and> i < off + length src then src ! (i - off) else buf ! i)"
  using assms by (auto simp: blit_def nth_append)

lemma take_blit_end [buf_simps]:
  "off \<le> length buf \<Longrightarrow> take (off + length src) (blit buf off src) = take off buf @ src"
  by (simp add: blit_def)

lemma take_blit_before [buf_simps]:
  "n \<le> off \<Longrightarrow> off \<le> length buf \<Longrightarrow> take n (blit buf off src) = take n buf"
  by (simp add: blit_def)

lemma blit_Nil [simp]: "blit buf off [] = buf"
  by (simp add: blit_def)

lemma blit_all [buf_simps]: "length src = length buf \<Longrightarrow> blit buf 0 src = src"
  by (simp add: blit_def)

section \<open>Masks\<close>

lemma and_15 [codec_simps]: "(a :: 'a::len word) AND 15 = take_bit 4 a"
  by (simp add: take_bit_eq_mask mask_eq_exp_minus_1)

lemma and_63 [codec_simps]: "(a :: 'a::len word) AND 63 = take_bit 6 a"
  by (simp add: take_bit_eq_mask mask_eq_exp_minus_1)

lemma and_255 [codec_simps]: "(a :: 'a::len word) AND 255 = take_bit 8 a"
  by (simp add: take_bit_eq_mask mask_eq_exp_minus_1)

text \<open>An 8-bit value indexes a table of 256 entries, so a table fact can be checked entry by entry.\<close>

lemma u8_table:
  assumes "length lut = 256" and "\<forall>(n, v) \<in> set (enumerate 0 lut). P (of_nat n :: u8) v"
  shows "P c (lut ! unat c)"
proof -
  have "unat c < 256" using unsigned_less [of c] by simp
  then have "(unat c, lut ! unat c) \<in> set (enumerate 0 lut)"
    using assms(1) by (force simp: in_set_enumerate_eq)
  with assms(2) show ?thesis by force
qed

lemma u8_bits_eqI:
  assumes "\<forall>n \<in> {0,1,2,3,4,5,6,7}. bit (a :: u8) n = bit b n"
  shows "a = b"
proof (rule bit_word_eqI)
  fix n assume "n < LENGTH(8)"
  then have "n \<in> {0,1,2,3,4,5,6,7}" by auto
  with assms show "bit a n = bit b n" by blast
qed

lemma u8_high_bit [codec_simps]: "8 \<le> n \<Longrightarrow> \<not> bit (a :: u8) n"
  using bit_imp_le_length [of a n] by auto

lemma and_power_flag: "(x :: 'a::len word) AND 2 ^ k = 0 \<longleftrightarrow> \<not> bit x k"
  by (simp add: and_exp_eq_0_iff_not_bit)

section \<open>Little-endian integers\<close>

text \<open>The bytes of an integer object of \<open>n\<close> bytes on a little-endian host.\<close>

definition le_bytes :: "nat \<Rightarrow> 'a::len word \<Rightarrow> bytes" where
  "le_bytes n w = map (\<lambda>i. ucast (drop_bit (8 * i) w)) [0..<n]"

lemma length_le_bytes [simp]: "length (le_bytes n w) = n"
  by (simp add: le_bytes_def)

end
