(* ===== verification/Codec.thy ===== *)
theory Codec
  imports Prelude
begin

text \<open>
  The two text codecs: \<open>base16.c\<close> (lower-case hexadecimal) and \<open>base64.c\<close> (the URL-safe
  alphabet, no padding).  A C string is a byte list; the encoders return the characters
  written to \<open>dst\<close>, the decoders the status and the bytes written to \<open>dst\<close> before they
  returned.  The main facts say that each decoder accepts exactly the encoder's output.
\<close>

section \<open>Base16\<close>

definition base16_decode_lut :: "u8 list" where
  "base16_decode_lut =
     replicate 48 16 @ [0, 1, 2, 3, 4, 5, 6, 7, 8, 9] @ replicate 39 16 @
     [10, 11, 12, 13, 14, 15] @ replicate 153 16"

definition base16_encode_lut :: "u8 list" where
  "base16_encode_lut = str ''0123456789abcdef''"

fun base16_decode :: "bytes \<Rightarrow> int \<times> bytes" where
  "base16_decode [] = (0, [])"
| "base16_decode [c] = (-1, [])" \<comment> \<open>odd lengths are excluded by the source's \<open>debug_assert\<close>\<close>
| "base16_decode (c0 # c1 # src) =
     (let a = base16_decode_lut ! unat c0;
          b = base16_decode_lut ! unat c1
      in if (a OR b) AND 16 \<noteq> 0 then (-1, [])
         else (let (status, dst) = base16_decode src
               in (status, (push_bit 4 a OR b) # dst)))"

fun base16_encode :: "bytes \<Rightarrow> bytes" where
  "base16_encode [] = []"
| "base16_encode (bits # src) =
     base16_encode_lut ! unat (drop_bit 4 bits AND 15) #
     base16_encode_lut ! unat (bits AND 15) # base16_encode src"

subsection \<open>The tables are inverse to each other\<close>

lemma base16_encode_lut_eq:
  "base16_encode_lut =
    [48, 49, 50, 51, 52, 53, 54, 55, 56, 57, 97, 98, 99, 100, 101, 102]"
  by (simp add: base16_encode_lut_def str_def)

lemma base16_decode_encode_lut:
  "\<forall>n \<in> set [0..<16]. base16_decode_lut ! unat (base16_encode_lut ! n) = of_nat n"
  unfolding base16_encode_lut_eq by code_simp

lemma base16_decode_lut_table:
  "length base16_decode_lut = 256 \<and>
   (\<forall>(n, v) \<in> set (enumerate 0 base16_decode_lut).
     v = 16 \<or> unat v < 16 \<and> base16_encode_lut ! unat v = of_nat n)"
  unfolding base16_encode_lut_eq by code_simp

lemma base16_encode_decode_lut:
  assumes "base16_decode_lut ! unat c AND 16 = 0"
  shows "unat (base16_decode_lut ! unat c) < 16 \<and>
    base16_encode_lut ! unat (base16_decode_lut ! unat c) = c"
proof -
  have "base16_decode_lut ! unat c = 16 \<or> unat (base16_decode_lut ! unat c) < 16 \<and>
      base16_encode_lut ! unat (base16_decode_lut ! unat c) = c"
    using u8_table [OF conjunct1 [OF base16_decode_lut_table],
      where P = "\<lambda>c v. v = 16 \<or> unat v < 16 \<and> base16_encode_lut ! unat v = c"]
      base16_decode_lut_table by blast
  with assms show ?thesis by auto
qed

lemma base16_decode_lut_nibble:
  "base16_decode_lut ! unat (base16_encode_lut ! unat (take_bit 4 b)) = take_bit 4 (b :: u8)"
proof -
  have "unat (take_bit 4 b) < 16"
    using take_bit_nat_less_exp [of 4 "unat b"] by (simp add: unsigned_take_bit_eq)
  then show ?thesis
    using base16_decode_encode_lut by simp
qed

lemma nibbles_join [codec_simps]:
  "push_bit 4 (take_bit 4 (drop_bit 4 b)) OR take_bit 4 b = (b :: u8)"
  by (rule bit_word_eqI) (auto simp: bit_simps)

lemma nibbles_no_flag [codec_simps]:
  "(take_bit 4 a OR take_bit 4 b) AND 16 = (0 :: u8)"
  using and_power_flag [of "take_bit 4 a OR take_bit 4 b" 4] by (simp add: bit_simps)

lemma u8_nibble: "unat (x :: u8) < 16 \<Longrightarrow> take_bit 4 x = x"
  by (simp add: take_bit_eq_mod word_arith_nat_mod)

lemma nibbles_split:
  assumes "unat (x :: u8) < 16" "unat (y :: u8) < 16"
  shows "take_bit 4 (drop_bit 4 (push_bit 4 x OR y)) = x" "take_bit 4 (push_bit 4 x OR y) = y"
proof -
  have x: "take_bit 4 x = x" and y: "take_bit 4 y = y"
    using assms by (simp_all add: u8_nibble)
  have "take_bit 4 (drop_bit 4 (push_bit 4 (take_bit 4 x) OR take_bit 4 y)) = take_bit 4 x"
    by (rule bit_word_eqI) (auto simp: bit_simps)
  then show "take_bit 4 (drop_bit 4 (push_bit 4 x OR y)) = x" by (simp only: x y)
  have "take_bit 4 (push_bit 4 (take_bit 4 x) OR take_bit 4 y) = take_bit 4 y"
    by (rule bit_word_eqI) (auto simp: bit_simps)
  then show "take_bit 4 (push_bit 4 x OR y) = y" by (simp only: x y)
qed

subsection \<open>Exactness\<close>

lemma length_base16_encode [simp]: "length (base16_encode bs) = 2 * length bs"
  by (induction bs) simp_all

lemma base16_encode_append: "base16_encode (a @ b) = base16_encode a @ base16_encode b"
  by (induction a) simp_all

lemma base16_decode_encode: "base16_decode (base16_encode bs) = (0, bs)"
  by (induction bs) (simp_all add: Let_def codec_simps base16_decode_lut_nibble)

lemma base16_encode_inj [simp]: "base16_encode a = base16_encode b \<longleftrightarrow> a = b"
  by (metis base16_decode_encode prod.inject)

lemma base16_encode_decode:
  "base16_decode src = (0, bs) \<Longrightarrow> src = base16_encode bs"
proof (induction src arbitrary: bs rule: base16_decode.induct)
  case (3 c0 c1 src)
  let ?a = "base16_decode_lut ! unat c0" and ?b = "base16_decode_lut ! unat c1"
  from "3.prems" have flag: "(?a OR ?b) AND 16 = 0"
    by (auto simp: Let_def split: if_splits)
  then have "?a AND 16 = 0" "?b AND 16 = 0"
    by (simp_all add: bit.conj_disj_distrib2 or_eq_0_iff)
  then have a: "unat ?a < 16 \<and> base16_encode_lut ! unat ?a = c0"
    and b: "unat ?b < 16 \<and> base16_encode_lut ! unat ?b = c1"
    by (simp_all add: base16_encode_decode_lut)
  from "3.prems" flag obtain dst where dst: "base16_decode src = (0, dst)"
    and bs: "bs = (push_bit 4 ?a OR ?b) # dst"
    by (auto simp: Let_def split: prod.splits)
  have "src = base16_encode dst"
    using "3.IH" [OF refl refl] flag dst by simp
  then show ?case
    using a b
    by (simp only: bs base16_encode.simps and_15 nibbles_split [OF conjunct1 [OF a] conjunct1 [OF b]])
qed simp_all

section \<open>Base64, URL alphabet, no padding\<close>

definition base64_decode_lut :: "u8 list" where
  "base64_decode_lut =
     replicate 45 64 @ [62, 64, 64] @ [52, 53, 54, 55, 56, 57, 58, 59, 60, 61] @
     replicate 7 64 @
     [0, 1, 2, 3, 4, 5, 6, 7, 8, 9, 10, 11, 12, 13, 14, 15, 16, 17, 18, 19, 20, 21, 22, 23, 24, 25] @
     [64, 64, 64, 64, 63, 64] @
     [26, 27, 28, 29, 30, 31, 32, 33, 34, 35, 36, 37, 38, 39, 40, 41, 42, 43, 44, 45, 46, 47, 48,
      49, 50, 51] @ replicate 133 64"

definition base64url_chars :: "u8 list" where
  "base64url_chars = str ''ABCDEFGHIJKLMNOPQRSTUVWXYZabcdefghijklmnopqrstuvwxyz0123456789-_''"

fun base64url_decode_nopad :: "bytes \<Rightarrow> int \<times> bytes" where
  "base64url_decode_nopad [] = (0, [])"
| "base64url_decode_nopad (c0 # c1 # c2 # c3 # src) =
     (let a = ucast (base64_decode_lut ! unat c0) :: u32;
          b = ucast (base64_decode_lut ! unat c1) :: u32;
          c = ucast (base64_decode_lut ! unat c2) :: u32;
          d = ucast (base64_decode_lut ! unat c3) :: u32
      in if (a OR b OR c OR d) AND 64 \<noteq> 0 then (-1, [])
         else (let bits = push_bit 18 a OR push_bit 12 b OR push_bit 6 c OR d;
                   (status, dst) = base64url_decode_nopad src
               in (status,
                   ucast (drop_bit 16 bits AND 255) # ucast (drop_bit 8 bits AND 255) #
                   ucast (bits AND 255) # dst)))"
| "base64url_decode_nopad _ = (-1, [])" \<comment> \<open>other lengths are excluded by \<open>debug_assert\<close>\<close>

fun base64url_encode_nopad :: "bytes \<Rightarrow> bytes" where
  "base64url_encode_nopad (s0 # s1 # s2 # src) =
     (let bits = push_bit 16 (ucast s0) OR push_bit 8 (ucast s1) OR ucast s2 :: u32
      in base64url_chars ! unat (drop_bit 18 bits AND 63) #
         base64url_chars ! unat (drop_bit 12 bits AND 63) #
         base64url_chars ! unat (drop_bit 6 bits AND 63) #
         base64url_chars ! unat (bits AND 63) # base64url_encode_nopad src)"
| "base64url_encode_nopad _ = []" \<comment> \<open>a tail of 1 or 2 bytes is excluded by \<open>debug_assert\<close>\<close>

subsection \<open>The tables are inverse to each other\<close>

lemma base64url_chars_eq:
  "base64url_chars =
    [65, 66, 67, 68, 69, 70, 71, 72, 73, 74, 75, 76, 77, 78, 79, 80, 81, 82, 83, 84, 85, 86,
     87, 88, 89, 90, 97, 98, 99, 100, 101, 102, 103, 104, 105, 106, 107, 108, 109, 110, 111,
     112, 113, 114, 115, 116, 117, 118, 119, 120, 121, 122, 48, 49, 50, 51, 52, 53, 54, 55, 56,
     57, 45, 95]"
  by (simp add: base64url_chars_def str_def)

lemma base64_decode_encode_lut:
  "\<forall>n \<in> set [0..<64]. base64_decode_lut ! unat (base64url_chars ! n) = of_nat n"
  unfolding base64url_chars_eq by code_simp

lemma base64_decode_lut_table:
  "length base64_decode_lut = 256 \<and>
   (\<forall>(n, v) \<in> set (enumerate 0 base64_decode_lut).
     v = 64 \<or> unat v < 64 \<and> base64url_chars ! unat v = of_nat n)"
  unfolding base64url_chars_eq by code_simp

lemma base64_encode_decode_lut:
  assumes "base64_decode_lut ! unat c AND 64 = 0"
  shows "unat (base64_decode_lut ! unat c) < 64 \<and>
    base64url_chars ! unat (base64_decode_lut ! unat c) = c"
proof -
  have "base64_decode_lut ! unat c = 64 \<or> unat (base64_decode_lut ! unat c) < 64 \<and>
      base64url_chars ! unat (base64_decode_lut ! unat c) = c"
    using u8_table [OF conjunct1 [OF base64_decode_lut_table],
      where P = "\<lambda>c v. v = 64 \<or> unat v < 64 \<and> base64url_chars ! unat v = c"]
      base64_decode_lut_table by blast
  with assms show ?thesis by auto
qed

lemma base64_decode_lut_sextet:
  "base64_decode_lut ! unat (base64url_chars ! unat (take_bit 6 (b :: u32))) =
   ucast (take_bit 6 b)"
proof -
  have "unat (take_bit 6 b) < 64"
    using take_bit_nat_less_exp [of 6 "unat b"] by (simp add: unsigned_take_bit_eq)
  then have "base64_decode_lut ! unat (base64url_chars ! unat (take_bit 6 b)) =
      of_nat (unat (take_bit 6 b))"
    using base64_decode_encode_lut by simp
  then show ?thesis by simp
qed

lemma u32_of_u8_sextet: "(ucast (ucast (take_bit 6 (b :: u32)) :: u8) :: u32) = take_bit 6 b"
  by (rule bit_word_eqI) (auto simp: bit_simps)

lemma sextets_no_flag:
  "(take_bit 6 a OR take_bit 6 b OR take_bit 6 c OR take_bit 6 d) AND 64 = (0 :: u32)"
  using and_power_flag [of "take_bit 6 a OR take_bit 6 b OR take_bit 6 c OR take_bit 6 d" 6]
  by (simp add: bit_simps)

lemma u32_sextet_eqI:
  assumes "\<forall>n \<in> {0,1,2,3,4,5}. bit (a :: u32) n = bit b n" "take_bit 6 a = a" "take_bit 6 b = b" shows "a = b"
proof (rule bit_word_eqI)
  fix n assume "n < LENGTH(32)"
  have "n < 6 \<Longrightarrow> bit a n = bit b n" 
  proof -
    assume "n < 6" 
    then have "n \<in> {0,1,2,3,4,5}" by auto
    with assms show "bit a n = bit b n" by blast
  qed
  moreover have "\<not> n < 6 \<Longrightarrow> bit a n = bit b n" by (metis assms(2,3) bit_take_bit_iff)
  ultimately show "bit a n = bit b n" by blast
qed
lemma sextets_join:
  fixes s0 s1 s2 :: u8
  defines "w \<equiv> push_bit 16 (ucast s0) OR push_bit 8 (ucast s1) OR ucast s2 :: u32"
  defines "v \<equiv> push_bit 18 (take_bit 6 (drop_bit 18 w)) OR push_bit 12 (take_bit 6 (drop_bit 12 w)) OR
    push_bit 6 (take_bit 6 (drop_bit 6 w)) OR take_bit 6 w"
  shows "ucast (take_bit 8 (drop_bit 16 v)) = s0" "ucast (take_bit 8 (drop_bit 8 v)) = s1"
    "ucast (take_bit 8 v) = s2"
  unfolding v_def w_def by (rule u8_bits_eqI, (simp add: bit_simps codec_simps; (simp add: eval_nat_numeral)?))+
lemma base64_u8_sextet: "unat (x :: u8) < 64 \<Longrightarrow> take_bit 6 x = x"
  by (simp add: take_bit_eq_mod word_arith_nat_mod)

lemma sextets_split:
  fixes a b c d :: u8
  defines "v \<equiv> push_bit 18 (ucast (take_bit 6 a)) OR push_bit 12 (ucast (take_bit 6 b)) OR
    push_bit 6 (ucast (take_bit 6 c)) OR ucast (take_bit 6 d) :: u32"
  defines "w \<equiv> push_bit 16 (ucast (ucast (take_bit 8 (drop_bit 16 v)) :: u8)) OR
    push_bit 8 (ucast (ucast (take_bit 8 (drop_bit 8 v)) :: u8)) OR
    ucast (ucast (take_bit 8 v) :: u8) :: u32"
  shows "take_bit 6 (drop_bit 18 w) = ucast (take_bit 6 a)"
    "take_bit 6 (drop_bit 12 w) = ucast (take_bit 6 b)"
    "take_bit 6 (drop_bit 6 w) = ucast (take_bit 6 c)" "take_bit 6 w = ucast (take_bit 6 d)"
proof -
  have t: "take_bit 6 (ucast (take_bit 6 (x::u8)) :: u32) = ucast (take_bit 6 x)" for x
    by (rule bit_word_eqI) (auto simp: bit_simps)
  show "take_bit 6 (drop_bit 18 w) = ucast (take_bit 6 a)"
    "take_bit 6 (drop_bit 12 w) = ucast (take_bit 6 b)"
    "take_bit 6 (drop_bit 6 w) = ucast (take_bit 6 c)" "take_bit 6 w = ucast (take_bit 6 d)"
  unfolding v_def w_def by (rule u32_sextet_eqI, (simp add: bit_simps codec_simps; (simp add: eval_nat_numeral)?), simp, simp add: t)+
qed
lemma u8_u32_unat: "unat (ucast (x :: u8) :: u32) = unat x"
  by (simp add: unsigned_ucast_eq take_bit_nat_eq_self unsigned_less [THEN order.strict_trans2])

subsection \<open>Exactness\<close>

lemma base64url_decode_encode:
  "length bs mod 3 = 0 \<Longrightarrow> base64url_decode_nopad (base64url_encode_nopad bs) = (0, bs)"
proof (induction bs rule: base64url_encode_nopad.induct)
  case (1 s0 s1 s2 src)
  then have "length src mod 3 = 0" by simp
  with "1.IH" show ?case
    by (simp only: base64url_encode_nopad.simps base64url_decode_nopad.simps Let_def codec_simps
        base64_decode_lut_sextet u32_of_u8_sextet sextets_no_flag sextets_join prod.case simp_thms
        if_False)
qed simp_all

lemma base64url_encode_decode:
  "base64url_decode_nopad src = (0, bs) \<Longrightarrow> src = base64url_encode_nopad bs"
proof (induction src arbitrary: bs rule: base64url_decode_nopad.induct)
  case (2 c0 c1 c2 c3 src)
  let ?l = "\<lambda>c. base64_decode_lut ! unat c"
  from "2.prems" have flag:
    "((ucast (?l c0) :: u32) OR ucast (?l c1) OR ucast (?l c2) OR ucast (?l c3)) AND 64 = 0"
    by (auto simp: Let_def split: if_splits)
  have low: "?l c AND 64 = 0" if "(ucast (?l c) :: u32) AND 64 = 0" for c
    using that and_power_flag [of "?l c" 6] and_power_flag [of "ucast (?l c) :: u32" 6]
    by (simp add: bit_simps)
  from flag have "\<forall>c \<in> {c0, c1, c2, c3}. ?l c AND 64 = 0"
    by (simp add: bit.conj_disj_distrib2 or_eq_0_iff low)
  then have l: "\<And>c. c \<in> {c0, c1, c2, c3} \<Longrightarrow> take_bit 6 (?l c) = ?l c \<and> base64url_chars ! unat (?l c) = c"
    using base64_encode_decode_lut base64_u8_sextet by blast
  from "2.prems" flag obtain dst where dst: "base64url_decode_nopad src = (0, dst)"
    and bs: "bs = (let v = push_bit 18 (ucast (?l c0)) OR push_bit 12 (ucast (?l c1)) OR
        push_bit 6 (ucast (?l c2)) OR ucast (?l c3) :: u32
      in ucast (take_bit 8 (drop_bit 16 v)) # ucast (take_bit 8 (drop_bit 8 v)) #
         ucast (take_bit 8 v) # dst)"
    by (auto simp: Let_def and_255 split: prod.splits)
  have "src = base64url_encode_nopad dst"
    using "2.IH" [OF refl refl refl refl] flag dst by simp
  moreover note sextets_split [of "?l c0" "?l c1" "?l c2" "?l c3"]
  ultimately show ?case
    using l [of c0] l [of c1] l [of c2] l [of c3]
    by (simp only: bs Let_def and_63 base64url_encode_nopad.simps insert_iff simp_thms u8_u32_unat)
qed simp_all

section \<open>Properties\<close>

text \<open>
  C14: The base16 decoder inverts the encoder exactly: it succeeds with \<open>bs\<close> on the encoding of
  \<open>bs\<close> and on no other string (upper-case digits, odd lengths and stray characters are refused).
\<close>

theorem base16_exact: "base16_decode src = (0, bs) \<longleftrightarrow> src = base16_encode bs"
  using base16_decode_encode base16_encode_decode by blast

text \<open>
  C15: The base64url decoder succeeds exactly on the encodings of byte strings whose length is a
  multiple of three, and then returns the encoded bytes.
\<close>

theorem base64url_exact:
  "base64url_decode_nopad src = (0, bs) \<longleftrightarrow> length bs mod 3 = 0 \<and> src = base64url_encode_nopad bs"
proof -
  have "base64url_decode_nopad src = (0, bs) \<Longrightarrow> length bs mod 3 = 0"
    by (induction src arbitrary: bs rule: base64url_decode_nopad.induct)
      (auto simp: Let_def split: if_splits prod.splits)
  then show ?thesis
    by (metis base64url_decode_encode base64url_encode_decode)
qed

end
