(* ===== verification/Uuid.thy ===== *)
theory Uuid
  imports Codec
begin

text \<open>
  The pseudo-random generator of \<open>prng.c\<close> (xoshiro256++, its \<open>static\<close> state passed
  explicitly) and the UUID functions of \<open>uuid.c\<close>.
\<close>

section \<open>The generator\<close>

record prng =
  st0 :: u64
  st1 :: u64
  st2 :: u64
  st3 :: u64

text \<open>For \<open>0 < n < 64\<close>, the only shift counts the source uses.\<close>

definition rotl64 :: "u64 \<Rightarrow> nat \<Rightarrow> u64" where
  "rotl64 val n = push_bit n val OR drop_bit (64 - n) val"

definition prng_rand :: "prng \<Rightarrow> u64 \<times> prng" where
  "prng_rand s =
     (let result = rotl64 (st0 s + st3 s) 23 + st0 s;
          tmp = push_bit 17 (st1 s);
          s = s\<lparr>st2 := st2 s XOR st0 s\<rparr>;
          s = s\<lparr>st3 := st3 s XOR st1 s\<rparr>;
          s = s\<lparr>st1 := st1 s XOR st2 s\<rparr>;
          s = s\<lparr>st0 := st0 s XOR st3 s\<rparr>;
          s = s\<lparr>st2 := st2 s XOR tmp\<rparr>;
          s = s\<lparr>st3 := rotl64 (st3 s) 45\<rparr>
      in (result, s))"

text \<open>
  \<open>prng_seed\<close> with a seed copies it; with \<open>NULL\<close> it asks the kernel: \<open>entropy\<close> is
  what \<open>getrandom\<close> stored, \<open>None\<close> when it failed.
\<close>

definition prng_seed :: "prng \<Rightarrow> prng option \<Rightarrow> prng option \<Rightarrow> int \<times> prng" where
  "prng_seed s seed entropy =
     (case seed of
        Some sd \<Rightarrow> (0, sd)
      | None \<Rightarrow> (case entropy of None \<Rightarrow> (-1, s) | Some e \<Rightarrow> (0, e)))"

definition prng_state :: "prng \<Rightarrow> u64 list" where
  "prng_state s = [st0 s, st1 s, st2 s, st3 s]"

definition prng_zero :: prng where
  "prng_zero = \<lparr>st0 = 0, st1 = 0, st2 = 0, st3 = 0\<rparr>"

lemma rotl64_45_zero: "rotl64 x 45 = 0 \<Longrightarrow> x = 0"
proof (rule bit_word_eqI)
  fix n assume z: "rotl64 x 45 = 0" and n: "n < LENGTH(64)"
  show "bit x n = bit 0 n"
  proof (cases "n < 19")
    case True
    have "\<not> bit (rotl64 x 45) (n + 45)" by (simp add: z)
    with True show ?thesis by (simp add: rotl64_def bit_simps)
  next
    case False
    have "\<not> bit (rotl64 x 45) (n - 19)" by (simp add: z)
    with False n show ?thesis by (simp add: rotl64_def bit_simps)
  qed
qed

lemma xor_shift_17_zero: "x = push_bit 17 (x :: u64) \<Longrightarrow> x = 0"
proof (rule bit_word_eqI)
  fix n assume x: "x = push_bit 17 x" and n: "n < LENGTH(64)"
  have "\<not> bit x n" for n
  proof (induction n rule: less_induct)
    case (less n)
    have "bit x n \<longleftrightarrow> bit (push_bit 17 x) n" using x by simp
    also have "\<dots> \<longrightarrow> 17 \<le> n \<and> bit x (n - 17)" by (simp add: bit_simps)
    finally show ?case using less [of "n - 17"] by auto
  qed
  then show "bit x n = bit 0 n" by simp
qed

lemma xor_eq_0: "(a :: u64) XOR b = 0 \<longleftrightarrow> a = b"
  by (auto simp: bit_eq_iff bit_simps)

section \<open>UUIDs\<close>

definition UUID_LEN :: nat where "UUID_LEN = 16"
definition UUID_HEX_LEN :: nat where "UUID_HEX_LEN = 36"

text \<open>The character \<open>'-'\<close>.\<close>

definition dash :: u8 where "dash = 45"

definition uuid_bin2hex :: "bytes \<Rightarrow> bytes" where
  "uuid_bin2hex src =
     base16_encode (take 4 src) @ [dash] @
     base16_encode (take 2 (drop 4 src)) @ [dash] @
     base16_encode (take 2 (drop 6 src)) @ [dash] @
     base16_encode (take 2 (drop 8 src)) @ [dash] @
     base16_encode (take 6 (drop 10 src))"

text \<open>
  One group of the input: \<open>off\<close> is where the group starts and \<open>n\<close> its length, \<open>sep\<close> says
  whether a dash stands before it.  \<open>acc\<close> is what has been written to \<open>dst\<close> so far.
\<close>

definition hex_group :: "bytes \<Rightarrow> nat \<Rightarrow> nat \<Rightarrow> bool \<Rightarrow> int \<times> bytes \<Rightarrow> int \<times> bytes" where
  "hex_group src off n sep acc =
     (case acc of (status, dst) \<Rightarrow>
       if status \<noteq> 0 then (status, dst)
       else if sep \<and> src ! (off - 1) \<noteq> dash then (-1, dst)
       else (case base16_decode (take n (drop off src)) of
               (st, out) \<Rightarrow> (if st \<noteq> 0 then -1 else 0, dst @ out)))"

definition uuid_hex2bin :: "bytes \<Rightarrow> int \<times> bytes" where
  "uuid_hex2bin src =
     hex_group src 24 12 True
       (hex_group src 19 4 True
         (hex_group src 14 4 True
           (hex_group src 9 4 True
             (hex_group src 0 8 False (0, [])))))"

definition uuid_generate_random :: "prng \<Rightarrow> bytes \<times> prng" where
  "uuid_generate_random s =
     (let (b0, s) = prng_rand s;
          (b1, s) = prng_rand s;
          dst = le_bytes 8 b0 @ le_bytes 8 b1;
          dst = dst[6 := dst ! 6 AND 0x0f];
          dst = dst[6 := dst ! 6 OR 0x40];
          dst = dst[8 := dst ! 8 AND 0x3f];
          dst = dst[8 := dst ! 8 OR 0x80]
      in (dst, s))"

lemma base16_decode_fail: "fst (base16_decode src) \<in> {0, -1}"
  by (induction src rule: base16_decode.induct) (auto simp: Let_def split: prod.splits)

lemma hex_group_ok:
  "hex_group src off n sep acc = (0, bs) \<longleftrightarrow>
     (\<exists>dst out. acc = (0, dst) \<and> bs = dst @ out \<and> (sep \<longrightarrow> src ! (off - 1) = dash) \<and>
       take n (drop off src) = base16_encode out)"
  by (auto simp: hex_group_def base16_decode_encode split: prod.splits if_splits
      dest!: base16_encode_decode)

lemma list_split_nth: "i < length xs \<Longrightarrow> drop i xs = xs ! i # drop (Suc i) xs"
  by (simp add: Cons_nth_drop_Suc)

lemma drop_group: "drop i xs = take n (drop i xs) @ drop (i + n) xs"
  by (metis append_take_drop_id drop_drop add.commute)

text \<open>A string of 36 characters is five groups with four separators between them.\<close>

lemma uuid_groups:
  assumes "length src = 36"
  shows "src = take 8 src @ [src ! 8] @ take 4 (drop 9 src) @ [src ! 13] @
    take 4 (drop 14 src) @ [src ! 18] @ take 4 (drop 19 src) @ [src ! 23] @ take 12 (drop 24 src)"
proof -
  have s: "drop 8 src = src ! 8 # drop 9 src" "drop 13 src = src ! 13 # drop 14 src"
    "drop 18 src = src ! 18 # drop 19 src" "drop 23 src = src ! 23 # drop 24 src"
    using assms list_split_nth [of 8 src] list_split_nth [of 13 src] list_split_nth [of 18 src]
      list_split_nth [of 23 src] by simp_all
  have "drop 9 src = take 4 (drop 9 src) @ drop 13 src"
    "drop 14 src = take 4 (drop 14 src) @ drop 18 src"
    "drop 19 src = take 4 (drop 19 src) @ drop 23 src"
    using drop_group [of 9 src 4] drop_group [of 14 src 4] drop_group [of 19 src 4] by simp_all
  moreover have "take 12 (drop 24 src) = drop 24 src" using assms by simp
  moreover have "src = take 8 src @ drop 8 src" by simp
  ultimately show ?thesis using s by (metis append_Cons append_Nil)
qed

lemma bytes_groups:
  assumes "length bs = 16"
  shows "bs = take 4 bs @ take 2 (drop 4 bs) @ take 2 (drop 6 bs) @ take 2 (drop 8 bs) @
    take 6 (drop 10 bs)"
proof -
  have "drop 4 bs = take 2 (drop 4 bs) @ drop 6 bs" "drop 6 bs = take 2 (drop 6 bs) @ drop 8 bs"
    "drop 8 bs = take 2 (drop 8 bs) @ drop 10 bs"
    using drop_group [of 4 bs 2] drop_group [of 6 bs 2] drop_group [of 8 bs 2] by simp_all
  moreover have "take 6 (drop 10 bs) = drop 10 bs" using assms by simp
  moreover have "bs = take 4 bs @ drop 4 bs" by simp
  ultimately show ?thesis by metis
qed

lemma length_uuid_bin2hex: "length bs = 16 \<Longrightarrow> length (uuid_bin2hex bs) = 36"
  by (simp add: uuid_bin2hex_def)

lemma uuid_hex2bin_groups:
  assumes "length src = 36"
  shows "uuid_hex2bin src = (0, bs) \<longleftrightarrow>
    (\<exists>b1 b2 b3 b4 b5. bs = b1 @ b2 @ b3 @ b4 @ b5 \<and>
       map length [b1, b2, b3, b4, b5] = [4, 2, 2, 2, 6] \<and>
       src = base16_encode b1 @ [dash] @ base16_encode b2 @ [dash] @ base16_encode b3 @ [dash] @
         base16_encode b4 @ [dash] @ base16_encode b5)" (is "?L \<longleftrightarrow> ?R")
proof
  assume ?L
  then obtain b1 b2 b3 b4 b5 where bs: "bs = b1 @ b2 @ b3 @ b4 @ b5"
    and e: "take 8 src = base16_encode b1" "take 4 (drop 9 src) = base16_encode b2"
      "take 4 (drop 14 src) = base16_encode b3" "take 4 (drop 19 src) = base16_encode b4"
      "take 12 (drop 24 src) = base16_encode b5"
    and d: "src ! 8 = dash" "src ! 13 = dash" "src ! 18 = dash" "src ! 23 = dash"
    by (auto simp: uuid_hex2bin_def hex_group_ok)
  have "2 * length b1 = 8" "2 * length b2 = 4" "2 * length b3 = 4" "2 * length b4 = 4"
    "2 * length b5 = 12"
    using assms e [THEN arg_cong, of length] by simp_all
  then have "map length [b1, b2, b3, b4, b5] = [4, 2, 2, 2, 6]" by simp
  moreover have "src = base16_encode b1 @ [dash] @ base16_encode b2 @ [dash] @ base16_encode b3 @
      [dash] @ base16_encode b4 @ [dash] @ base16_encode b5"
    by (rule trans [OF uuid_groups [OF assms]]) (simp only: e d)
  ultimately show ?R
    using bs by (intro exI [of _ b1] exI [of _ b2] exI [of _ b3] exI [of _ b4] exI [of _ b5] conjI)
next
  assume ?R
  then obtain b1 b2 b3 b4 b5 where bs: "bs = b1 @ b2 @ b3 @ b4 @ b5"
    and l: "length b1 = 4" "length b2 = 2" "length b3 = 2" "length b4 = 2" "length b5 = 6"
    and src: "src = base16_encode b1 @ [dash] @ base16_encode b2 @ [dash] @ base16_encode b3 @
      [dash] @ base16_encode b4 @ [dash] @ base16_encode b5"
    by auto
  have "take 8 src = base16_encode b1" "take 4 (drop 9 src) = base16_encode b2"
    "take 4 (drop 14 src) = base16_encode b3" "take 4 (drop 19 src) = base16_encode b4"
    "take 12 (drop 24 src) = base16_encode b5"
    by (simp_all add: src l)
  moreover have "src ! 8 = dash" "src ! 13 = dash" "src ! 18 = dash" "src ! 23 = dash"
    by (simp_all add: src l nth_append)
  ultimately show ?L
    by (simp add: uuid_hex2bin_def hex_group_def bs base16_decode_encode)
qed

section \<open>Properties\<close>

lemma uuid_hex2bin_iff:
  assumes "length src = UUID_HEX_LEN"
  shows "uuid_hex2bin src = (0, bs) \<longleftrightarrow> length bs = UUID_LEN \<and> src = uuid_bin2hex bs"
proof -
  have len: "length src = 36" using assms by (simp add: UUID_HEX_LEN_def)
  show ?thesis
  proof
    assume "uuid_hex2bin src = (0, bs)"
    then show "length bs = UUID_LEN \<and> src = uuid_bin2hex bs"
      unfolding uuid_hex2bin_groups [OF len] by (auto simp: UUID_LEN_def uuid_bin2hex_def)
  next
    assume r: "length bs = UUID_LEN \<and> src = uuid_bin2hex bs"
    then have "bs = take 4 bs @ take 2 (drop 4 bs) @ take 2 (drop 6 bs) @ take 2 (drop 8 bs) @
        take 6 (drop 10 bs)"
      unfolding UUID_LEN_def by (intro bytes_groups) simp
    with r show "uuid_hex2bin src = (0, bs)"
      unfolding uuid_hex2bin_groups [OF len] uuid_bin2hex_def
      by (intro exI conjI) (assumption, simp_all add: UUID_LEN_def)
  qed
qed

text \<open>
  C16: On strings of 36 characters, \<open>uuid_hex2bin\<close> accepts exactly the output of
  \<open>uuid_bin2hex\<close> and returns the 16 bytes it was made of.
\<close>

theorem uuid_exact:
  assumes "length src = UUID_HEX_LEN"
  shows "uuid_hex2bin src = (0, bs) \<longleftrightarrow> length bs = UUID_LEN \<and> src = uuid_bin2hex bs"
  by (rule uuid_hex2bin_iff [OF assms])

theorem uuid_exact_witness:
  "length (uuid_bin2hex (replicate 16 0xa5)) = UUID_HEX_LEN \<and>
   uuid_hex2bin (uuid_bin2hex (replicate 16 0xa5)) = (0, replicate 16 0xa5)"
proof -
  have "length (uuid_bin2hex (replicate 16 0xa5)) = UUID_HEX_LEN"
    by (simp add: UUID_HEX_LEN_def length_uuid_bin2hex)
  then show ?thesis
    using uuid_exact [of "uuid_bin2hex (replicate 16 0xa5)" "replicate 16 0xa5"]
    by (simp add: UUID_LEN_def)
qed

text \<open>
  Every generated UUID has 16 bytes, version 4 in the high nibble of byte 6 and the RFC 4122
  variant in the two high bits of byte 8.
\<close>

theorem uuid_generate_random_v4:
  "(let u = fst (uuid_generate_random s) in
     length u = UUID_LEN \<and> drop_bit 4 (u ! 6) = 4 \<and> drop_bit 6 (u ! 8) = 2)"
proof -
  have "drop_bit 4 (((x :: u8) AND 0x0f) OR 0x40) = 4" for x
    by (rule u8_bits_eqI) (simp add: bit_simps codec_simps; simp add: eval_nat_numeral)
  moreover have "drop_bit 6 (((x :: u8) AND 0x3f) OR 0x80) = 2" for x
    by (rule u8_bits_eqI) (simp add: bit_simps codec_simps; simp add: eval_nat_numeral)
  ultimately show ?thesis
    by (simp add: uuid_generate_random_def Let_def UUID_LEN_def split: prod.splits)
qed

text \<open>
  The generator never enters the all-zero state, from which it would return zero for ever:
  the successor of a non-zero state is non-zero.
\<close>

theorem prng_rand_nonzero: "snd (prng_rand s) = prng_zero \<longleftrightarrow> s = prng_zero"
proof
  assume z: "snd (prng_rand s) = prng_zero"
  define a where "a = st2 s XOR st0 s"
  define b where "b = st3 s XOR st1 s"
  have "st0 (snd (prng_rand s)) = 0" "st1 (snd (prng_rand s)) = 0"
    "st2 (snd (prng_rand s)) = 0" "st3 (snd (prng_rand s)) = 0"
    by (simp_all add: z prng_zero_def)
  then have e: "st1 s XOR a = 0" "st0 s XOR b = 0" "a XOR push_bit 17 (st1 s) = 0" "rotl64 b 45 = 0"
    by (simp_all add: prng_rand_def Let_def a_def b_def)
  have b: "b = 0" using e(4) by (rule rotl64_45_zero)
  have a: "a = st1 s" using e(1) by (simp add: xor_eq_0)
  have s1: "st1 s = 0" using e(3) by (simp add: a xor_eq_0 xor_shift_17_zero)
  have s0: "st0 s = 0" using e(2) b by simp
  have "st2 s = 0" "st3 s = 0"
    using a b s0 s1 by (simp_all add: a_def b_def)
  then show "s = prng_zero" using s0 s1 by (simp add: prng_zero_def)
next
  assume "s = prng_zero"
  then show "snd (prng_rand s) = prng_zero"
    by (simp add: prng_rand_def prng_zero_def Let_def rotl64_def)
qed

end
