(* ===== verification/Md5.thy ===== *)
theory Md5
  imports Codec
begin

text \<open>
  The incremental MD5 of \<open>md5.c\<close>, which the Chromium backend uses for the checksum of a
  bookmark file.  The main facts: feeding a message in pieces is feeding it at once, and the
  digest is the one-shot function of RFC 1321 (pad, cut into blocks, fold the compression
  function).  Integers are kept at their width; the host is little-endian.
\<close>

section \<open>Constants and context\<close>

definition MD5_BLOCK_SIZE :: nat where "MD5_BLOCK_SIZE = 64"
definition MD5_DIGEST_SIZE :: nat where "MD5_DIGEST_SIZE = 16"
definition MD5_LAST_SIZE :: nat where "MD5_LAST_SIZE = 56"

type_synonym md5_state = "u32 \<times> u32 \<times> u32 \<times> u32"

record md5_ctx =
  md5_st :: md5_state
  md5_len :: u64
  md5_off :: nat
  md5_buf :: bytes

definition md5_t0 :: "u32 list" where
  "md5_t0 =
    [0xd76aa478, 0xe8c7b756, 0x242070db, 0xc1bdceee,
     0xf57c0faf, 0x4787c62a, 0xa8304613, 0xfd469501,
     0x698098d8, 0x8b44f7af, 0xffff5bb1, 0x895cd7be,
     0x6b901122, 0xfd987193, 0xa679438e, 0x49b40821,
     0xf61e2562, 0xc040b340, 0x265e5a51, 0xe9b6c7aa,
     0xd62f105d, 0x02441453, 0xd8a1e681, 0xe7d3fbc8,
     0x21e1cde6, 0xc33707d6, 0xf4d50d87, 0x455a14ed,
     0xa9e3e905, 0xfcefa3f8, 0x676f02d9, 0x8d2a4c8a,
     0xfffa3942, 0x8771f681, 0x6d9d6122, 0xfde5380c,
     0xa4beea44, 0x4bdecfa9, 0xf6bb4b60, 0xbebfbc70,
     0x289b7ec6, 0xeaa127fa, 0xd4ef3085, 0x04881d05,
     0xd9d4d039, 0xe6db99e5, 0x1fa27cf8, 0xc4ac5665,
     0xf4292244, 0x432aff97, 0xab9423a7, 0xfc93a039,
     0x655b59c3, 0x8f0ccc92, 0xffeff47d, 0x85845dd1,
     0x6fa87e4f, 0xfe2ce6e0, 0xa3014314, 0x4e0811a1,
     0xf7537e82, 0xbd3af235, 0x2ad7d2bb, 0xeb86d391]"

definition md5_t1 :: "nat list" where
  "md5_t1 = [7, 12, 17, 22, 5, 9, 14, 20, 4, 11, 16, 23, 6, 10, 15, 21]"

section \<open>The compression function\<close>

definition rotl32 :: "u32 \<Rightarrow> nat \<Rightarrow> u32" where
  "rotl32 v n = push_bit n v OR drop_bit (32 - n) v"

text \<open>Loading a little-endian 32-bit integer from four bytes.\<close>

definition le32 :: "bytes \<Rightarrow> u32" where
  "le32 bs = ucast (bs ! 0) OR push_bit 8 (ucast (bs ! 1)) OR push_bit 16 (ucast (bs ! 2)) OR
     push_bit 24 (ucast (bs ! 3))"

definition md5_words :: "bytes \<Rightarrow> u32 list" where
  "md5_words block = map (\<lambda>i. le32 (take 4 (drop (4 * i) block))) [0..<16]"

text \<open>The macro \<open>MD5_OP(e, j)\<close>.\<close>

definition md5_op :: "u32 list \<Rightarrow> nat \<Rightarrow> u32 \<Rightarrow> nat \<Rightarrow> md5_state \<Rightarrow> md5_state" where
  "md5_op buf i e j st =
     (case st of (s0, s1, s2, s3) \<Rightarrow>
       let tmp = e + s0 + md5_t0 ! i + buf ! j
       in (s3, s1 + rotl32 tmp (md5_t1 ! (i div 16 * 4 + i mod 4)), s1, s2))"

definition md5_round :: "u32 list \<Rightarrow> nat \<Rightarrow> md5_state \<Rightarrow> md5_state" where
  "md5_round buf i st =
     (case st of (s0, s1, s2, s3) \<Rightarrow>
       if i < 16 then md5_op buf i ((s1 AND s2) OR (NOT s1 AND s3)) i st
       else if i < 32 then md5_op buf i ((s1 AND s3) OR (s2 AND NOT s3)) ((i * 5 + 1) mod 16) st
       else if i < 48 then md5_op buf i (s1 XOR s2 XOR s3) ((i * 3 + 5) mod 16) st
       else md5_op buf i (s2 XOR (s1 OR NOT s3)) ((i * 7) mod 16) st)"

definition md5_update_one :: "md5_state \<Rightarrow> bytes \<Rightarrow> md5_state" where
  "md5_update_one st block =
     (let buf = md5_words block
      in case fold (md5_round buf) [0..<64] st of (s0, s1, s2, s3) \<Rightarrow>
         case st of (t0, t1, t2, t3) \<Rightarrow> (t0 + s0, t1 + s1, t2 + s2, t3 + s3))"

section \<open>The three entry points\<close>

text \<open>\<open>md5_init\<close> leaves the block buffer of the context as it is.\<close>

definition md5_init :: "md5_ctx \<Rightarrow> md5_ctx" where
  "md5_init ctx = ctx\<lparr>md5_st := (0x67452301, 0xefcdab89, 0x98badcfe, 0x10325476),
     md5_len := 0, md5_off := 0\<rparr>"

text \<open>The loop over whole blocks: \<open>src\<close> holds a multiple of the block size.\<close>

function md5_blocks :: "md5_state \<Rightarrow> bytes \<Rightarrow> md5_state" where
  "md5_blocks st src =
     (if src = [] then st
      else md5_blocks (md5_update_one st (take MD5_BLOCK_SIZE src)) (drop MD5_BLOCK_SIZE src))"
  by pat_completeness auto
termination
  by (relation "measure (\<lambda>(st, src). length src)") (auto simp: MD5_BLOCK_SIZE_def)

declare md5_blocks.simps [simp del]

definition md5_update_rest :: "md5_ctx \<Rightarrow> bytes \<Rightarrow> md5_ctx" where
  "md5_update_rest ctx src =
     (let off = length src mod MD5_BLOCK_SIZE;
          n = length src - off;
          st = md5_blocks (md5_st ctx) (take n src)
      in ctx\<lparr>md5_st := st, md5_off := off, md5_buf := blit (md5_buf ctx) 0 (drop n src)\<rparr>)"

definition md5_update :: "md5_ctx \<Rightarrow> bytes \<Rightarrow> md5_ctx" where
  "md5_update ctx src =
     (let ctx = ctx\<lparr>md5_len := md5_len ctx + of_nat (length src)\<rparr>;
          off = md5_off ctx
      in if off > 0 then
           (let rem_len = MD5_BLOCK_SIZE - off
            in if length src < rem_len then
                 ctx\<lparr>md5_buf := blit (md5_buf ctx) off src, md5_off := off + length src\<rparr>
               else
                 (let ctx = ctx\<lparr>md5_buf := blit (md5_buf ctx) off (take rem_len src)\<rparr>;
                      ctx = ctx\<lparr>md5_st := md5_update_one (md5_st ctx) (md5_buf ctx)\<rparr>
                  in md5_update_rest ctx (drop rem_len src)))
         else md5_update_rest ctx src)"

definition md5_out :: "md5_state \<Rightarrow> bytes" where
  "md5_out st = (case st of (s0, s1, s2, s3) \<Rightarrow>
     le_bytes 4 s0 @ le_bytes 4 s1 @ le_bytes 4 s2 @ le_bytes 4 s3)"

definition md5_digest :: "md5_ctx \<Rightarrow> bytes" where
  "md5_digest ctx =
     (let off = md5_off ctx;
          buf = blit (md5_buf ctx) off [0x80];
          off = off + 1;
          (st, buf, off) =
            (if off > MD5_LAST_SIZE then
               (let buf = blit buf off (replicate (MD5_BLOCK_SIZE - off) 0)
                in (md5_update_one (md5_st ctx) buf, buf, 0))
             else (md5_st ctx, buf, off));
          buf = blit buf off (replicate (MD5_LAST_SIZE - off) 0);
          buf = blit buf MD5_LAST_SIZE (le_bytes 8 (md5_len ctx * 8));
          st = md5_update_one st buf
      in md5_out st)"

section \<open>The one-shot specification\<close>

definition md5_iv :: md5_state where
  "md5_iv = (0x67452301, 0xefcdab89, 0x98badcfe, 0x10325476)"

text \<open>RFC 1321, section 3.1 and 3.2: a one bit, zeros up to 56 modulo 64, the length in bits.\<close>

definition md5_pad :: "bytes \<Rightarrow> bytes" where
  "md5_pad msg = msg @ [0x80] @ replicate ((119 - length msg mod 64) mod 64) 0 @
     le_bytes 8 (of_nat (length msg) * 8 :: u64)"

definition md5_spec :: "bytes \<Rightarrow> bytes" where
  "md5_spec msg = md5_out (md5_blocks md5_iv (md5_pad msg))"

text \<open>What a context means: the message fed so far.\<close>

definition md5_fed :: "md5_ctx \<Rightarrow> bytes \<Rightarrow> bool" where
  "md5_fed ctx msg \<longleftrightarrow>
     length (md5_buf ctx) = 64 \<and> md5_len ctx = of_nat (length msg) \<and>
     md5_off ctx = length msg mod 64 \<and>
     md5_st ctx = md5_blocks md5_iv (take (length msg - length msg mod 64) msg) \<and>
     take (md5_off ctx) (md5_buf ctx) = drop (length msg - length msg mod 64) msg"

lemma md5_blocks_Nil [simp]: "md5_blocks st [] = st"
  by (simp add: md5_blocks.simps)

lemma md5_blocks_block: "length b = 64 \<Longrightarrow> md5_blocks st b = md5_update_one st b"
  by (subst md5_blocks.simps) (auto simp: MD5_BLOCK_SIZE_def)

lemma md5_blocks_append:
  "length a mod 64 = 0 \<Longrightarrow> md5_blocks st (a @ b) = md5_blocks (md5_blocks st a) b"
proof (induction st a rule: md5_blocks.induct)
  case (1 st a)
  show ?case
  proof (cases "a = []")
    case False
    with "1.prems" have len: "64 \<le> length a"
      by (metis length_greater_0_conv mod_less not_le less_numeral_extra(3))
    with "1.prems" have "length (drop 64 a) mod 64 = 0"
      by (simp add: le_mod_geq)
    then show ?thesis
      using "1.IH" [OF False] False len
      by (simp add: MD5_BLOCK_SIZE_def md5_blocks.simps [of st "a @ b"] md5_blocks.simps [of st a])
  qed simp
qed

lemma md5_fed_init: "length (md5_buf ctx) = 64 \<Longrightarrow> md5_fed (md5_init ctx) []"
  by (simp add: md5_fed_def md5_init_def md5_iv_def)

text \<open>Continuing at a block boundary: \<open>whole\<close> is a multiple of the block size.\<close>

lemma md5_update_rest_fed:
  assumes "length (md5_buf ctx) = 64" "length whole mod 64 = 0"
    and "md5_st ctx = md5_blocks md5_iv whole"
    and "md5_len ctx = of_nat (length (whole @ src))"
  shows "md5_fed (md5_update_rest ctx src) (whole @ src)"
proof -
  let ?n = "length src - length src mod 64"
  have off: "length (whole @ src) mod 64 = length src mod 64"
    using assms(2) by (metis length_append mod_add_left_eq add_0)
  have whole: "length (whole @ src) - length (whole @ src) mod 64 = length whole + ?n"
    using off by (simp add: mod_less_eq_dividend)
  have dr: "length (drop ?n src) = length src mod 64" by simp
  have "md5_blocks (md5_st ctx) (take ?n src) = md5_blocks md5_iv (whole @ take ?n src)"
    using assms(2,3) by (simp add: md5_blocks_append)
  moreover have "take (length src mod 64) (blit (md5_buf ctx) 0 (drop ?n src)) = drop ?n src"
    using dr by (simp add: blit_def)
  moreover have "length (blit (md5_buf ctx) 0 (drop ?n src)) = 64"
    using assms(1) dr by (simp add: blit_def)
  ultimately show ?thesis
    using assms(4) off whole
    by (simp add: md5_fed_def md5_update_rest_def Let_def MD5_BLOCK_SIZE_def)
qed

lemma md5_update_fed:
  assumes "md5_fed ctx msg"
  shows "md5_fed (md5_update ctx src) (msg @ src)"
proof -
  let ?o = "length msg mod 64" and ?w = "length msg - length msg mod 64"
  let ?ctx = "ctx\<lparr>md5_len := md5_len ctx + of_nat (length src)\<rparr>"
  have ctx: "length (md5_buf ctx) = 64" "md5_len ctx = of_nat (length msg)" "md5_off ctx = ?o"
    "md5_st ctx = md5_blocks md5_iv (take ?w msg)" "take ?o (md5_buf ctx) = drop ?w msg"
    using assms by (auto simp: md5_fed_def)
  have o: "?o < 64" by simp
  have w: "?w mod 64 = 0" by (simp add: minus_mod_eq_mult_div)
  consider (zero) "?o = 0" | (short) "0 < ?o" "length src < 64 - ?o" | (long) "0 < ?o" "64 - ?o \<le> length src"
    by linarith
  then show ?thesis
  proof cases
    case zero
    then have "md5_update ctx src = md5_update_rest ?ctx src"
      using ctx(3) by (simp add: md5_update_def Let_def)
    moreover have "md5_fed (md5_update_rest ?ctx src) (msg @ src)"
      using zero ctx by (intro md5_update_rest_fed) simp_all
    ultimately show ?thesis by simp
  next
    case short
    have m: "length (msg @ src) mod 64 = ?o + length src"
      using short by (simp add: mod_add_left_eq [symmetric, of "length msg"] del: mod_add_left_eq)
    then have w': "length (msg @ src) - length (msg @ src) mod 64 = ?w" by simp
    show ?thesis
      using short ctx o m w'
      by (simp add: md5_update_def Let_def md5_fed_def MD5_BLOCK_SIZE_def blit_def)
  next
    case long
    let ?r = "64 - ?o"
    let ?b = "blit (md5_buf ctx) ?o (take ?r src)"
    have b: "?b = drop ?w msg @ take ?r src"
      using long ctx o by (simp add: blit_def)
    have lb: "length ?b = 64" using long o unfolding b by simp
    let ?whole = "msg @ take ?r src"
    have "length ?whole mod 64 = (?w + 64) mod 64"
      using long o by (intro arg_cong [where f = "\<lambda>n. n mod 64"]) simp
    also have "\<dots> = 0" using w by (metis mod_add_self2)
    finally have whole: "length ?whole mod 64 = 0" .
    have st: "md5_update_one (md5_st ctx) ?b = md5_blocks md5_iv ?whole"
    proof -
      have "?whole = take ?w msg @ ?b" unfolding b by simp
      then show ?thesis using w lb ctx(4) by (simp add: md5_blocks_append md5_blocks_block)
    qed
    have "md5_update ctx src =
        md5_update_rest (?ctx\<lparr>md5_buf := ?b, md5_st := md5_update_one (md5_st ctx) ?b\<rparr>) (drop ?r src)"
      using long ctx(3) by (simp add: md5_update_def Let_def MD5_BLOCK_SIZE_def)
    moreover have "md5_fed (md5_update_rest (?ctx\<lparr>md5_buf := ?b,
        md5_st := md5_update_one (md5_st ctx) ?b\<rparr>) (drop ?r src)) (?whole @ drop ?r src)"
      using whole st lb ctx(2) long by (intro md5_update_rest_fed) simp_all
    ultimately show ?thesis by simp
  qed
qed

lemma pad_short: "n < 56 \<Longrightarrow> (119 - n) mod 64 = 55 - (n :: nat)"
proof -
  assume "n < 56"
  then have "119 - n = 64 + (55 - n)" "55 - n < 64" by simp_all
  then show ?thesis by (metis mod_add_self1 mod_less)
qed

lemma pad_long: "56 \<le> n \<Longrightarrow> n < 64 \<Longrightarrow> (119 - n) mod 64 = (63 - n) + (56 :: nat)"
  by (subst mod_less) simp_all

lemma md5_digest_fed:
  assumes "md5_fed ctx msg"
  shows "md5_digest ctx = md5_spec msg"
proof -
  let ?o = "length msg mod 64" and ?w = "length msg - length msg mod 64"
  have ctx: "length (md5_buf ctx) = 64" "md5_len ctx = of_nat (length msg)" "md5_off ctx = ?o"
    "md5_st ctx = md5_blocks md5_iv (take ?w msg)" "take ?o (md5_buf ctx) = drop ?w msg"
    using assms by (auto simp: md5_fed_def)
  let ?len = "le_bytes 8 (of_nat (length msg) * 8 :: u64)"
  have o: "?o < 64" by simp
  have w: "?w mod 64 = 0" by (simp add: minus_mod_eq_mult_div)
  have msg: "msg = take ?w msg @ drop ?w msg" by simp
  show ?thesis
  proof (cases "?o < 56")
    case True
    let ?b = "drop ?w msg @ [0x80] @ replicate (55 - ?o) 0 @ ?len"
    have "md5_pad msg = take ?w msg @ ?b"
      unfolding md5_pad_def pad_short [OF True] by simp
    then have "md5_spec msg = md5_out (md5_update_one (md5_st ctx) ?b)"
      using w ctx(4) True by (simp add: md5_spec_def md5_blocks_append md5_blocks_block)
    then show ?thesis
      using True ctx
      by (simp add: md5_digest_def Let_def MD5_LAST_SIZE_def MD5_BLOCK_SIZE_def blit_def)
  next
    case False
    let ?b1 = "drop ?w msg @ [0x80] @ replicate (63 - ?o) 0" and ?b2 = "replicate 56 0 @ ?len"
    have pad: "(119 - ?o) mod 64 = (63 - ?o) + 56" using False o by (intro pad_long) simp_all
    have "md5_pad msg = take ?w msg @ ?b1 @ ?b2"
      unfolding md5_pad_def pad replicate_add by simp
    moreover have "length ?b1 = 64" "length ?b2 = 64" "length (take ?w msg) mod 64 = 0"
      using o w by simp_all
    ultimately have "md5_spec msg = md5_out (md5_update_one (md5_update_one (md5_st ctx) ?b1) ?b2)"
      by (simp only: md5_spec_def md5_blocks_append md5_blocks_block ctx(4) mod_self)
    then show ?thesis
      using False o ctx
      by (simp add: md5_digest_def Let_def MD5_LAST_SIZE_def MD5_BLOCK_SIZE_def blit_def)
  qed
qed

section \<open>Properties\<close>

text \<open>
  C13: However a message is cut into pieces, feeding them one after the other to
  \<open>md5_update\<close> and then calling \<open>md5_digest\<close> gives the RFC 1321 digest of their
  concatenation, whatever the block buffer held at the start.
\<close>

theorem md5_streaming:
  assumes "length (md5_buf ctx) = MD5_BLOCK_SIZE"
  shows "md5_digest (foldl md5_update (md5_init ctx) pieces) = md5_spec (concat pieces)"
proof -
  have feed: "md5_fed (foldl md5_update c ps) (msg @ concat ps)" if "md5_fed c msg" for c msg ps
    using that
  proof (induction ps arbitrary: c msg)
    case (Cons p ps)
    then show ?case using md5_update_fed [of c msg p] by fastforce
  qed simp
  then have "md5_fed (foldl md5_update (md5_init ctx) pieces) ([] @ concat pieces)"
    using assms by (intro feed md5_fed_init) (simp add: MD5_BLOCK_SIZE_def)
  then show ?thesis using md5_digest_fed by simp
qed

theorem md5_streaming_witness:
  "length (md5_buf \<lparr>md5_st = md5_iv, md5_len = 0, md5_off = 0, md5_buf = replicate 64 0\<rparr>) =
     MD5_BLOCK_SIZE \<and>
   md5_digest (foldl md5_update (md5_init \<lparr>md5_st = md5_iv, md5_len = 0, md5_off = 0,
     md5_buf = replicate 64 0\<rparr>) [str ''message '', str ''digest'']) = md5_spec (str ''message digest'')"
  using md5_streaming [of "\<lparr>md5_st = md5_iv, md5_len = 0, md5_off = 0, md5_buf = replicate 64 0\<rparr>"
      "[str ''message '', str ''digest'']"]
  by (simp add: MD5_BLOCK_SIZE_def str_def)

end
