(* ===== verification/Hashmap.thy ===== *)
theory Hashmap
  imports Prelude
begin

text \<open>
  The hopscotch hash table of \<open>hashmap.c\<close>, for a 64-bit word size.  Entries are opaque
  pointers; the callbacks \<open>entry_comp\<close> and \<open>entry_hash\<close> the map was created with are
  arguments of the operations that call them (what a callback returns depends on the entry's
  memory, which the map does not own).  A \<open>debug_assert\<close> or \<open>xassert\<close> that fails is the
  result \<open>None\<close>.
\<close>

section \<open>Buckets\<close>

definition HASHMAP_WORD_SIZE :: nat where "HASHMAP_WORD_SIZE = 64"
definition HOP_IDX_WIDTH :: nat where "HOP_IDX_WIDTH = 6"
definition EXP_MIN :: nat where "EXP_MIN = 8"
definition EXP_MAX :: nat where "EXP_MAX = 57"

record 'e bucket =
  bits :: u64
  entry :: "'e option"

record 'e hashmap =
  buckets :: "'e bucket list"
  num_buckets :: nat
  num_used :: nat
  hm_exp :: nat

definition BUCKET_CNT :: "nat \<Rightarrow> nat" where
  "BUCKET_CNT exp = 2 ^ exp + (exp - 1)"

definition BUCKET_HOP_MASK :: "nat \<Rightarrow> u64" where
  "BUCKET_HOP_MASK exp = push_bit exp 1 - 1"

definition BUCKET_HASH_MASK :: "nat \<Rightarrow> u64" where
  "BUCKET_HASH_MASK exp = NOT (BUCKET_HOP_MASK exp)"

definition HASH_TO_IDX :: "u64 \<Rightarrow> nat \<Rightarrow> nat" where
  "HASH_TO_IDX hash exp = unat (drop_bit (HASHMAP_WORD_SIZE - exp) hash)"

definition PACK_ID :: "nat \<Rightarrow> nat \<Rightarrow> int" where
  "PACK_ID hash_i hop_i = int (hash_i * 2 ^ HOP_IDX_WIDTH + hop_i)"

definition BIT_SET :: "u64 \<Rightarrow> nat \<Rightarrow> u64" where
  "BIT_SET b i = b OR push_bit i 1"

definition BIT_UNSET :: "u64 \<Rightarrow> nat \<Rightarrow> u64" where
  "BIT_UNSET b i = b AND NOT (push_bit i 1)"

definition empty_bucket :: "'e bucket" where
  "empty_bucket = \<lparr>bits = 0, entry = None\<rparr>"

section \<open>Counting trailing zeroes\<close>

text \<open>The de Bruijn table of the build without \<open>__builtin_ctzl\<close>.\<close>

definition count_tz_lut :: "nat list" where
  "count_tz_lut =
    [0, 1, 48, 2, 57, 49, 28, 3, 61, 58, 50, 42, 38, 29, 17, 4,
     62, 55, 59, 36, 53, 51, 43, 22, 45, 39, 33, 30, 24, 18, 12, 5,
     63, 47, 56, 27, 60, 41, 37, 16, 54, 35, 52, 21, 44, 32, 23, 11,
     46, 26, 40, 15, 34, 20, 31, 10, 25, 14, 19, 9, 13, 8, 7, 6]"

definition count_tz :: "u64 \<Rightarrow> nat" where
  "count_tz val =
     (if val = 0 then HASHMAP_WORD_SIZE
      else count_tz_lut ! unat (drop_bit 58 ((val AND (- val)) * 0x03f79d71b4cb0a89)))"

lemma count_tz_lut_power: "\<forall>k \<in> set [0..<64]. count_tz_lut ! unat (drop_bit 58 (push_bit k 1 * 0x03f79d71b4cb0a89 :: u64)) = k"
  by code_simp

text \<open>\<open>val & -val\<close> isolates the lowest set bit.\<close>

lemma lowest_bit:
  assumes "bit (v :: u64) k" "\<forall>j<k. \<not> bit v j"
  shows "v AND (- v) = push_bit k 1"
proof -
  define u where "u = v AND NOT (push_bit k 1)"
  have k: "k < 64" using assms(1) bit_imp_le_length [of v k] by simp
  have v: "v = u + push_bit k 1"
  proof -
    have "u + push_bit k 1 = u OR push_bit k 1"
      by (rule disjunctive_add_eq_or) (rule bit_word_eqI, auto simp: u_def bit_simps)
    also have "\<dots> = v"
      using assms(1) by (intro bit_word_eqI) (auto simp: u_def bit_simps)
    finally show ?thesis by simp
  qed
  have "u + mask k = u OR mask k"
    using assms(2) by (intro disjunctive_add_eq_or bit_word_eqI) (auto simp: u_def bit_simps)
  moreover have "v - 1 = u + mask k"
    by (subst v) (simp add: mask_eq_exp_minus_1 push_bit_eq_mult)
  ultimately have "- v = NOT (u OR mask k)"
    by (simp add: minus_eq_not_minus_1)
  then show ?thesis
    using assms k by (intro bit_word_eqI) (auto simp: u_def bit_simps)
qed

lemma count_tz_lowest:
  assumes "bit (v :: u64) k" "\<forall>j<k. \<not> bit v j"
  shows "count_tz v = k"
proof -
  have "k < 64" using assms(1) bit_imp_le_length [of v k] by simp
  moreover have "v \<noteq> 0" using assms(1) by auto
  ultimately show ?thesis
    using lowest_bit [OF assms] count_tz_lut_power by (simp add: count_tz_def)
qed

lemma count_tz_bit:
  assumes "v \<noteq> 0"
  shows "bit v (count_tz v) \<and> (\<forall>j < count_tz v. \<not> bit v j)"
proof -
  obtain n where "bit v n" using assms by (auto simp: bit_eq_iff)
  then obtain k where k: "bit v k" "\<forall>j<k. \<not> bit v j"
    using exists_least_iff [of "bit v"] by blast
  then have "count_tz v = k" by (rule count_tz_lowest)
  with k show ?thesis by simp
qed

lemma count_tz_zero [simp]: "count_tz 0 = 64"
  by (simp add: count_tz_def HASHMAP_WORD_SIZE_def)

lemma count_tz_less: "count_tz v < 64 \<longleftrightarrow> v \<noteq> 0"
  using count_tz_bit [of v] bit_imp_le_length [of v "count_tz v"] by auto

section \<open>Single bits\<close>

lemma bit_BIT_SET [simp]: "bit (BIT_SET b i) j \<longleftrightarrow> bit b j \<or> j = i \<and> i < 64"
  by (auto simp: BIT_SET_def bit_simps)

lemma bit_BIT_UNSET [simp]: "bit (BIT_UNSET b i) j \<longleftrightarrow> bit b j \<and> j \<noteq> i"
  using bit_imp_le_length [of b j] by (auto simp: BIT_UNSET_def bit_simps)

lemma bit_HOP_MASK [simp]: "bit (BUCKET_HOP_MASK exp) j \<longleftrightarrow> j < exp \<and> j < 64"
proof -
  have "BUCKET_HOP_MASK exp = mask exp"
    by (simp add: BUCKET_HOP_MASK_def mask_eq_exp_minus_1 push_bit_eq_mult)
  then show ?thesis by (auto simp: bit_simps)
qed

lemma bit_HASH_MASK [simp]: "bit (BUCKET_HASH_MASK exp) j \<longleftrightarrow> exp \<le> j \<and> j < 64"
  by (auto simp: BUCKET_HASH_MASK_def bit_not_iff)

lemma BIT_UNSET_less:
  assumes "bit hop k"
  shows "unat (BIT_UNSET hop k) < unat hop"
proof -
  have "BIT_UNSET hop k \<le> hop" by (simp add: BIT_UNSET_def word_and_le1 word_and_le2)
  moreover have "BIT_UNSET hop k \<noteq> hop" using assms by (metis bit_BIT_UNSET)
  ultimately show ?thesis by (metis order_le_less word_less_nat_alt)
qed

section \<open>Operations that only read\<close>

text \<open>
  The loop of \<open>hashmap_search\<close> over the set bits of \<open>hop\<close>; \<open>frag\<close> is \<open>hashcode << exp\<close>.
  The test \<open>hop = 0\<close> adds nothing for \<open>exp \<le> 64\<close>: \<open>count_tz\<close> is 64 there.
\<close>

function search_loop ::
  "('e \<Rightarrow> int) \<Rightarrow> 'e bucket list \<Rightarrow> nat \<Rightarrow> nat \<Rightarrow> u64 \<Rightarrow> u64 \<Rightarrow> ('e \<times> nat) option option" where
  "search_loop cmp bs home exp frag hop =
     (let hop_idx = count_tz hop
      in if hop = 0 \<or> exp \<le> hop_idx then Some None
         else (let b = bs ! (home + hop_idx); next = BIT_UNSET hop hop_idx
               in if bits b AND BUCKET_HASH_MASK exp \<noteq> frag then
                    search_loop cmp bs home exp frag next
                  else (case entry b of
                          None \<Rightarrow> None
                        | Some e \<Rightarrow> (if cmp e \<noteq> 0 then search_loop cmp bs home exp frag next
                                    else Some (Some (e, hop_idx))))))"
  by pat_completeness auto
termination
  by (relation "measure (\<lambda>(cmp, bs, home, exp, frag, hop). unat hop)")
    (use count_tz_bit BIT_UNSET_less in auto)

declare search_loop.simps [simp del]

definition hashmap_search ::
  "('e \<Rightarrow> int) \<Rightarrow> 'e hashmap \<Rightarrow> u64 \<Rightarrow> ('e \<times> int) option option" where
  "hashmap_search cmp m hashcode =
     (let exp = hm_exp m;
          hash_idx = HASH_TO_IDX hashcode exp;
          hop = bits (buckets m ! hash_idx)
      in map_option (map_option (\<lambda>(e, hop_idx). (e, PACK_ID hash_idx hop_idx)))
           (search_loop cmp (buckets m) hash_idx exp (push_bit exp hashcode) hop))"

text \<open>\<open>find_entry\<close>: the position of a pointer that must be in the map.\<close>

function find_loop ::
  "'e \<Rightarrow> 'e bucket list \<Rightarrow> nat \<Rightarrow> nat \<Rightarrow> u64 \<Rightarrow> u64 \<Rightarrow> nat option" where
  "find_loop e bs home exp frag hop =
     (let hop_idx = count_tz hop
      in if hop = 0 \<or> exp \<le> hop_idx then None
         else (let b = bs ! (home + hop_idx); next = BIT_UNSET hop hop_idx
               in if bits b AND BUCKET_HASH_MASK exp \<noteq> frag then find_loop e bs home exp frag next
                  else if entry b \<noteq> Some e then find_loop e bs home exp frag next
                  else Some hop_idx))"
  by pat_completeness auto
termination
  by (relation "measure (\<lambda>(e, bs, home, exp, frag, hop). unat hop)")
    (use count_tz_bit BIT_UNSET_less in auto)

declare find_loop.simps [simp del]

definition find_entry ::
  "('e \<Rightarrow> u64) \<Rightarrow> 'e hashmap \<Rightarrow> 'e \<Rightarrow> (nat \<times> nat) option" where
  "find_entry entry_hash m e =
     (let exp = hm_exp m;
          hashcode = entry_hash e;
          hash_idx = HASH_TO_IDX hashcode exp;
          hop = bits (buckets m ! hash_idx)
      in map_option (\<lambda>hop_idx. (hash_idx, hop_idx))
           (find_loop e (buckets m) hash_idx exp (push_bit exp hashcode) hop))"

text \<open>\<open>hashmap_foreach\<close> calls back for each entry in bucket order: the list it visits.\<close>

definition hashmap_foreach :: "'e hashmap \<Rightarrow> 'e list" where
  "hashmap_foreach m = List.map_filter entry (buckets m)"

section \<open>Making room\<close>

text \<open>Linear probe from \<open>b\<close> for the first empty bucket.\<close>

function probe :: "'e bucket list \<Rightarrow> nat \<Rightarrow> nat option" where
  "probe bs b =
     (if b < length bs then (if entry (bs ! b) = None then Some b else probe bs (Suc b)) else None)"
  by pat_completeness auto
termination
  by (relation "measure (\<lambda>(bs, b). length bs - b)") auto

declare probe.simps [simp del]

text \<open>
  The inner loop of \<open>make_room\<close>: the first bucket in \<open>[swp, b)\<close> that owns an entry before \<open>b\<close>,
  with the hop index of that entry.
\<close>

function find_swap :: "'e bucket list \<Rightarrow> nat \<Rightarrow> nat \<Rightarrow> (nat \<times> nat) option" where
  "find_swap bs b swp =
     (if swp < b then
        (let hop_idx = count_tz (bits (bs ! swp))
         in if b - swp \<le> hop_idx then find_swap bs b (Suc swp) else Some (swp, hop_idx))
      else None)"
  by pat_completeness auto
termination
  by (relation "measure (\<lambda>(bs, b, swp). b - swp)") auto

declare find_swap.simps [simp del]

lemma find_swap_Some:
  "find_swap bs b swp = Some (s, hop) \<Longrightarrow>
   swp \<le> s \<and> s < b \<and> hop = count_tz (bits (bs ! s)) \<and> hop < b - s"
proof (induction bs b swp rule: find_swap.induct)
  case (1 bs b swp)
  show ?case
  proof (cases "swp < b \<and> b - swp \<le> count_tz (bits (bs ! swp))")
    case True
    then have "find_swap bs b (Suc swp) = Some (s, hop)"
      using "1.prems" by (simp add: find_swap.simps [of bs b swp])
    then show ?thesis using "1.IH" True by fastforce
  next
    case False
    then show ?thesis using "1.prems" by (auto simp: find_swap.simps [of bs b swp] Let_def split: if_splits)
  qed
qed

text \<open>One swap: the entry at \<open>swp + hop_idx\<close> moves to the empty bucket \<open>b\<close>.\<close>

definition swap_step :: "'e bucket list \<Rightarrow> nat \<Rightarrow> nat \<Rightarrow> nat \<Rightarrow> nat \<Rightarrow> 'e bucket list" where
  "swap_step bs b swp hop_idx exp =
     (let distance = b - swp;
          bs = bs[swp := (bs ! swp)\<lparr>bits := BIT_UNSET (BIT_SET (bits (bs ! swp)) distance) hop_idx\<rparr>];
          src = bs ! (swp + hop_idx);
          old = bits (bs ! b)
      in bs[b := \<lparr>bits = old XOR ((old XOR bits src) AND BUCKET_HASH_MASK exp), entry = entry src\<rparr>])"

function make_room_loop ::
  "'e bucket list \<Rightarrow> nat \<Rightarrow> nat \<Rightarrow> nat \<Rightarrow> nat option \<times> 'e bucket list" where
  "make_room_loop bs home b exp =
     (if home + exp \<le> b then
        (case find_swap bs b (b - (exp - 1)) of
           None \<Rightarrow> (None, bs[b := (bs ! b)\<lparr>entry := None\<rparr>])
         | Some (swp, hop_idx) \<Rightarrow>
             make_room_loop (swap_step bs b swp hop_idx exp) home (swp + hop_idx) exp)
      else (Some (b - home), bs))"
  by pat_completeness auto
termination
  by (relation "measure (\<lambda>(bs, home, b, exp). b)") (auto dest!: find_swap_Some)

declare make_room_loop.simps [simp del]

definition make_room :: "'e bucket list \<Rightarrow> nat \<Rightarrow> nat \<Rightarrow> nat option \<times> 'e bucket list" where
  "make_room bs home exp =
     (case probe bs home of
        None \<Rightarrow> (None, bs)
      | Some b \<Rightarrow> make_room_loop bs home b exp)"

section \<open>Operations that write\<close>

text \<open>The tail shared by \<open>rehash\<close> and \<open>hashmap_insert\<close> once a slot is found.\<close>

definition put_entry :: "'e bucket list \<Rightarrow> nat \<Rightarrow> nat \<Rightarrow> nat \<Rightarrow> u64 \<Rightarrow> 'e \<Rightarrow> 'e bucket list" where
  "put_entry bs home hop_idx exp hashcode e =
     (let bs = bs[home := (bs ! home)\<lparr>bits := BIT_SET (bits (bs ! home)) hop_idx\<rparr>];
          b = home + hop_idx
      in bs[b := \<lparr>bits = (bits (bs ! b) AND BUCKET_HOP_MASK exp) OR push_bit exp hashcode,
                  entry = Some e\<rparr>])"

fun rehash_loop ::
  "('e \<Rightarrow> u64) \<Rightarrow> nat \<Rightarrow> 'e bucket list \<Rightarrow> 'e bucket list \<Rightarrow> 'e bucket list option" where
  "rehash_loop entry_hash new_exp [] new_buckets = Some new_buckets"
| "rehash_loop entry_hash new_exp (old_b # old) new_buckets =
     (case entry old_b of
        None \<Rightarrow> rehash_loop entry_hash new_exp old new_buckets
      | Some old_e \<Rightarrow>
          (let hashcode = entry_hash old_e;
               new_home = HASH_TO_IDX hashcode new_exp
           in case make_room new_buckets new_home new_exp of
                (None, _) \<Rightarrow> None
              | (Some hop_idx, new_buckets) \<Rightarrow>
                  rehash_loop entry_hash new_exp old
                    (put_entry new_buckets new_home hop_idx new_exp hashcode old_e)))"

definition rehash :: "('e \<Rightarrow> u64) \<Rightarrow> 'e hashmap \<Rightarrow> nat \<Rightarrow> int \<times> 'e hashmap" where
  "rehash entry_hash m new_exp =
     (if EXP_MAX < new_exp then (-1, m)
      else (let new_nbuckets = BUCKET_CNT new_exp
            in case rehash_loop entry_hash new_exp (buckets m) (replicate new_nbuckets empty_bucket) of
                 None \<Rightarrow> (-1, m)
               | Some new_buckets \<Rightarrow>
                   (0, m\<lparr>buckets := new_buckets, num_buckets := new_nbuckets, hm_exp := new_exp\<rparr>)))"

definition hashmap_create :: "'e hashmap" where
  "hashmap_create = \<lparr>buckets = replicate (BUCKET_CNT EXP_MIN) empty_bucket,
     num_buckets = BUCKET_CNT EXP_MIN, num_used = 0, hm_exp = EXP_MIN\<rparr>"

lemma rehash_ok: "rehash H m n = (0, m') \<Longrightarrow> n \<le> EXP_MAX \<and> hm_exp m' = n"
  by (auto simp: rehash_def Let_def split: if_splits option.splits)

function hashmap_insert :: "('e \<Rightarrow> u64) \<Rightarrow> 'e hashmap \<Rightarrow> u64 \<Rightarrow> 'e \<Rightarrow> 'e hashmap option" where
  "hashmap_insert entry_hash m hashcode e =
     (let exp = hm_exp m;
          home = HASH_TO_IDX hashcode exp
      in case make_room (buckets m) home exp of
           (Some hop_idx, bs) \<Rightarrow>
             Some (m\<lparr>buckets := put_entry bs home hop_idx exp hashcode e,
                       num_used := num_used m + 1\<rparr>)
         | (None, bs) \<Rightarrow>
             (case rehash entry_hash (m\<lparr>buckets := bs\<rparr>) (exp + 1) of (status, m1) \<Rightarrow>
                if status = 0 then hashmap_insert entry_hash m1 hashcode e
                else (case rehash entry_hash m1 (exp + 2) of (status, m2) \<Rightarrow>
                        if status = 0 then hashmap_insert entry_hash m2 hashcode e
                        else None)))"
  by pat_completeness auto
termination
  by (relation "measure (\<lambda>(H, m, hc, e). EXP_MAX + 1 - hm_exp m)")
    (auto dest!: rehash_ok [OF sym])

declare hashmap_insert.simps [simp del]

text \<open>
  A negative \<open>entry_id\<close> means it is not known.  \<open>None\<close>: one of the assertions failed
  (the entry is not in the m, or not where \<open>entry_id\<close> says).
\<close>

definition hashmap_update ::
  "('e \<Rightarrow> u64) \<Rightarrow> 'e hashmap \<Rightarrow> 'e \<Rightarrow> 'e option \<Rightarrow> int \<Rightarrow> 'e hashmap option" where
  "hashmap_update entry_hash m e new_entry entry_id =
     (case (if entry_id < 0 then find_entry entry_hash m e
            else Some (nat entry_id div 2 ^ HOP_IDX_WIDTH, nat entry_id mod 2 ^ HOP_IDX_WIDTH)) of
        None \<Rightarrow> None
      | Some (home, hop_idx) \<Rightarrow>
          (let bs = buckets m;
               bs = bs[home := (bs ! home)\<lparr>bits := BIT_UNSET (bits (bs ! home)) hop_idx\<rparr>];
               b = home + hop_idx
           in if entry (bs ! b) \<noteq> Some e then None
              else (let bs = bs[b := (bs ! b)\<lparr>entry := new_entry\<rparr>];
                        m = m\<lparr>buckets := bs\<rparr>
                    in if new_entry \<noteq> None then Some m
                       else (let m = m\<lparr>num_used := num_used m - 1\<rparr>
                             in if hm_exp m \<le> EXP_MIN then Some m
                                else if num_used m < num_buckets m div 8 then
                                  Some (snd (rehash entry_hash m (hm_exp m - 1)))
                                else Some m))))"

end
