(* ===== verification/Hashmap_Correct.thy ===== *)
theory Hashmap_Correct
  imports Hashmap
begin

text \<open>
  Correctness of the hash table: the invariant that ties hop bits, hash fragments and entries
  together, its preservation by every operation (with one bucket treated as a hole while an
  entry is on the move), the set of entries as the abstraction, and the table as a provider of
  the entry-set interface its clients use.
\<close>

section \<open>The invariant\<close>

definition home :: "('e \<Rightarrow> u64) \<Rightarrow> nat \<Rightarrow> 'e \<Rightarrow> nat" where
  "home H exp e = HASH_TO_IDX (H e) exp"

text \<open>What bucket \<open>i\<close> holds when the buckets in \<open>hole\<close> count as empty.\<close>

definition occ :: "'e bucket list \<Rightarrow> nat set \<Rightarrow> nat \<Rightarrow> 'e option" where
  "occ bs hole i = (if i < length bs \<and> i \<notin> hole then entry (bs ! i) else None)"

definition occupants :: "'e bucket list \<Rightarrow> nat set \<Rightarrow> 'e set" where
  "occupants bs hole = {e. \<exists>i. occ bs hole i = Some e}"

definition frag_ok :: "nat \<Rightarrow> u64 \<Rightarrow> u64 \<Rightarrow> bool" where
  "frag_ok exp b hash \<longleftrightarrow> b AND BUCKET_HASH_MASK exp = push_bit exp hash"

definition hop_ok :: "('e \<Rightarrow> u64) \<Rightarrow> nat \<Rightarrow> 'e bucket list \<Rightarrow> nat set \<Rightarrow> bool" where
  "hop_ok H exp bs hole \<longleftrightarrow>
     (\<forall>i < length bs. \<forall>d < exp.
        bit (bits (bs ! i)) d \<longleftrightarrow> (\<exists>e. occ bs hole (i + d) = Some e \<and> home H exp e = i))"

definition slot_ok :: "('e \<Rightarrow> u64) \<Rightarrow> nat \<Rightarrow> 'e bucket list \<Rightarrow> nat set \<Rightarrow> bool" where
  "slot_ok H exp bs hole \<longleftrightarrow>
     (\<forall>i e. occ bs hole i = Some e \<longrightarrow>
        home H exp e \<le> i \<and> i < home H exp e + exp \<and> frag_ok exp (bits (bs ! i)) (H e))"

definition occ_inj :: "'e bucket list \<Rightarrow> nat set \<Rightarrow> bool" where
  "occ_inj bs hole \<longleftrightarrow> (\<forall>i j e. occ bs hole i = Some e \<longrightarrow> occ bs hole j = Some e \<longrightarrow> i = j)"

definition exp_ok :: "nat \<Rightarrow> 'e bucket list \<Rightarrow> bool" where
  "exp_ok exp bs \<longleftrightarrow> 1 \<le> exp \<and> exp \<le> EXP_MAX \<and> length bs = BUCKET_CNT exp"

definition buckets_inv :: "('e \<Rightarrow> u64) \<Rightarrow> nat \<Rightarrow> 'e bucket list \<Rightarrow> nat set \<Rightarrow> bool" where
  "buckets_inv H exp bs hole \<longleftrightarrow>
     exp_ok exp bs \<and> hop_ok H exp bs hole \<and> slot_ok H exp bs hole \<and> occ_inj bs hole"

definition hm_inv :: "('e \<Rightarrow> u64) \<Rightarrow> 'e hashmap \<Rightarrow> bool" where
  "hm_inv H m \<longleftrightarrow> buckets_inv H (hm_exp m) (buckets m) {} \<and>
     num_buckets m = length (buckets m) \<and> EXP_MIN \<le> hm_exp m \<and>
     num_used m = card (occupants (buckets m) {})"

definition hm_set :: "'e hashmap \<Rightarrow> 'e set" where
  "hm_set m = occupants (buckets m) {}"

section \<open>Index arithmetic\<close>

lemma HASH_TO_IDX_less: "exp \<le> EXP_MAX \<Longrightarrow> HASH_TO_IDX hash exp < 2 ^ exp"
proof -
  assume "exp \<le> EXP_MAX"
  then have e: "64 - (64 - exp) = exp" by (simp add: EXP_MAX_def)
  have "unat hash < 2 ^ exp * 2 ^ (64 - exp)"
    using unsigned_less [of hash] e \<open>exp \<le> EXP_MAX\<close>
    by (simp add: power_add [symmetric] EXP_MAX_def)
  then have "drop_bit (64 - exp) (unat hash) < 2 ^ exp"
    by (simp add: drop_bit_eq_div less_mult_imp_div_less)
  moreover have "unat (drop_bit (64 - exp) hash) = drop_bit (64 - exp) (unat hash)"
    using unsigned_less [of hash, where 'a = nat] by (simp add: unsigned_drop_bit_eq take_bit_nat_eq_self)
  ultimately show ?thesis by (simp add: HASH_TO_IDX_def HASHMAP_WORD_SIZE_def)
qed

lemma home_less: "exp \<le> EXP_MAX \<Longrightarrow> home H exp e < 2 ^ exp"
  by (simp add: home_def HASH_TO_IDX_less)

lemma hop_range:
  assumes "exp_ok exp bs" "h < 2 ^ exp" "d < exp"
  shows "h + d < length bs"
  using assms by (simp add: exp_ok_def BUCKET_CNT_def)

text \<open>The home bucket and the hash fragment together determine the hash code.\<close>

lemma hash_from_parts:
  assumes "exp \<le> EXP_MAX" "HASH_TO_IDX a exp = HASH_TO_IDX b exp" "push_bit exp a = push_bit exp b"
  shows "a = b"
proof (rule bit_word_eqI)
  fix n assume n: "n < LENGTH(64)"
  have idx: "drop_bit (64 - exp) a = drop_bit (64 - exp) b"
    using assms(2) by (simp add: HASH_TO_IDX_def HASHMAP_WORD_SIZE_def unsigned_word_eqI)
  show "bit a n = bit b n"
  proof (cases "64 - exp \<le> n")
    case True
    have "bit (drop_bit (64 - exp) a) (n - (64 - exp)) = bit (drop_bit (64 - exp) b) (n - (64 - exp))"
      using idx by simp
    then show ?thesis using True by (simp add: bit_simps)
  next
    case False
    have "bit (push_bit exp a) (n + exp) = bit (push_bit exp b) (n + exp)"
      using assms(3) by simp
    moreover have "n + exp < 64" using False assms(1) by (simp add: EXP_MAX_def)
    ultimately show ?thesis by (simp add: bit_simps)
  qed
qed

section \<open>The lookup loops\<close>

lemma search_loop_step:
  assumes "hop \<noteq> 0" "count_tz hop < exp"
  shows "search_loop cmp bs h exp frag hop =
    (let k = count_tz hop; b = bs ! (h + k); next = BIT_UNSET hop k
     in if bits b AND BUCKET_HASH_MASK exp \<noteq> frag then search_loop cmp bs h exp frag next
        else (case entry b of None \<Rightarrow> None
              | Some e \<Rightarrow> (if cmp e \<noteq> 0 then search_loop cmp bs h exp frag next
                          else Some (Some (e, k)))))"
  using assms by (subst search_loop.simps) (simp add: Let_def)

lemma search_loop_end:
  assumes "\<not> (hop \<noteq> 0 \<and> count_tz hop < exp)"
  shows "search_loop cmp bs h exp frag hop = Some None"
  using assms by (subst search_loop.simps) (auto simp: Let_def)

text \<open>
  The loop visits every set bit below \<open>exp\<close>: with all those buckets occupied it does not fail,
  a hit satisfies the two tests, and a miss means that no candidate does.
\<close>

lemma search_loop_spec:
  assumes "exp \<le> 64" "\<forall>d<exp. bit hop d \<longrightarrow> entry (bs ! (h + d)) \<noteq> None"
  shows "case search_loop cmp bs h exp frag hop of
      None \<Rightarrow> False
    | Some None \<Rightarrow> \<forall>d<exp. bit hop d \<longrightarrow> bits (bs ! (h + d)) AND BUCKET_HASH_MASK exp = frag \<longrightarrow>
        (\<forall>e. entry (bs ! (h + d)) = Some e \<longrightarrow> cmp e \<noteq> 0)
    | Some (Some (e, d)) \<Rightarrow> d < exp \<and> bit hop d \<and> entry (bs ! (h + d)) = Some e \<and>
        bits (bs ! (h + d)) AND BUCKET_HASH_MASK exp = frag \<and> cmp e = 0"
  using assms
proof (induction cmp bs h exp frag hop rule: search_loop.induct)
  case (1 cmp bs h exp frag hop)
  let ?k = "count_tz hop"
  let ?b = "bs ! (h + ?k)"
  show ?case
  proof (cases "hop \<noteq> 0 \<and> ?k < exp")
    case False
    then have "\<not> bit hop d" if "d < exp" for d
      using that count_tz_bit [of hop] by (cases "hop = 0") auto
    with False show ?thesis by (simp add: search_loop_end)
  next
    case True
    then have k: "bit hop ?k" "?k < exp" using count_tz_bit by blast+
    obtain e where e: "entry ?b = Some e" using "1.prems"(2) k by auto
    have rest: "\<forall>d<exp. bit (BIT_UNSET hop ?k) d \<longrightarrow> entry (bs ! (h + d)) \<noteq> None"
      using "1.prems"(2) by simp
    show ?thesis
    proof (cases "bits ?b AND BUCKET_HASH_MASK exp = frag \<and> cmp e = 0")
      case True
      then show ?thesis using k e \<open>hop \<noteq> 0 \<and> ?k < exp\<close> by (simp add: search_loop_step Let_def)
    next
      case miss: False
      have eq: "search_loop cmp bs h exp frag hop = search_loop cmp bs h exp frag (BIT_UNSET hop ?k)"
        using True miss e by (auto simp: search_loop_step Let_def)
      have IH: "case search_loop cmp bs h exp frag (BIT_UNSET hop ?k) of
          None \<Rightarrow> False
        | Some None \<Rightarrow> \<forall>d<exp. bit (BIT_UNSET hop ?k) d \<longrightarrow>
            bits (bs ! (h + d)) AND BUCKET_HASH_MASK exp = frag \<longrightarrow>
            (\<forall>e. entry (bs ! (h + d)) = Some e \<longrightarrow> cmp e \<noteq> 0)
        | Some (Some (e, d)) \<Rightarrow> d < exp \<and> bit (BIT_UNSET hop ?k) d \<and>
            entry (bs ! (h + d)) = Some e \<and>
            bits (bs ! (h + d)) AND BUCKET_HASH_MASK exp = frag \<and> cmp e = 0"
        using "1.IH"(1) [OF refl _ refl refl] "1.IH"(2) [OF refl _ refl refl _ e]
          True miss e "1.prems"(1) rest by fastforce
      show ?thesis
        unfolding eq using IH miss e by (auto split: option.splits)
    qed
  qed
qed

section \<open>Search\<close>

lemma occ_empty_hole [simp]: "occ bs {} i = (if i < length bs then entry (bs ! i) else None)"
  by (simp add: occ_def)

text \<open>A set hop bit points at an occupied bucket in range.\<close>

lemma hop_bit_occ:
  assumes "buckets_inv H exp bs hole" "i < length bs" "d < exp" "bit (bits (bs ! i)) d"
  obtains e where "occ bs hole (i + d) = Some e" "home H exp e = i"
  using assms by (auto simp: buckets_inv_def hop_ok_def)

lemma home_in_range:
  assumes "buckets_inv H exp bs hole" "exp_ok exp bs \<Longrightarrow> h < 2 ^ exp"
  shows "h < length bs"
  using assms by (auto simp: buckets_inv_def exp_ok_def BUCKET_CNT_def)

lemma occ_at_home:
  assumes "buckets_inv H exp bs hole" "occ bs hole i = Some e"
  obtains d where "i = home H exp e + d" "d < exp" "bit (bits (bs ! home H exp e)) d"
    "frag_ok exp (bits (bs ! i)) (H e)"
proof -
  let ?h = "home H exp e"
  have s: "?h \<le> i" "i < ?h + exp" "frag_ok exp (bits (bs ! i)) (H e)"
    using assms by (auto simp: buckets_inv_def slot_ok_def)
  have "i < length bs" using assms(2) by (simp add: occ_def split: if_splits)
  then have "?h < length bs" using s by simp
  moreover have "i - ?h < exp" "?h + (i - ?h) = i" using s by simp_all
  ultimately have "bit (bits (bs ! ?h)) (i - ?h)"
    using assms by (auto simp: buckets_inv_def hop_ok_def)
  then show thesis using that [of "i - ?h"] s by simp
qed

definition id_of :: "'e hashmap \<Rightarrow> 'e \<Rightarrow> int \<Rightarrow> bool" where
  "id_of m e n \<longleftrightarrow> (\<exists>h d. n = PACK_ID h d \<and> d < hm_exp m \<and> h + d < length (buckets m) \<and>
     bit (bits (buckets m ! h)) d \<and> entry (buckets m ! (h + d)) = Some e)"

lemma hashmap_search_spec:
  assumes inv: "hm_inv H m"
  shows "case hashmap_search cmp m hashcode of
      None \<Rightarrow> False
    | Some None \<Rightarrow> \<forall>e \<in> hm_set m. H e = hashcode \<longrightarrow> cmp e \<noteq> 0
    | Some (Some (e, n)) \<Rightarrow> e \<in> hm_set m \<and> H e = hashcode \<and> cmp e = 0 \<and> id_of m e n"
proof -
  let ?exp = "hm_exp m" and ?bs = "buckets m"
  let ?h = "HASH_TO_IDX hashcode ?exp" and ?frag = "push_bit ?exp hashcode"
  let ?hop = "bits (?bs ! ?h)"
  have b: "buckets_inv H ?exp ?bs {}" and le: "?exp \<le> EXP_MAX" and ok: "exp_ok ?exp ?bs"
    using inv by (auto simp: hm_inv_def buckets_inv_def exp_ok_def)
  have h: "?h < length ?bs" using le by (intro home_in_range [OF b]) (simp add: HASH_TO_IDX_less)
  have range: "?h + d < length ?bs" if "d < ?exp" for d
    using ok le that by (intro hop_range) (simp_all add: HASH_TO_IDX_less)
  have occd: "\<exists>e. entry (?bs ! (?h + d)) = Some e \<and> home H ?exp e = ?h" if "d < ?exp" "bit ?hop d" for d
    using hop_bit_occ [OF b h that] range [OF that(1)] by auto
  have H: "H e = hashcode"
    if "d < ?exp" "bit ?hop d" "entry (?bs ! (?h + d)) = Some e"
      "bits (?bs ! (?h + d)) AND BUCKET_HASH_MASK ?exp = ?frag" for d e
  proof -
    have e: "home H ?exp e = ?h" using occd [OF that(1,2)] that(3) by auto
    have "frag_ok ?exp (bits (?bs ! (?h + d))) (H e)"
      using b that(3) range [OF that(1)] by (simp add: buckets_inv_def slot_ok_def)
    then have "push_bit ?exp (H e) = ?frag" using that(4) by (simp add: frag_ok_def)
    then show ?thesis using hash_from_parts [OF le, of "H e" hashcode] e by (simp add: home_def)
  qed
  have miss: "\<exists>d<?exp. bit ?hop d \<and> entry (?bs ! (?h + d)) = Some e \<and>
      bits (?bs ! (?h + d)) AND BUCKET_HASH_MASK ?exp = ?frag"
    if "e \<in> hm_set m" "H e = hashcode" for e
  proof -
    from that obtain i where i: "occ ?bs {} i = Some e" by (auto simp: hm_set_def occupants_def)
    have hm: "home H ?exp e = ?h" using that(2) by (simp add: home_def)
    obtain d where "i = ?h + d" "d < ?exp" "bit ?hop d" "frag_ok ?exp (bits (?bs ! i)) (H e)"
      using occ_at_home [OF b i] unfolding hm by blast
    then show ?thesis using i that(2) by (auto simp: frag_ok_def split: if_splits)
  qed
  have le64: "?exp \<le> 64" using le by (simp add: EXP_MAX_def)
  have busy: "\<forall>d<?exp. bit ?hop d \<longrightarrow> entry (?bs ! (?h + d)) \<noteq> None"
    using occd by (metis option.discI)
  define R where "R = search_loop cmp ?bs ?h ?exp ?frag ?hop"
  have s: "case R of
      None \<Rightarrow> False
    | Some None \<Rightarrow> \<forall>d<?exp. bit ?hop d \<longrightarrow> bits (?bs ! (?h + d)) AND BUCKET_HASH_MASK ?exp = ?frag \<longrightarrow>
        (\<forall>e. entry (?bs ! (?h + d)) = Some e \<longrightarrow> cmp e \<noteq> 0)
    | Some (Some (e, d)) \<Rightarrow> d < ?exp \<and> bit ?hop d \<and> entry (?bs ! (?h + d)) = Some e \<and>
        bits (?bs ! (?h + d)) AND BUCKET_HASH_MASK ?exp = ?frag \<and> cmp e = 0"
    unfolding R_def by (rule search_loop_spec [OF le64 busy])
  have res: "hashmap_search cmp m hashcode =
      map_option (map_option (\<lambda>(e, d). (e, PACK_ID ?h d))) R"
    by (simp add: hashmap_search_def R_def Let_def)
  show ?thesis
  proof (cases R)
    case None
    then show ?thesis using s by simp
  next
    case (Some r)
    show ?thesis
    proof (cases r)
      case None
      have "\<forall>e \<in> hm_set m. H e = hashcode \<longrightarrow> cmp e \<noteq> 0"
      proof (intro ballI impI)
        fix e assume "e \<in> hm_set m" "H e = hashcode"
        then obtain d where "d < ?exp" "bit ?hop d" "entry (?bs ! (?h + d)) = Some e"
          "bits (?bs ! (?h + d)) AND BUCKET_HASH_MASK ?exp = ?frag" using miss by blast
        then show "cmp e \<noteq> 0" using s Some None by simp
      qed
      then show ?thesis using Some None res by simp
    next
      case r: (Some p)
      obtain e d where p: "p = (e, d)" by (cases p)
      have d: "d < ?exp" "bit ?hop d" "entry (?bs ! (?h + d)) = Some e" "cmp e = 0"
        "bits (?bs ! (?h + d)) AND BUCKET_HASH_MASK ?exp = ?frag" using s Some r p by simp_all
      have "e \<in> hm_set m"
        using d(3) range [OF d(1)] by (auto simp: hm_set_def occupants_def intro!: exI [of _ "?h + d"])
      moreover have "id_of m e (PACK_ID ?h d)"
        using d range [OF d(1)] by (auto simp: id_of_def)
      ultimately show ?thesis using Some r p res d H [OF d(1,2,3,5)] by simp
    qed
  qed
qed

lemma find_loop_spec:
  assumes "exp \<le> 64" "d < exp" "bit hop d" "entry (bs ! (h + d)) = Some e"
    "bits (bs ! (h + d)) AND BUCKET_HASH_MASK exp = frag"
  shows "\<exists>k. find_loop e bs h exp frag hop = Some k \<and> k < exp \<and> bit hop k \<and> entry (bs ! (h + k)) = Some e"
  using assms
proof (induction e bs h exp frag hop rule: find_loop.induct)
  case (1 e bs h exp frag hop)
  let ?k = "count_tz hop"
  have nz: "hop \<noteq> 0" using "1.prems"(3) by auto
  have "?k \<le> d" using "1.prems"(3) count_tz_bit [OF nz] by (meson not_le)
  then have k: "bit hop ?k" "?k < exp" using count_tz_bit [OF nz] "1.prems"(2) by auto
  note step = find_loop.simps [of e bs h exp frag hop]
  show ?case
  proof (cases "bits (bs ! (h + ?k)) AND BUCKET_HASH_MASK exp = frag \<and> entry (bs ! (h + ?k)) = Some e")
    case True
    then show ?thesis using k nz step by (simp add: Let_def)
  next
    case False
    then have "d \<noteq> ?k" using "1.prems" by auto
    then have bit': "bit (BIT_UNSET hop ?k) d" using "1.prems"(3) by simp
    have eq: "find_loop e bs h exp frag hop = find_loop e bs h exp frag (BIT_UNSET hop ?k)"
      using False k nz step by (auto simp: Let_def)
    have "\<exists>k'. find_loop e bs h exp frag (BIT_UNSET hop ?k) = Some k' \<and> k' < exp \<and>
        bit (BIT_UNSET hop ?k) k' \<and> entry (bs ! (h + k')) = Some e"
      using "1.IH"(1) [OF refl _ refl refl] "1.IH"(2) [OF refl _ refl refl] False nz k bit' "1.prems"
      by (cases "bits (bs ! (h + ?k)) AND BUCKET_HASH_MASK exp = frag") auto
    then show ?thesis unfolding eq by auto
  qed
qed

lemma find_entry_spec:
  assumes inv: "hm_inv H m" and e: "e \<in> hm_set m"
  shows "\<exists>h d. find_entry H m e = Some (h, d) \<and> d < hm_exp m \<and> h + d < length (buckets m) \<and>
    bit (bits (buckets m ! h)) d \<and> entry (buckets m ! (h + d)) = Some e"
proof -
  let ?exp = "hm_exp m" and ?bs = "buckets m"
  let ?h = "home H ?exp e"
  have b: "buckets_inv H ?exp ?bs {}" and ok: "exp_ok ?exp ?bs" and le: "?exp \<le> EXP_MAX"
    using inv by (auto simp: hm_inv_def buckets_inv_def exp_ok_def)
  from e obtain i where i: "occ ?bs {} i = Some e" by (auto simp: hm_set_def occupants_def)
  obtain d where d: "i = ?h + d" "d < ?exp" "bit (bits (?bs ! ?h)) d" "frag_ok ?exp (bits (?bs ! i)) (H e)"
    using occ_at_home [OF b i] by blast
  have le64: "?exp \<le> 64" using le by (simp add: EXP_MAX_def)
  have "entry (?bs ! (?h + d)) = Some e" using i d(1) by (simp split: if_splits)
  then obtain k where "find_loop e ?bs ?h ?exp (push_bit ?exp (H e)) (bits (?bs ! ?h)) = Some k"
    "k < ?exp" "bit (bits (?bs ! ?h)) k" "entry (?bs ! (?h + k)) = Some e"
    using find_loop_spec [OF le64 d(2,3), of ?bs ?h e "push_bit ?exp (H e)"] d(1,4)
    by (auto simp: frag_ok_def)
  moreover have "?h + k < length ?bs"
    using ok le \<open>k < ?exp\<close> by (intro hop_range) (simp_all add: home_less)
  ultimately show ?thesis by (auto simp: find_entry_def Let_def home_def)
qed

section \<open>Making room\<close>

lemma buckets_inv_cong:
  assumes "length bs' = length bs" "\<And>i. occ bs' h' i = occ bs h i"
    "\<And>i. i < length bs \<Longrightarrow> bits (bs' ! i) = bits (bs ! i)"
  shows "buckets_inv H exp bs' h' = buckets_inv H exp bs h" "occupants bs' h' = occupants bs h"
proof -
  have *: "occ bs h i = Some e \<Longrightarrow> bits (bs' ! i) = bits (bs ! i)" for i e
    using assms(3) by (simp add: occ_def split: if_splits)
  show "buckets_inv H exp bs' h' = buckets_inv H exp bs h"
    using assms * unfolding buckets_inv_def exp_ok_def hop_ok_def slot_ok_def occ_inj_def
    by (simp cong: conj_cong imp_cong)
  show "occupants bs' h' = occupants bs h" using assms(2) by (simp add: occupants_def)
qed

lemma occ_range: "occ bs h i = Some e \<Longrightarrow> i < length bs \<and> i \<notin> h \<and> entry (bs ! i) = Some e"
  by (simp add: occ_def split: if_splits)

text \<open>Invariants of an updated table from pointwise descriptions of its bits and occupants.\<close>

lemma buckets_inv_move:
  assumes inv: "buckets_inv H exp bs {b}" and b: "b < length bs" "b - swp < exp" "swp < b"
    and hop: "bit (bits (bs ! swp)) hop" "hop < b - swp"
    and bs': "bs' = swap_step bs b swp hop exp"
  shows "buckets_inv H exp bs' {swp + hop}" "occupants bs' {swp + hop} = occupants bs {b}"
    "length bs' = length bs"
proof -
  let ?src = "swp + hop" and ?d = "b - swp"
  have lt: "?src < b" "hop < exp" "swp < length bs" using b hop by simp_all
  obtain e0 where e0: "occ bs {b} ?src = Some e0" "home H exp e0 = swp"
    using hop_bit_occ [OF inv lt(3) lt(2) hop(1)] .
  show len: "length bs' = length bs" by (simp add: bs' swap_step_def Let_def)
  have exp: "exp \<le> 57" using inv by (simp add: buckets_inv_def exp_ok_def EXP_MAX_def)
  have occ': "occ bs' {?src} i = (if i = b then Some e0 else if i = ?src then None else occ bs {b} i)" for i
    using b lt e0 occ_range [OF e0(1)]
    by (auto simp: bs' occ_def swap_step_def Let_def nth_list_update)
  have hop': "bit (bits (bs' ! i)) k \<longleftrightarrow>
      (if i = swp then (bit (bits (bs ! i)) k \<or> k = ?d) \<and> k \<noteq> hop else bit (bits (bs ! i)) k)"
    if "i < length bs" "k < exp" for i k
    using that b lt exp by (auto simp: bs' swap_step_def Let_def nth_list_update bit_simps)
  have frag': "bits (bs' ! i) AND BUCKET_HASH_MASK exp =
      bits (bs ! (if i = b then ?src else i)) AND BUCKET_HASH_MASK exp" if "i < length bs" for i
    using that b lt exp hop(2)
    by (intro bit_word_eqI) (auto simp: bs' swap_step_def Let_def nth_list_update bit_simps)
  have ok: "exp_ok exp bs" "hop_ok H exp bs {b}" "slot_ok H exp bs {b}" "occ_inj bs {b}"
    using inv by (simp_all add: buckets_inv_def)
  have occ_b: "occ bs {b} b = None" by (simp add: occ_def)
  have hop_old: "bit (bits (bs ! i)) k \<longleftrightarrow> (\<exists>e. occ bs {b} (i + k) = Some e \<and> home H exp e = i)"
    if "i < length bs" "k < exp" for i k using ok(2) that by (simp add: hop_ok_def)
  have "hop_ok H exp bs' {?src}"
    unfolding hop_ok_def len
  proof (intro allI impI)
    fix i k assume ik: "i < length bs" "k < exp"
    show "bit (bits (bs' ! i)) k \<longleftrightarrow> (\<exists>e. occ bs' {?src} (i + k) = Some e \<and> home H exp e = i)"
    proof (cases "i = swp")
      case True
      consider "k = ?d" | "k = hop" | "k \<noteq> ?d \<and> k \<noteq> hop" by blast
      then show ?thesis
        using True hop' [OF ik] hop_old [OF ik] occ' [of "i + k"] e0 b hop(2) by cases auto
    next
      case False
      then show ?thesis using hop' [OF ik] hop_old [OF ik] occ' [of "i + k"] e0 occ_b
        by (cases "i + k = b"; cases "i + k = ?src") auto
    qed
  qed
  moreover have "slot_ok H exp bs' {?src}"
    unfolding slot_ok_def
  proof (intro allI impI)
    fix i e assume "occ bs' {?src} i = Some e"
    then consider "i = b" "e = e0" | "i \<noteq> b" "i \<noteq> ?src" "occ bs {b} i = Some e"
      using occ' [of i] by (auto split: if_splits)
    then show "home H exp e \<le> i \<and> i < home H exp e + exp \<and> frag_ok exp (bits (bs' ! i)) (H e)"
    proof cases
      case 1
      then show ?thesis
        using ok(3) e0 b frag' [of b] unfolding slot_ok_def frag_ok_def by auto
    next
      case 2
      then show ?thesis using ok(3) frag' [of i] occ_range [OF 2(3)]
        unfolding slot_ok_def frag_ok_def by auto
    qed
  qed
  moreover have "occ_inj bs' {?src}"
    using ok(4) e0(1) occ' unfolding occ_inj_def by (smt (verit) option.inject option.discI)
  moreover have "exp_ok exp bs'" using ok(1) len by (simp add: exp_ok_def)
  ultimately show "buckets_inv H exp bs' {?src}" by (simp add: buckets_inv_def)
  show "occupants bs' {?src} = occupants bs {b}"
    using e0(1) occ' occ_b unfolding occupants_def
    by (intro Collect_cong) (metis option.discI option.inject)
qed

lemma probe_Some: "probe bs b = Some i \<Longrightarrow> b \<le> i \<and> i < length bs \<and> entry (bs ! i) = None"
proof (induction bs b rule: probe.induct)
  case (1 bs b)
  then show ?case
    by (subst (asm) (2) probe.simps) (auto split: if_splits)
qed

lemma probe_first:
  "b \<le> i \<Longrightarrow> i < length bs \<Longrightarrow> entry (bs ! i) = None \<Longrightarrow> \<exists>j. probe bs b = Some j \<and> j \<le> i"
proof (induction bs b rule: probe.induct)
  case (1 bs b)
  show ?case
  proof (cases "entry (bs ! b) = None")
    case False
    then have "Suc b \<le> i" using "1.prems" by (metis Suc_leI le_neq_implies_less)
    then show ?thesis using "1.IH" "1.prems" False by (simp add: probe.simps [of bs b])
  qed (use "1.prems" in \<open>simp add: probe.simps [of bs b]\<close>)
qed

text \<open>
  Moving the empty slot forward keeps the table: it ends in the neighbourhood of \<open>h\<close>, or the
  attempt is given up with the same entries in place.
\<close>

definition room_ok ::
  "('e \<Rightarrow> u64) \<Rightarrow> nat \<Rightarrow> nat \<Rightarrow> nat \<Rightarrow> 'e set \<Rightarrow> nat option \<times> 'e bucket list \<Rightarrow> bool" where
  "room_ok H exp len h S r \<longleftrightarrow> length (snd r) = len \<and>
     (case fst r of
        Some d \<Rightarrow> d < exp \<and> buckets_inv H exp (snd r) {h + d} \<and> occupants (snd r) {h + d} = S
      | None \<Rightarrow> buckets_inv H exp (snd r) {} \<and> occupants (snd r) {} = S)"

lemma make_room_loop_ok:
  assumes "buckets_inv H exp bs {b}" "b < length bs" "h \<le> b"
  shows "room_ok H exp (length bs) h (occupants bs {b}) (make_room_loop bs h b exp)"
  using assms
proof (induction bs h b exp rule: make_room_loop.induct)
  case (1 bs h b exp)
  note step = make_room_loop.simps [of bs h b exp]
  have exp: "1 \<le> exp" using "1.prems"(1) by (simp add: buckets_inv_def exp_ok_def)
  consider "b < h + exp" | "h + exp \<le> b" "find_swap bs b (b - (exp - 1)) = None"
    | swp hop where "h + exp \<le> b" "find_swap bs b (b - (exp - 1)) = Some (swp, hop)"
    by fastforce
  then show ?case
  proof cases
    case 1
    then show ?thesis using "1.prems" by (auto simp: step room_ok_def)
  next
    case 2
    let ?bs = "bs[b := (bs ! b)\<lparr>entry := None\<rparr>]"
    have *: "length ?bs = length bs" "occ ?bs {} i = occ bs {b} i"
      "i < length bs \<Longrightarrow> bits (?bs ! i) = bits (bs ! i)" for i
      using "1.prems"(2) by (auto simp: occ_def nth_list_update)
    show ?thesis
      using 2 "1.prems"(1) buckets_inv_cong [OF *] by (simp add: step room_ok_def)
  next
    case 3
    have f: "b - (exp - 1) \<le> swp" "swp < b" "hop = count_tz (bits (bs ! swp))" "hop < b - swp"
      using find_swap_Some [OF 3(2)] by simp_all
    have d: "b - swp < exp" using f(1,2) exp by simp
    have "exp \<le> 57" using "1.prems"(1) by (simp add: buckets_inv_def exp_ok_def EXP_MAX_def)
    then have "hop < 64" using f(4) d by simp
    then have "bit (bits (bs ! swp)) hop"
      using count_tz_less count_tz_bit unfolding f(3) by blast
    note mv = buckets_inv_move [OF "1.prems"(1,2) d f(2) this f(4) refl]
    have "room_ok H exp (length (swap_step bs b swp hop exp)) h
        (occupants (swap_step bs b swp hop exp) {swp + hop})
        (make_room_loop (swap_step bs b swp hop exp) h (swp + hop) exp)"
      using 3 mv f "1.prems" exp by (intro "1.IH") auto
    then show ?thesis using 3 mv by (simp add: step)
  qed
qed

lemma make_room_ok:
  assumes "buckets_inv H exp bs {}"
  shows "room_ok H exp (length bs) h (occupants bs {}) (make_room bs h exp)"
proof (cases "probe bs h")
  case None
  then show ?thesis using assms by (simp add: make_room_def room_ok_def)
next
  case (Some b)
  note b = probe_Some [OF Some]
  have "occ bs {b} i = occ bs {} i" for i using b by (simp add: occ_def)
  note * = buckets_inv_cong [OF refl this refl]
  show ?thesis
    using make_room_loop_ok [of H exp bs b h] assms b * by (simp add: make_room_def Some)
qed

text \<open>An empty slot in the neighbourhood is used.\<close>

lemma make_room_near:
  assumes "h \<le> i" "i < h + exp" "i < length bs" "entry (bs ! i) = None"
  shows "\<exists>d. make_room bs h exp = (Some d, bs)"
proof -
  obtain j where j: "probe bs h = Some j" "j \<le> i" using probe_first [OF assms(1,3,4)] by blast
  then have "j < h + exp" using assms by simp
  then show ?thesis using j by (simp add: make_room_def make_room_loop.simps [of bs h j])
qed

section \<open>Filling the hole\<close>

lemma put_entry_ok:
  assumes inv: "buckets_inv H exp bs {h + d}" and d: "d < exp" "h = home H exp e"
    and new: "e \<notin> occupants bs {h + d}" and bs': "bs' = put_entry bs h d exp (H e) e"
  shows "buckets_inv H exp bs' {}" "occupants bs' {} = insert e (occupants bs {h + d})"
    "length bs' = length bs"
proof -
  let ?b = "h + d"
  have ok: "exp_ok exp bs" "hop_ok H exp bs {?b}" "slot_ok H exp bs {?b}" "occ_inj bs {?b}"
    using inv by (simp_all add: buckets_inv_def)
  have exp: "exp \<le> 57" "exp \<le> EXP_MAX" using ok(1) by (simp_all add: exp_ok_def EXP_MAX_def)
  have b: "?b < length bs" "h < length bs"
    using hop_range [OF ok(1) _ d(1), of h] home_less [OF exp(2), of H e] d(2) by simp_all
  show len: "length bs' = length bs" by (simp add: bs' put_entry_def Let_def)
  have occ': "occ bs' {} i = (if i = ?b then Some e else occ bs {?b} i)" for i
    using b by (auto simp: bs' occ_def put_entry_def Let_def nth_list_update)
  have occ_b: "occ bs {?b} ?b = None" by (simp add: occ_def)
  have hop': "bit (bits (bs' ! i)) k \<longleftrightarrow> bit (bits (bs ! i)) k \<or> i = h \<and> k = d"
    if "i < length bs" "k < exp" for i k
    using that b exp d by (auto simp: bs' put_entry_def Let_def nth_list_update bit_simps)
  have frag': "bits (bs' ! i) AND BUCKET_HASH_MASK exp =
      (if i = ?b then push_bit exp (H e) else bits (bs ! i) AND BUCKET_HASH_MASK exp)"
    if "i < length bs" for i
    using that b exp d
    by (intro bit_word_eqI) (auto simp: bs' put_entry_def Let_def nth_list_update bit_simps)
  have hop_old: "bit (bits (bs ! i)) k \<longleftrightarrow> (\<exists>e. occ bs {?b} (i + k) = Some e \<and> home H exp e = i)"
    if "i < length bs" "k < exp" for i k using ok(2) that by (simp add: hop_ok_def)
  have "hop_ok H exp bs' {}"
    unfolding hop_ok_def len
  proof (intro allI impI)
    fix i k assume ik: "i < length bs" "k < exp"
    show "bit (bits (bs' ! i)) k \<longleftrightarrow> (\<exists>e. occ bs' {} (i + k) = Some e \<and> home H exp e = i)"
    proof (cases "i + k = ?b")
      case True
      then show ?thesis
        unfolding hop' [OF ik] hop_old [OF ik] occ' [of "i + k"] using occ_b d(2) by auto
    next
      case False
      then show ?thesis
        unfolding hop' [OF ik] hop_old [OF ik] occ' [of "i + k"] by auto
    qed
  qed
  moreover have "slot_ok H exp bs' {}"
    unfolding slot_ok_def
  proof (intro allI impI)
    fix i e' assume "occ bs' {} i = Some e'"
    then consider "i = ?b" "e' = e" | "i \<noteq> ?b" "occ bs {?b} i = Some e'"
      unfolding occ' by (auto split: if_splits)
    then show "home H exp e' \<le> i \<and> i < home H exp e' + exp \<and> frag_ok exp (bits (bs' ! i)) (H e')"
    proof cases
      case 1
      then show ?thesis using d frag' [of ?b] b unfolding frag_ok_def by auto
    next
      case 2
      then show ?thesis using ok(3) frag' [of i] occ_range [OF 2(2)]
        unfolding slot_ok_def frag_ok_def by auto
    qed
  qed
  moreover have "occ_inj bs' {}"
  proof -
    have "occ bs {?b} i \<noteq> Some e" for i using new by (auto simp: occupants_def)
    then show ?thesis using ok(4) unfolding occ_inj_def occ' by auto
  qed
  moreover have "exp_ok exp bs'" using ok(1) len by (simp add: exp_ok_def)
  ultimately show "buckets_inv H exp bs' {}" by (simp add: buckets_inv_def)
  show "occupants bs' {} = insert e (occupants bs {?b})"
  proof (rule set_eqI)
    fix x show "x \<in> occupants bs' {} \<longleftrightarrow> x \<in> insert e (occupants bs {?b})"
      unfolding occupants_def occ' using occ_b by (auto split: if_splits) (metis option.discI)
  qed
qed

section \<open>Rehashing\<close>

lemma set_entries: "set (List.map_filter f xs) = {e. \<exists>x \<in> set xs. f x = Some e}"
  by (induction xs) (auto simp: List.map_filter_simps split: option.splits)

lemma occupants_entries: "occupants bs {} = set (List.map_filter entry bs)"
proof -
  have "(\<exists>i. occ bs {} i = Some e) \<longleftrightarrow> (\<exists>i < length bs. entry (bs ! i) = Some e)" for e by auto
  moreover have "(\<exists>i < length bs. entry (bs ! i) = Some e) \<longleftrightarrow> (\<exists>x \<in> set bs. entry x = Some e)" for e
    by (metis in_set_conv_nth)
  ultimately show ?thesis by (simp add: occupants_def set_entries)
qed

lemma occ_inj_entries:
  "occ_inj bs {} \<Longrightarrow> distinct (List.map_filter entry bs)"
proof (induction bs)
  case (Cons b bs)
  have inj: "i = j" if "i < length (b # bs)" "j < length (b # bs)"
    "entry ((b # bs) ! i) = Some e" "entry ((b # bs) ! j) = Some e" for i j e
    using Cons.prems that unfolding occ_inj_def by simp
  have "occ_inj bs {}"
    unfolding occ_inj_def using inj [of "Suc _" "Suc _"] by (auto split: if_splits)
  moreover have False if e: "entry b = Some e" and "e \<in> set (List.map_filter entry bs)" for e
  proof -
    from that(2) obtain i where "i < length bs" "entry (bs ! i) = Some e"
      by (auto simp: set_entries in_set_conv_nth)
    then show False using inj [of 0 "Suc i" e] e by simp
  qed
  ultimately show ?case using Cons.IH by (auto simp: List.map_filter_simps split: option.splits)
qed (simp add: List.map_filter_simps)

lemma finite_occupants: "finite (occupants bs {})"
  by (simp add: occupants_entries)

lemma empty_buckets_ok:
  assumes "1 \<le> exp" "exp \<le> EXP_MAX"
  shows "buckets_inv H exp (replicate (BUCKET_CNT exp) empty_bucket) {}"
    "occupants (replicate (BUCKET_CNT exp) empty_bucket) {} = {}"
  using assms
  by (auto simp: buckets_inv_def exp_ok_def hop_ok_def slot_ok_def occ_inj_def empty_bucket_def
      occupants_def split: if_splits)

lemma rehash_loop_ok:
  assumes "rehash_loop H exp old bs = Some bs'" "buckets_inv H exp bs {}"
    "distinct (List.map_filter entry old)" "set (List.map_filter entry old) \<inter> occupants bs {} = {}"
  shows "buckets_inv H exp bs' {} \<and> length bs' = length bs \<and>
    occupants bs' {} = occupants bs {} \<union> set (List.map_filter entry old)"
  using assms
proof (induction H exp old bs rule: rehash_loop.induct)
  case (2 H exp b old bs)
  show ?case
  proof (cases "entry b")
    case None
    then show ?thesis using 2 by (auto simp: List.map_filter_simps)
  next
    case (Some e)
    let ?h = "HASH_TO_IDX (H e) exp"
    obtain d bs1 where mr: "make_room bs ?h exp = (Some d, bs1)"
      using "2.prems"(1) Some by (auto simp: Let_def split: prod.splits option.splits)
    have ok: "d < exp" "buckets_inv H exp bs1 {?h + d}" "occupants bs1 {?h + d} = occupants bs {}"
      "length bs1 = length bs"
      using make_room_ok [OF "2.prems"(2), of ?h] mr by (simp_all add: room_ok_def)
    have new: "e \<notin> occupants bs1 {?h + d}"
      using "2.prems"(4) ok(3) Some by (simp add: List.map_filter_simps)
    have home: "?h = home H exp e" by (simp add: home_def)
    note put = put_entry_ok [OF ok(2,1) home new refl]
    have "rehash_loop H exp old (put_entry bs1 ?h d exp (H e) e) = Some bs'"
      using "2.prems"(1) Some mr by (simp add: Let_def)
    then show ?thesis
      using "2.IH"(2) [OF Some refl refl mr [symmetric] refl] put ok "2.prems"(3,4) Some
      by (auto simp: List.map_filter_simps)
  qed
qed (simp add: List.map_filter_simps)

lemma rehash_ok':
  assumes inv: "buckets_inv H (hm_exp m) (buckets m) {}" and n: "1 \<le> n"
    and r: "rehash H m n = (s, m')"
  shows "if s = 0 then buckets_inv H n (buckets m') {} \<and> hm_exp m' = n \<and>
      num_buckets m' = length (buckets m') \<and> num_used m' = num_used m \<and> hm_set m' = hm_set m
    else m' = m"
proof (cases "EXP_MAX < n \<or> rehash_loop H n (buckets m) (replicate (BUCKET_CNT n) empty_bucket) = None")
  case True
  then have "rehash H m n = (-1, m)" by (auto simp: rehash_def Let_def)
  then show ?thesis using r by simp
next
  case False
  then obtain bs where bs: "rehash_loop H n (buckets m) (replicate (BUCKET_CNT n) empty_bucket) = Some bs"
    and le: "n \<le> EXP_MAX" by auto
  have m': "s = 0" "m' = m\<lparr>buckets := bs, num_buckets := BUCKET_CNT n, hm_exp := n\<rparr>"
    using r bs le by (auto simp: rehash_def Let_def)
  have "occ_inj (buckets m) {}" using inv by (simp add: buckets_inv_def)
  from rehash_loop_ok [OF bs empty_buckets_ok(1) [OF n le] occ_inj_entries [OF this]]
  show ?thesis unfolding empty_buckets_ok(2) [OF n le] m'
    by (simp add: hm_set_def flip: occupants_entries)
qed

section \<open>Creation, insertion, deletion\<close>

lemma hashmap_create_ok: "hm_inv H hashmap_create" "hm_set hashmap_create = {}"
proof -
  have "1 \<le> EXP_MIN" "EXP_MIN \<le> EXP_MAX" by (simp_all add: EXP_MIN_def EXP_MAX_def)
  note e = empty_buckets_ok [OF this]
  show "hm_inv H hashmap_create" by (simp add: hm_inv_def hashmap_create_def e)
  show "hm_set hashmap_create = {}" by (simp add: hm_set_def hashmap_create_def e)
qed

lemma hm_inv_cong:
  assumes "\<And>e. e \<in> hm_set m \<Longrightarrow> H e = H' e"
  shows "hm_inv H m = hm_inv H' m"
proof -
  have *: "occ (buckets m) {} i = Some e \<Longrightarrow> H e = H' e" for i e
    using assms by (auto simp: hm_set_def occupants_def)
  have "hop_ok H n (buckets m) {} = hop_ok H' n (buckets m) {}" for n
    using * unfolding hop_ok_def home_def by (metis (no_types, lifting))
  moreover have "slot_ok H n (buckets m) {} = slot_ok H' n (buckets m) {}" for n
    using * unfolding slot_ok_def home_def by (metis (no_types, lifting))
  ultimately show ?thesis by (simp add: hm_inv_def buckets_inv_def)
qed

lemma hm_invD:
  assumes "hm_inv H m"
  shows "buckets_inv H (hm_exp m) (buckets m) {}" "hm_exp m \<le> 57" "8 \<le> hm_exp m"
    "num_used m = card (hm_set m)" "num_buckets m = length (buckets m)" "finite (hm_set m)"
  using assms
  by (simp_all add: hm_inv_def buckets_inv_def exp_ok_def EXP_MAX_def EXP_MIN_def hm_set_def
      finite_occupants)

lemma hashmap_insert_ok:
  assumes "hashmap_insert H m hashcode e = Some m'" "hm_inv H m" "e \<notin> hm_set m" "hashcode = H e"
  shows "hm_inv H m' \<and> hm_set m' = insert e (hm_set m)"
  using assms
proof (induction H m hashcode e rule: hashmap_insert.induct)
  case (1 H m hashcode e)
  note step = hashmap_insert.simps [of H m hashcode e, unfolded Let_def]
  note inv = hm_invD [OF "1.prems"(2)]
  let ?exp = "hm_exp m"
  let ?h = "HASH_TO_IDX hashcode ?exp"
  obtain r bs where mr: "make_room (buckets m) ?h ?exp = (r, bs)" by fastforce
  have room: "room_ok H ?exp (length (buckets m)) ?h (hm_set m) (r, bs)"
    using make_room_ok [OF inv(1), of ?h] unfolding mr hm_set_def .
  show ?case
  proof (cases r)
    case (Some d)
    have ok: "length bs = length (buckets m)" "d < ?exp" "buckets_inv H ?exp bs {?h + d}"
      "occupants bs {?h + d} = hm_set m"
      using room Some by (simp_all add: room_ok_def)
    have h: "?h = home H ?exp e" using "1.prems"(4) by (simp add: home_def)
    have new: "e \<notin> occupants bs {?h + d}" using "1.prems"(3) ok(4) by simp
    note put = put_entry_ok [OF ok(3,2) h new refl]
    have m': "m' = m\<lparr>buckets := put_entry bs ?h d ?exp (H e) e, num_used := num_used m + 1\<rparr>"
      using "1.prems"(1) unfolding step mr Some by (simp add: "1.prems"(4))
    have "hm_set m' = insert e (hm_set m)" using put ok by (simp add: m' hm_set_def)
    then show ?thesis
      using put ok inv "1.prems"(2,3) by (simp add: m' hm_inv_def flip: hm_set_def)
  next
    case None
    let ?m = "m\<lparr>buckets := bs\<rparr>"
    have ok: "length bs = length (buckets m)" "buckets_inv H ?exp bs {}" "occupants bs {} = hm_set m"
      using room None by (simp_all add: room_ok_def)
    have grown: "hm_inv H m1 \<and> hm_set m1 = hm_set m"
      if "rehash H ?m n = (0, m1)" "8 \<le> n" for n m1
    proof -
      have "1 \<le> n" "buckets_inv H (hm_exp ?m) (buckets ?m) {}" using that(2) ok by simp_all
      from rehash_ok' [OF this(2,1) that(1)] show ?thesis
        using ok inv that(2) by (simp add: hm_inv_def EXP_MIN_def) (simp add: hm_set_def)
    qed
    obtain s1 m1 where r1: "rehash H ?m (?exp + 1) = (s1, m1)" by fastforce
    show ?thesis
    proof (cases "s1 = 0")
      case True
      have "hashmap_insert H m1 hashcode e = Some m'"
        using "1.prems"(1) r1 True unfolding step mr None by simp
      moreover have "hm_inv H m1" "hm_set m1 = hm_set m"
        using grown [of "?exp + 1" m1] r1 True inv(3) by simp_all
      ultimately show ?thesis
        using "1.IH"(1) [OF refl refl mr [symmetric] None r1 [symmetric] True] "1.prems"(3,4)
        by simp
    next
      case False
      have m1: "m1 = ?m" using rehash_ok' [of H ?m "?exp + 1" s1 m1] ok r1 False by simp
      obtain s2 m2 where r2: "rehash H m1 (?exp + 2) = (s2, m2)" by fastforce
      have "s2 = 0" and ins: "hashmap_insert H m2 hashcode e = Some m'"
        using "1.prems"(1) r1 r2 False unfolding step mr None by (simp_all split: if_splits)
      moreover have "hm_inv H m2" "hm_set m2 = hm_set m"
        using grown [of "?exp + 2" m2] r2 m1 \<open>s2 = 0\<close> inv(3) by simp_all
      ultimately show ?thesis
        using "1.IH"(2) [OF refl refl mr [symmetric] None r1 [symmetric] False r2 [symmetric]]
          "1.prems"(3,4) by simp
    qed
  qed
qed

text \<open>Insertion succeeds at once while the neighbourhood of the home bucket has an empty slot.\<close>

lemma hashmap_insert_near:
  assumes "hm_inv H m" "HASH_TO_IDX hashcode (hm_exp m) \<le> i"
    "i < HASH_TO_IDX hashcode (hm_exp m) + hm_exp m" "entry (buckets m ! i) = None"
  shows "\<exists>m'. hashmap_insert H m hashcode e = Some m' \<and> hm_exp m' = hm_exp m"
proof -
  have "exp_ok (hm_exp m) (buckets m)" "hm_exp m \<le> EXP_MAX"
    using assms(1) by (simp_all add: hm_inv_def buckets_inv_def exp_ok_def)
  then have "i < length (buckets m)"
    using HASH_TO_IDX_less [of "hm_exp m" hashcode] assms(3) by (simp add: exp_ok_def BUCKET_CNT_def)
  from make_room_near [OF assms(2,3) this assms(4)] show ?thesis
    by (auto simp: hashmap_insert.simps [of H m hashcode e] Let_def)
qed

text \<open>So it succeeds while the table has fewer entries than a neighbourhood has slots.\<close>

lemma hashmap_insert_room:
  assumes inv: "hm_inv H m" and few: "card (hm_set m) < hm_exp m"
  shows "\<exists>m'. hashmap_insert H m hc e = Some m'"
proof -
  let ?bs = "buckets m" and ?h = "HASH_TO_IDX hc (hm_exp m)"
  let ?I = "{?h..<?h + hm_exp m}" and ?f = "\<lambda>i. the (entry (buckets m ! i))"
  have ok: "exp_ok (hm_exp m) ?bs" "hm_exp m \<le> EXP_MAX" "occ_inj ?bs {}"
    using inv by (simp_all add: hm_inv_def buckets_inv_def exp_ok_def)
  have len: "i < length ?bs" if "i \<in> ?I" for i
    using that ok(1) HASH_TO_IDX_less [OF ok(2), of hc] by (auto simp: exp_ok_def BUCKET_CNT_def)
  have "\<exists>i \<in> ?I. entry (?bs ! i) = None"
  proof (rule ccontr)
    assume "\<not> (\<exists>i \<in> ?I. entry (?bs ! i) = None)"
    then have full: "occ ?bs {} i = Some (?f i)" if "i \<in> ?I" for i using that len by simp
    then have "inj_on ?f ?I" using ok(3) unfolding occ_inj_def inj_on_def by metis
    moreover have "?f ` ?I \<subseteq> hm_set m" using full unfolding hm_set_def occupants_def by blast
    ultimately have "card ?I \<le> card (hm_set m)"
      using finite_occupants [of ?bs] unfolding hm_set_def by (metis card_inj_on_le)
    then show False using few by simp
  qed
  then show ?thesis using hashmap_insert_near [OF inv, of hc _ e] by fastforce
qed

lemma hashmap_insert_create: "\<exists>m. hashmap_insert H hashmap_create hc e = Some m"
  by (rule hashmap_insert_room [OF hashmap_create_ok(1)], unfold hashmap_create_ok(2))
    (simp add: hashmap_create_def EXP_MIN_def)

lemma buckets_inv_delete:
  assumes inv: "buckets_inv H exp bs {}" and d: "d < exp" "h + d < length bs"
    "bit (bits (bs ! h)) d" "entry (bs ! (h + d)) = Some e"
  defines "bs1 \<equiv> bs[h := (bs ! h)\<lparr>bits := BIT_UNSET (bits (bs ! h)) d\<rparr>]"
  defines "bs' \<equiv> bs1[h + d := (bs1 ! (h + d))\<lparr>entry := None\<rparr>]"
  shows "buckets_inv H exp bs' {}" "occupants bs' {} = occupants bs {} - {e}"
    "length bs' = length bs" "entry (bs1 ! (h + d)) = Some e"
proof -
  let ?b = "h + d"
  have ok: "exp_ok exp bs" "hop_ok H exp bs {}" "slot_ok H exp bs {}" "occ_inj bs {}"
    using inv by (simp_all add: buckets_inv_def)
  have exp: "exp \<le> 57" using ok(1) by (simp add: exp_ok_def EXP_MAX_def)
  have h: "h < length bs" using d(2) by simp
  show len: "length bs' = length bs" by (simp add: bs'_def bs1_def)
  show "entry (bs1 ! (h + d)) = Some e" using d h by (cases "d = 0") (simp_all add: bs1_def)
  have home: "home H exp e = h"
    using hop_bit_occ [OF inv h d(1,3)] d(2,4) by (metis occ_empty_hole option.inject)
  have b: "occ bs {} ?b = Some e" using d by simp
  have occ': "occ bs' {} i = (if i = ?b then None else occ bs {} i)" for i
    using d h by (auto simp: bs'_def bs1_def nth_list_update)
  have bits': "bits (bs' ! i) = (if i = h then BIT_UNSET (bits (bs ! i)) d else bits (bs ! i))"
    if "i < length bs" for i
    using that d h by (auto simp: bs'_def bs1_def nth_list_update)
  have frag': "bits (bs' ! i) AND BUCKET_HASH_MASK exp = bits (bs ! i) AND BUCKET_HASH_MASK exp"
    if "i < length bs" for i
    unfolding bits' [OF that] using d(1) by (intro bit_word_eqI) (auto simp: bit_simps)
  have hop_old: "bit (bits (bs ! i)) k \<longleftrightarrow> (\<exists>e. occ bs {} (i + k) = Some e \<and> home H exp e = i)"
    if "i < length bs" "k < exp" for i k using ok(2) that unfolding hop_ok_def by blast
  have "hop_ok H exp bs' {}"
    unfolding hop_ok_def len
  proof (intro allI impI)
    fix i k assume ik: "i < length bs" "k < exp"
    show "bit (bits (bs' ! i)) k \<longleftrightarrow> (\<exists>e. occ bs' {} (i + k) = Some e \<and> home H exp e = i)"
    proof (cases "i + k = ?b")
      case True
      then show ?thesis
        unfolding bits' [OF ik(1)] occ' using hop_old [OF ik] b home by auto
    next
      case False
      then show ?thesis
        unfolding bits' [OF ik(1)] occ' using hop_old [OF ik] by auto
    qed
  qed
  moreover have "slot_ok H exp bs' {}"
    unfolding slot_ok_def
  proof (intro allI impI)
    fix i e' assume "occ bs' {} i = Some e'"
    then have o: "occ bs {} i = Some e'" unfolding occ' by (simp split: if_splits)
    then show "home H exp e' \<le> i \<and> i < home H exp e' + exp \<and> frag_ok exp (bits (bs' ! i)) (H e')"
      using ok(3) frag' [of i] occ_range [OF o] unfolding slot_ok_def frag_ok_def by auto
  qed
  moreover have "occ_inj bs' {}" using ok(4) unfolding occ_inj_def occ' by (simp split: if_splits)
  moreover have "exp_ok exp bs'" using ok(1) len by (simp add: exp_ok_def)
  ultimately show "buckets_inv H exp bs' {}" by (simp add: buckets_inv_def)
  have only: "occ bs {} i = Some e \<longleftrightarrow> i = ?b" for i using ok(4) b unfolding occ_inj_def by blast
  have "(\<exists>i. occ bs' {} i = Some x) \<longleftrightarrow> x \<noteq> e \<and> (\<exists>i. occ bs {} i = Some x)" for x
  proof
    assume "\<exists>i. occ bs' {} i = Some x"
    then obtain i where "i \<noteq> ?b" "occ bs {} i = Some x" unfolding occ' by (auto split: if_splits)
    then show "x \<noteq> e \<and> (\<exists>i. occ bs {} i = Some x)" using only by blast
  next
    assume "x \<noteq> e \<and> (\<exists>i. occ bs {} i = Some x)"
    then obtain i where "x \<noteq> e" "occ bs {} i = Some x" by blast
    then have "occ bs' {} i = Some x" unfolding occ' using b by force
    then show "\<exists>i. occ bs' {} i = Some x" by blast
  qed
  then show "occupants bs' {} = occupants bs {} - {e}" unfolding occupants_def by blast
qed

end
