(* ===== verification/Entry_Set.thy ===== *)
theory Entry_Set
  imports Prelude
begin

text \<open>
  The interface between the hash table and its clients: a set of entries that is searched by a
  key comparison and a hash code.  The clients' own argument, that a table whose entries have
  pairwise different keys is a finite map, is made once here.
\<close>

locale entry_set =
  fixes inv :: "('e \<Rightarrow> u64) \<Rightarrow> 't \<Rightarrow> bool"
    and elems :: "'t \<Rightarrow> 'e set"
    and at :: "'t \<Rightarrow> 'e \<Rightarrow> int \<Rightarrow> bool"
    and search :: "('e \<Rightarrow> int) \<Rightarrow> 't \<Rightarrow> u64 \<Rightarrow> ('e \<times> int) option option"
    and add :: "('e \<Rightarrow> u64) \<Rightarrow> 't \<Rightarrow> u64 \<Rightarrow> 'e \<Rightarrow> 't option"
    and del :: "('e \<Rightarrow> u64) \<Rightarrow> 't \<Rightarrow> 'e \<Rightarrow> int \<Rightarrow> 't option"
  assumes search_ok: "inv H t \<Longrightarrow> search cmp t hc \<noteq> None"
    and search_hit: "inv H t \<Longrightarrow> search cmp t hc = Some (Some (e, n)) \<Longrightarrow>
        e \<in> elems t \<and> H e = hc \<and> cmp e = 0 \<and> at t e n"
    and search_miss: "inv H t \<Longrightarrow> search cmp t hc = Some None \<Longrightarrow>
        e \<in> elems t \<Longrightarrow> H e = hc \<Longrightarrow> cmp e \<noteq> 0"
    and add_inv: "inv H t \<Longrightarrow> e \<notin> elems t \<Longrightarrow> add H t (H e) e = Some t' \<Longrightarrow>
        inv H t' \<and> elems t' = insert e (elems t)"
    and del_ok: "inv H t \<Longrightarrow> e \<in> elems t \<Longrightarrow> n < 0 \<or> at t e n \<Longrightarrow>
        \<exists>t'. del H t e n = Some t' \<and> inv H t' \<and> elems t' = elems t - {e}"
begin

text \<open>\<open>keyed K H t\<close>: \<open>K\<close> gives every entry a key, different for different entries of \<open>t\<close>.\<close>

lemma search_keyed:
  assumes "inv H t" "inj_on K (elems t)" "\<And>e. cmp e = 0 \<longleftrightarrow> K e = k"
    "\<And>e. e \<in> elems t \<Longrightarrow> K e = k \<Longrightarrow> H e = hc"
  shows "(\<exists>n. search cmp t hc = Some (Some (e, n))) \<longleftrightarrow> e \<in> elems t \<and> K e = k"
proof
  assume "\<exists>n. search cmp t hc = Some (Some (e, n))"
  then show "e \<in> elems t \<and> K e = k" using search_hit [OF assms(1)] assms(3) by blast
next
  assume e: "e \<in> elems t \<and> K e = k"
  show "\<exists>n. search cmp t hc = Some (Some (e, n))"
  proof (cases "search cmp t hc")
    case None
    then show ?thesis using search_ok [OF assms(1)] by blast
  next
    case (Some r)
    show ?thesis
    proof (cases r)
      case None
      then show ?thesis using search_miss [OF assms(1), of cmp hc e] e assms(3,4) Some by auto
    next
      case r: (Some p)
      obtain e' n where p: "p = (e', n)" by (cases p)
      have "e' \<in> elems t \<and> K e' = k"
        using search_hit [OF assms(1)] assms(3) Some r p by blast
      then have "e' = e" using assms(2) e by (auto dest: inj_onD)
      then show ?thesis using Some r p by blast
    qed
  qed
qed

lemma search_absent:
  assumes "inv H t" "\<And>e. cmp e = 0 \<longleftrightarrow> K e = k" "\<And>e. e \<in> elems t \<Longrightarrow> K e \<noteq> k"
  shows "search cmp t hc = Some None"
proof (cases "search cmp t hc")
  case None
  then show ?thesis using search_ok [OF assms(1)] by blast
next
  case (Some r)
  show ?thesis
  proof (cases r)
    case (Some p)
    obtain e n where "p = (e, n)" by (cases p)
    then have "e \<in> elems t \<and> cmp e = 0"
      using search_hit [OF assms(1)] \<open>search cmp t hc = Some r\<close> Some by blast
    then show ?thesis using assms(2,3) by blast
  qed (simp add: Some)
qed

lemma search_cases:
  assumes "inv H t" "\<And>e. cmp e = 0 \<longleftrightarrow> K e = k" "\<And>e. e \<in> elems t \<Longrightarrow> K e = k \<Longrightarrow> H e = hc"
  shows "case search cmp t hc of
      None \<Rightarrow> False
    | Some None \<Rightarrow> \<forall>e \<in> elems t. K e \<noteq> k
    | Some (Some (e, n)) \<Rightarrow> e \<in> elems t \<and> K e = k \<and> at t e n"
proof (cases "search cmp t hc")
  case None
  then show ?thesis using search_ok [OF assms(1)] by blast
next
  case r: (Some r)
  show ?thesis
  proof (cases r)
    case None
    have "K e \<noteq> k" if e: "e \<in> elems t" for e
    proof
      assume k: "K e = k"
      then show False
        using search_miss [OF assms(1) r [unfolded None] e assms(3) [OF e k]] assms(2) [of e] by blast
    qed
    then show ?thesis by (simp add: r None)
  next
    case (Some p)
    obtain e n where p: "p = (e, n)" by (cases p)
    from search_hit [OF assms(1) r [unfolded Some p]] assms(2) [of e]
    show ?thesis by (simp add: r Some p)
  qed
qed

text \<open>Insertion under a fresh key is the update of the finite map, deletion its removal.\<close>

lemma search_add:
  assumes "inv H t" "inj_on K (elems t)" "\<And>e. cmp e = 0 \<longleftrightarrow> K e = k"
    "\<And>e. e \<in> elems t \<Longrightarrow> K e = k \<Longrightarrow> H e = hc"
    "add H t (H x) x = Some t'" "\<And>e. e \<in> elems t \<Longrightarrow> K e \<noteq> K x" "K x = k \<Longrightarrow> H x = hc"
  shows "(\<exists>n. search cmp t' hc = Some (Some (e, n))) \<longleftrightarrow>
    (if K x = k then e = x else \<exists>n. search cmp t hc = Some (Some (e, n)))"
proof -
  have x: "x \<notin> elems t" using assms(6) by blast
  have t': "inv H t'" "elems t' = insert x (elems t)" using add_inv [OF assms(1) x assms(5)] by auto
  have "inj_on K (elems t')" using assms(2,6) x by (simp add: t' image_iff) metis
  then have "(\<exists>n. search cmp t' hc = Some (Some (e, n))) \<longleftrightarrow> e \<in> elems t' \<and> K e = k"
    using assms(3,4,7) t' by (intro search_keyed [of H]) auto
  also have "\<dots> \<longleftrightarrow> (if K x = k then e = x else e \<in> elems t \<and> K e = k)"
    using assms(6) by (auto simp: t')
  finally show ?thesis using search_keyed [OF assms(1-4)] by simp
qed

lemma search_del:
  assumes "inv H t" "inj_on K (elems t)" "\<And>e. cmp e = 0 \<longleftrightarrow> K e = k"
    "\<And>e. e \<in> elems t \<Longrightarrow> K e = k \<Longrightarrow> H e = hc"
    "x \<in> elems t" "n < 0 \<or> at t x n" "del H t x n = Some t'"
  shows "(\<exists>i. search cmp t' hc = Some (Some (e, i))) \<longleftrightarrow>
    K x \<noteq> k \<and> (\<exists>i. search cmp t hc = Some (Some (e, i)))"
proof -
  have t': "inv H t'" "elems t' = elems t - {x}" using del_ok [OF assms(1,5,6)] assms(7) by auto
  have "inj_on K (elems t')" using assms(2) by (simp add: t' inj_on_diff)
  then have "(\<exists>i. search cmp t' hc = Some (Some (e, i))) \<longleftrightarrow> e \<in> elems t' \<and> K e = k"
    using assms(3,4) t' by (intro search_keyed [of H]) auto
  also have "\<dots> \<longleftrightarrow> K x \<noteq> k \<and> e \<in> elems t \<and> K e = k"
    using assms(2,5) by (auto simp: t' dest: inj_onD)
  finally show ?thesis using search_keyed [OF assms(1-4)] by simp
qed

end

end
