(* ===== verification/Hashmap_Table.thy ===== *)
theory Hashmap_Table
  imports Hashmap_Correct Entry_Set
begin

text \<open>
  \<open>hashmap_update\<close> as deletion, what the table does with equal hash codes, the table as an
  instance of the entry-set interface, and the properties of \<open>hashmap.c\<close>.
\<close>

section \<open>Deletion\<close>

lemma PACK_ID_parts:
  "d < 64 \<Longrightarrow> 0 \<le> PACK_ID h d \<and> nat (PACK_ID h d) div 2 ^ HOP_IDX_WIDTH = h \<and>
     nat (PACK_ID h d) mod 2 ^ HOP_IDX_WIDTH = d"
  unfolding PACK_ID_def HOP_IDX_WIDTH_def nat_int by simp

text \<open>What \<open>hashmap_update\<close> does once the position is known.\<close>

lemma hashmap_update_at:
  assumes "(if n < 0 then find_entry H m e
      else Some (nat n div 2 ^ HOP_IDX_WIDTH, nat n mod 2 ^ HOP_IDX_WIDTH)) = Some (h, d)"
  shows "hashmap_update H m e new n =
    (let bs1 = (buckets m)[h := (buckets m ! h)\<lparr>bits := BIT_UNSET (bits (buckets m ! h)) d\<rparr>];
         bs' = bs1[h + d := (bs1 ! (h + d))\<lparr>entry := new\<rparr>];
         m' = m\<lparr>buckets := bs', num_used := num_used m - 1\<rparr>
     in if entry (bs1 ! (h + d)) \<noteq> Some e then None
        else if new \<noteq> None then Some (m\<lparr>buckets := bs'\<rparr>)
        else if hm_exp m \<le> EXP_MIN then Some m'
        else if num_used m - 1 < num_buckets m div 8 then Some (snd (rehash H m' (hm_exp m - 1)))
        else Some m')"
  using assms by (simp add: hashmap_update_def Let_def)

lemma hashmap_update_delete:
  assumes inv: "hm_inv H m" and e: "e \<in> hm_set m" and n: "n < 0 \<or> id_of m e n"
  shows "\<exists>m'. hashmap_update H m e None n = Some m' \<and> hm_inv H m' \<and> hm_set m' = hm_set m - {e}"
proof -
  note I = hm_invD [OF inv]
  have "\<exists>h d. (if n < 0 then find_entry H m e
      else Some (nat n div 2 ^ HOP_IDX_WIDTH, nat n mod 2 ^ HOP_IDX_WIDTH)) = Some (h, d) \<and>
    d < hm_exp m \<and> h + d < length (buckets m) \<and> bit (bits (buckets m ! h)) d \<and>
    entry (buckets m ! (h + d)) = Some e"
  proof (cases "n < 0")
    case True
    then show ?thesis using find_entry_spec [OF inv e] by simp
  next
    case False
    then obtain h d where id: "n = PACK_ID h d" "d < hm_exp m" "h + d < length (buckets m)"
      "bit (bits (buckets m ! h)) d" "entry (buckets m ! (h + d)) = Some e"
      using n by (auto simp: id_of_def)
    moreover from this have "d < 64" using I(2) by simp
    ultimately show ?thesis using PACK_ID_parts [of d h] unfolding id(1) by auto
  qed
  then obtain h d where pos: "(if n < 0 then find_entry H m e
      else Some (nat n div 2 ^ HOP_IDX_WIDTH, nat n mod 2 ^ HOP_IDX_WIDTH)) = Some (h, d)"
    and d: "d < hm_exp m" "h + d < length (buckets m)" "bit (bits (buckets m ! h)) d"
      "entry (buckets m ! (h + d)) = Some e" by blast
  define bs1 where "bs1 = (buckets m)[h := (buckets m ! h)\<lparr>bits := BIT_UNSET (bits (buckets m ! h)) d\<rparr>]"
  define bs' where "bs' = bs1[h + d := (bs1 ! (h + d))\<lparr>entry := None\<rparr>]"
  define m' where "m' = m\<lparr>buckets := bs', num_used := num_used m - 1\<rparr>"
  note D = buckets_inv_delete [OF I(1) d, folded bs1_def, folded bs'_def]
  have m'_set: "hm_set m' = hm_set m - {e}" using D(2) by (simp add: m'_def hm_set_def)
  have m'_inv: "hm_inv H m'"
    using D I e m'_set
    by (simp add: hm_inv_def m'_def EXP_MIN_def flip: hm_set_def)
  have upd: "hashmap_update H m e None n =
      (if hm_exp m \<le> EXP_MIN then Some m'
       else if num_used m - 1 < num_buckets m div 8 then Some (snd (rehash H m' (hm_exp m - 1)))
       else Some m')"
    unfolding hashmap_update_at [OF pos] Let_def
    by (simp add: D(4) m'_def flip: bs1_def bs'_def)
  show ?thesis
  proof (cases "EXP_MIN < hm_exp m \<and> num_used m - 1 < num_buckets m div 8")
    case False
    then show ?thesis using upd m'_inv m'_set by auto
  next
    case True
    obtain s m2 where r: "rehash H m' (hm_exp m - 1) = (s, m2)" by fastforce
    have "1 \<le> hm_exp m - 1" using True unfolding EXP_MIN_def by linarith
    from rehash_ok' [OF hm_invD(1) [OF m'_inv] this r]
    have "hm_inv H m2 \<and> hm_set m2 = hm_set m'"
      using m'_inv True by (auto simp: hm_inv_def hm_set_def split: if_splits)
    then show ?thesis using upd True r m'_set by simp
  qed
qed

section \<open>The table as an entry set\<close>

interpretation hm: entry_set hm_inv hm_set id_of hashmap_search hashmap_insert
  "\<lambda>H m e n. hashmap_update H m e None n"
proof unfold_locales
  fix H :: "'e \<Rightarrow> u64" and m m' :: "'e hashmap" and cmp :: "'e \<Rightarrow> int" and hc e n
  assume inv: "hm_inv H m"
  show "hashmap_search cmp m hc \<noteq> None"
    using hashmap_search_spec [OF inv, where cmp = cmp and hashcode = hc] by (auto split: option.splits)
  show "e \<in> hm_set m \<and> H e = hc \<and> cmp e = 0 \<and> id_of m e n"
    if "hashmap_search cmp m hc = Some (Some (e, n))"
    using hashmap_search_spec [OF inv, where cmp = cmp and hashcode = hc] that by simp
  show "cmp e \<noteq> 0" if "hashmap_search cmp m hc = Some None" "e \<in> hm_set m" "H e = hc"
    using hashmap_search_spec [OF inv, where cmp = cmp and hashcode = hc] that by simp
  show "hm_inv H m' \<and> hm_set m' = insert e (hm_set m)"
    if "e \<notin> hm_set m" "hashmap_insert H m (H e) e = Some m'"
    using hashmap_insert_ok [OF that(2) inv that(1) refl] .
  show "\<exists>m'. hashmap_update H m e None n = Some m' \<and> hm_inv H m' \<and> hm_set m' = hm_set m - {e}"
    if "e \<in> hm_set m" "n < 0 \<or> id_of m e n"
    using hashmap_update_delete [OF inv that] .
qed

section \<open>Sequences of operations\<close>

datatype 'e hm_op = Insert 'e | Remove 'e

fun hm_run :: "('e \<Rightarrow> u64) \<Rightarrow> 'e hashmap \<Rightarrow> 'e hm_op list \<Rightarrow> 'e hashmap option" where
  "hm_run H m [] = Some m"
| "hm_run H m (Insert e # ops) =
     (case hashmap_insert H m (H e) e of None \<Rightarrow> None | Some m \<Rightarrow> hm_run H m ops)"
| "hm_run H m (Remove e # ops) =
     (case hashmap_update H m e None (-1) of None \<Rightarrow> None | Some m \<Rightarrow> hm_run H m ops)"

text \<open>The same operations on a set; \<open>None\<close> when a caller breaks the contract.\<close>

fun set_run :: "'e set \<Rightarrow> 'e hm_op list \<Rightarrow> 'e set option" where
  "set_run S [] = Some S"
| "set_run S (Insert e # ops) = (if e \<in> S then None else set_run (insert e S) ops)"
| "set_run S (Remove e # ops) = (if e \<in> S then set_run (S - {e}) ops else None)"

lemma hm_run_refines:
  "hm_run H m ops = Some m' \<Longrightarrow> set_run (hm_set m) ops = Some S \<Longrightarrow> hm_inv H m \<Longrightarrow>
   hm_inv H m' \<and> hm_set m' = S"
proof (induction H m ops rule: hm_run.induct)
  case (2 H m e ops)
  obtain m1 where m1: "hashmap_insert H m (H e) e = Some m1"
    using "2.prems"(1) by (auto split: option.splits)
  have "e \<notin> hm_set m" using "2.prems"(2) by (auto split: if_splits)
  with "2.IH" [OF m1] hm.add_inv [OF "2.prems"(3) this m1] show ?case using "2.prems" m1 by simp
next
  case (3 H m e ops)
  have "e \<in> hm_set m" using "3.prems"(2) by (auto split: if_splits)
  from hm.del_ok [OF "3.prems"(3) this, of "-1"] obtain m1 where
    "hashmap_update H m e None (-1) = Some m1" "hm_inv H m1" "hm_set m1 = hm_set m - {e}" by auto
  with "3.IH" show ?case using "3.prems" \<open>e \<in> hm_set m\<close> by simp
qed simp

lemma hashmap_foreach_set:
  "hm_inv H m \<Longrightarrow> set (hashmap_foreach m) = hm_set m \<and> distinct (hashmap_foreach m)"
  by (simp add: hashmap_foreach_def hm_set_def occupants_entries occ_inj_entries hm_inv_def
      buckets_inv_def)

text \<open>
  C6: from an empty table, any sequence of insertions of new and deletions of present entries
  leaves exactly the surviving entries: \<open>num_used\<close> counts them, \<open>hashmap_foreach\<close> visits each of
  them once, and \<open>hashmap_search\<close> with a key comparison finds an entry exactly when it is there.
\<close>

theorem hashmap_sequence_correct:
  assumes "hm_run H hashmap_create ops = Some m" "set_run {} ops = Some S" "inj_on K S"
    "\<And>e. cmp e = 0 \<longleftrightarrow> K e = k" "\<And>e. K e = k \<Longrightarrow> H e = hc"
  shows "num_used m = card S \<and> set (hashmap_foreach m) = S \<and> distinct (hashmap_foreach m) \<and>
    ((\<exists>n. hashmap_search cmp m hc = Some (Some (e, n))) \<longleftrightarrow> e \<in> S \<and> K e = k)"
proof -
  have m: "hm_inv H m" "hm_set m = S"
    using hm_run_refines [OF assms(1)] assms(2) by (simp_all add: hashmap_create_ok)
  then show ?thesis
    using hashmap_foreach_set [OF m(1)] hm_invD(4) [OF m(1)] assms
    by (simp add: hm.search_keyed [OF m(1), of K cmp k hc])
qed

theorem hashmap_sequence_correct_witness:
  "\<exists>m. hm_run (\<lambda>x. x * 3) hashmap_create [Insert (1 :: u64), Insert 2, Remove 1] = Some m \<and>
     num_used m = 1 \<and> (\<exists>n. hashmap_search (\<lambda>x. if x = 2 then 0 else 1) m 6 = Some (Some (2, n)))"
proof -
  have "hm_run (\<lambda>x. x * 3) hashmap_create [Insert (1 :: u64), Insert 2, Remove 1] \<noteq> None"
    by code_simp
  then obtain m where
    "hm_run (\<lambda>x. x * 3) hashmap_create [Insert (1 :: u64), Insert 2, Remove 1] = Some m" by blast
  moreover have "set_run {} [Insert (1 :: u64), Insert 2, Remove 1] = Some {2}" by auto
  ultimately show ?thesis
    using hashmap_sequence_correct [of "\<lambda>x. x * 3" "[Insert (1 :: u64), Insert 2, Remove 1]" m "{2}" id
        "\<lambda>x. if x = 2 then 0 else 1" 2 6 2] by simp
qed

section \<open>When an insertion returns, and what equal hash codes cost\<close>

text \<open>
  an insertion returns, without growing the table, as long as one of the \<open>exp\<close> buckets of the
  neighbourhood of the home bucket is empty; the new entry is then in the table.
\<close>

theorem hashmap_insert_returns:
  assumes "hm_inv H m" "e \<notin> hm_set m" "HASH_TO_IDX (H e) (hm_exp m) \<le> i"
    "i < HASH_TO_IDX (H e) (hm_exp m) + hm_exp m" "entry (buckets m ! i) = None"
  shows "\<exists>m'. hashmap_insert H m (H e) e = Some m' \<and> hm_exp m' = hm_exp m \<and> hm_inv H m' \<and>
    hm_set m' = insert e (hm_set m)"
  using hashmap_insert_near [OF assms(1,3-5)] hm.add_inv [OF assms(1,2)] by blast

theorem hashmap_insert_returns_witness:
  "\<exists>m'. hashmap_insert (\<lambda>x. x) hashmap_create 7 (7 :: u64) = Some m' \<and> hm_set m' = {7}"
proof -
  let ?i = "HASH_TO_IDX 7 (hm_exp (hashmap_create :: u64 hashmap))"
  have "?i < 2 ^ 8" using HASH_TO_IDX_less [of 8 7]
    by (simp add: hashmap_create_def EXP_MIN_def EXP_MAX_def)
  then have "entry (buckets (hashmap_create :: u64 hashmap) ! ?i) = None"
    by (simp add: hashmap_create_def BUCKET_CNT_def empty_bucket_def EXP_MIN_def)
  moreover have "0 < hm_exp (hashmap_create :: u64 hashmap)"
    by (simp add: hashmap_create_def EXP_MIN_def)
  moreover have "hm_set hashmap_create = ({} :: u64 set)" by (rule hashmap_create_ok)
  ultimately show ?thesis
    using hashmap_insert_returns [of "\<lambda>x. x" hashmap_create "7 :: u64" ?i]
      hashmap_create_ok(1) [of "\<lambda>x :: u64. x"] by auto
qed

lemma same_hash_le_exp:
  assumes "hm_inv H m"
  shows "card {e \<in> hm_set m. H e = h} \<le> hm_exp m"
proof -
  let ?S = "{e \<in> hm_set m. H e = h}" and ?i = "HASH_TO_IDX h (hm_exp m)"
  note I = hm_invD [OF assms]
  have "\<forall>e \<in> ?S. \<exists>i. occ (buckets m) {} i = Some e" by (simp add: hm_set_def occupants_def)
  then obtain f where f: "\<And>e. e \<in> ?S \<Longrightarrow> occ (buckets m) {} (f e) = Some e" by metis
  have "f ` ?S \<subseteq> {?i..<?i + hm_exp m}"
  proof clarify
    fix e assume "e \<in> hm_set m" "h = H e"
    then have "home H (hm_exp m) e \<le> f e \<and> f e < home H (hm_exp m) e + hm_exp m"
      using f [of e] I(1) unfolding buckets_inv_def slot_ok_def by blast
    then show "f e \<in> {HASH_TO_IDX (H e) (hm_exp m)..<HASH_TO_IDX (H e) (hm_exp m) + hm_exp m}"
      by (simp add: home_def)
  qed
  moreover have "inj_on f ?S" using f by (metis (no_types, lifting) inj_onI option.inject)
  ultimately show ?thesis
    using card_inj_on_le [of f ?S "{?i..<?i + hm_exp m}"] by simp
qed



section \<open>Replacing an entry\<close>

text \<open>
  \<open>hashmap_update\<close> with a new entry clears the hop bit of the slot before it stores the entry,
  so a replacement with the same hash code is in its bucket and still counted, but
  \<open>hashmap_search\<close> no longer finds it.
\<close>

theorem hashmap_replace_unreachable:
  assumes inv: "hm_inv H m" and e: "e \<in> hm_set m" "id_of m e n" and new: "new \<notin> hm_set m" "H new = H e"
  shows "\<exists>m'. hashmap_update H m e (Some new) n = Some m' \<and> num_used m' = num_used m \<and>
    new \<in> set (hashmap_foreach m') \<and>
    hashmap_search (\<lambda>x. if x = new then 0 else 1) m' (H new) = Some None"
proof -
  note I = hm_invD [OF inv]
  obtain h d where d: "n = PACK_ID h d" "d < hm_exp m" "h + d < length (buckets m)"
    "bit (bits (buckets m ! h)) d" "entry (buckets m ! (h + d)) = Some e"
    using e(2) by (auto simp: id_of_def)
  have d64: "d < 64" using d(2) I(2) by simp
  define bs1 where "bs1 = (buckets m)[h := (buckets m ! h)\<lparr>bits := BIT_UNSET (bits (buckets m ! h)) d\<rparr>]"
  define bs' where "bs' = bs1[h + d := (bs1 ! (h + d))\<lparr>entry := Some new\<rparr>]"
  note D = buckets_inv_delete(4) [OF I(1) d(2-5), folded bs1_def]
  have upd: "hashmap_update H m e (Some new) n = Some (m\<lparr>buckets := bs'\<rparr>)"
    using hashmap_update_at [of n H m e h d "Some new"] PACK_ID_parts [OF d64, of h] D
    unfolding d(1) bs'_def by (simp add: Let_def flip: bs1_def)
  have h: "h < length (buckets m)" using d(3) by simp
  have len: "length bs' = length (buckets m)" by (simp add: bs'_def bs1_def)
  have home: "HASH_TO_IDX (H new) (hm_exp m) = h"
    using hop_bit_occ [OF I(1) h d(2,4)] d(3,5) new(2) by (metis home_def occ_empty_hole option.inject)
  have hop: "bits (bs' ! h) = BIT_UNSET (bits (buckets m ! h)) d"
    using h d(3) by (cases "d = 0") (simp_all add: bs'_def bs1_def)
  have other: "entry (bs' ! (h + k)) = entry (buckets m ! (h + k))" if "k \<noteq> d" for k
    using that h by (cases "k = 0") (simp_all add: bs'_def bs1_def)
  have old: "\<exists>x \<in> hm_set m. entry (bs' ! (h + k)) = Some x"
    if k: "k < hm_exp m" "bit (bits (bs' ! h)) k" for k
  proof -
    have "k \<noteq> d" "bit (bits (buckets m ! h)) k" using k(2) by (simp_all add: hop)
    then obtain x where "occ (buckets m) {} (h + k) = Some x"
      using hop_bit_occ [OF I(1) h k(1)] by blast
    then show ?thesis using occ_range other [OF \<open>k \<noteq> d\<close>] by (fastforce simp: hm_set_def occupants_def)
  qed
  have le64: "hm_exp m \<le> 64" using I(2) by simp
  have busy: "\<forall>k<hm_exp m. bit (bits (bs' ! h)) k \<longrightarrow> entry (bs' ! (h + k)) \<noteq> None"
    using old by fastforce
  note S = search_loop_spec [OF le64 busy, where cmp = "\<lambda>x. if x = new then 0 else 1" and frag = "push_bit (hm_exp m) (H new)"]
  have "search_loop (\<lambda>x. if x = new then 0 else 1) bs' h (hm_exp m) (push_bit (hm_exp m) (H new))
      (bits (bs' ! h)) = Some None"
    using S old new(1) by (fastforce split: option.splits if_splits)
  then have "hashmap_search (\<lambda>x. if x = new then 0 else 1) (m\<lparr>buckets := bs'\<rparr>) (H new) = Some None"
    by (simp add: hashmap_search_def Let_def home)
  moreover have "entry (bs' ! (h + d)) = Some new" "bs' ! (h + d) \<in> set bs'"
    using d(3) by (simp_all add: len) (simp add: bs'_def bs1_def)
  then have "new \<in> set (hashmap_foreach (m\<lparr>buckets := bs'\<rparr>))"
    by (auto simp: hashmap_foreach_def set_entries)
  ultimately show ?thesis using upd by simp
qed

theorem hashmap_replace_unreachable_witness:
  "\<exists>m n m'. hm_run (\<lambda>x. 0) hashmap_create [Insert (1 :: u64)] = Some m \<and>
     hashmap_update (\<lambda>x. 0) m 1 (Some 2) n = Some m' \<and> 2 \<in> set (hashmap_foreach m') \<and>
     hashmap_search (\<lambda>x. if x = 2 then 0 else 1) m' 0 = Some None"
proof -
  have "hm_run (\<lambda>x. 0) hashmap_create [Insert (1 :: u64)] \<noteq> None" by code_simp
  then obtain m where run: "hm_run (\<lambda>x. 0) hashmap_create [Insert (1 :: u64)] = Some m" by blast
  from hm_run_refines [OF this, of "{1}"] have m: "hm_inv (\<lambda>x. 0) m" "hm_set m = {1}"
    by (simp_all add: hashmap_create_ok)
  then have "\<exists>n. hashmap_search (\<lambda>x. if x = 1 then 0 else 1) m 0 = Some (Some (1, n))"
    using hm.search_keyed [OF m(1), of id "\<lambda>x. if x = 1 then 0 else 1" 1 0 1] by simp
  then obtain n where "id_of m 1 n" using hm.search_hit [OF m(1)] by blast
  then show ?thesis
    using hashmap_replace_unreachable [OF m(1), of 1 n 2] m(2) run by auto
qed

end
