(* ===== verification/Backend_Types.thy ===== *)
theory Backend_Types
  imports Prelude
begin

text \<open>
  The vocabulary that front ends and backends share (\<open>backend.h\<close>, \<open>common.h\<close>): object types and
  flags, the structures for attributes, directory entries, consistency checks and permutations.
  Pointers and cookies are numbers, 0 is \<open>NULL\<close>.
\<close>

type_synonym ptr = nat

definition NULL :: ptr where "NULL = 0"

section \<open>Constants\<close>

definition BOOKMARKFS_BOOKMARK_TYPE_BITS :: nat where "BOOKMARKFS_BOOKMARK_TYPE_BITS = 3"

text \<open>\<open>BOOKMARKFS_BOOKMARK_TYPE(t)\<close> and \<open>BOOKMARKFS_BOOKMARK_IS_TYPE(flags, t)\<close> of \<open>backend.h\<close>.\<close>

definition BOOKMARKFS_BOOKMARK_TYPE_SHIFT :: nat where
  "BOOKMARKFS_BOOKMARK_TYPE_SHIFT = 32 - BOOKMARKFS_BOOKMARK_TYPE_BITS"
definition BOOKMARKFS_BOOKMARK_TYPE_MASK :: u32 where
  "BOOKMARKFS_BOOKMARK_TYPE_MASK =
     push_bit BOOKMARKFS_BOOKMARK_TYPE_SHIFT (push_bit BOOKMARKFS_BOOKMARK_TYPE_BITS 1 - 1)"
definition BOOKMARK_TYPE :: "u32 \<Rightarrow> u32" where
  "BOOKMARK_TYPE t = push_bit BOOKMARKFS_BOOKMARK_TYPE_SHIFT t"
definition TYPE_BOOKMARK :: u32 where "TYPE_BOOKMARK = BOOKMARK_TYPE 0"
definition TYPE_TAG :: u32 where "TYPE_TAG = BOOKMARK_TYPE 1"
definition TYPE_KEYWORD :: u32 where "TYPE_KEYWORD = BOOKMARK_TYPE 2"
definition BOOKMARK_IS_TYPE :: "u32 \<Rightarrow> u32 \<Rightarrow> bool" where
  "BOOKMARK_IS_TYPE flags t \<longleftrightarrow> flags AND BOOKMARKFS_BOOKMARK_TYPE_MASK = t"

definition CREATE_DIR :: u32 where "CREATE_DIR = 1"
definition DELETE_DIR :: u32 where "DELETE_DIR = 1"
definition LIST_WITHSTAT :: u32 where "LIST_WITHSTAT = 1"
definition BM_RENAME_NOREPLACE :: u32 where "BM_RENAME_NOREPLACE = 1"
definition SET_ATIME :: u32 where "SET_ATIME = 1"
definition SET_MTIME :: u32 where "SET_MTIME = 2"

text \<open>\<open>if (flags & mask)\<close>.\<close>

definition has_flag :: "u32 \<Rightarrow> u32 \<Rightarrow> bool" where
  "has_flag flags m \<longleftrightarrow> flags AND m \<noteq> 0"

text \<open>\<open>enum bookmarkfs_fsck_result\<close>.\<close>

definition FSCK_RESULT_END :: int where "FSCK_RESULT_END = 0"
definition NAME_DUPLICATE :: int where "NAME_DUPLICATE = 1"
definition NAME_BADCHAR :: int where "NAME_BADCHAR = 2"
definition NAME_BADLEN :: int where "NAME_BADLEN = 3"
definition NAME_DOTDOT :: int where "NAME_DOTDOT = 4"
definition NAME_INVALID :: int where "NAME_INVALID = 5"

lemmas fsck_result_defs = FSCK_RESULT_END_def NAME_DUPLICATE_def NAME_BADCHAR_def NAME_BADLEN_def NAME_DOTDOT_def
  NAME_INVALID_def

section \<open>Structures\<close>

record timespec =
  tv_sec :: int
  tv_nsec :: int

definition timespec_zero :: timespec where "timespec_zero = \<lparr>tv_sec = 0, tv_nsec = 0\<rparr>"

definition timespec_cmp :: "timespec \<Rightarrow> timespec \<Rightarrow> int" where
  "timespec_cmp t1 t2 =
     (if tv_sec t1 < tv_sec t2 then -1
      else if tv_sec t1 > tv_sec t2 then 1
      else if tv_nsec t1 < tv_nsec t2 then -1
      else if tv_nsec t1 > tv_nsec t2 then 1
      else 0)"

record bookmark_stat =
  bs_id :: u64
  value_len :: int
  bs_atime :: timespec
  bs_mtime :: timespec

record bookmark_entry =
  be_name :: bytes
  be_off :: nat
  be_stat :: bookmark_stat

record fsck_data =
  fd_id :: u64
  fd_extra :: u64
  fd_name :: bytes

datatype permd_op = PERMD_OP_SWAP | PERMD_OP_MOVE_BEFORE | PERMD_OP_MOVE_AFTER | PERMD_OP_OTHER

record permd_data =
  pd_op :: permd_op
  pd_name1 :: bytes
  pd_name2 :: bytes

datatype set_value = Content bytes | Times timespec timespec

text \<open>\<open>struct bookmarkfs_conf_opt\<close>: a list of keys with optional values.\<close>

type_synonym conf_opts = "(bytes \<times> bytes option) list"

text \<open>
  The callback of \<open>bookmark_check\<close> over the entry buffer and the result it fills in; a name of
  \<open>None\<close> is the pointer to the name in that buffer.
\<close>

type_synonym check_cb = "int \<Rightarrow> u64 \<Rightarrow> u64 \<Rightarrow> bytes option \<Rightarrow> fsck_data \<times> int \<Rightarrow> int \<times> (fsck_data \<times> int)"

text \<open>The greatest bookmark id, and the flags of \<open>sandbox_enter\<close>.\<close>

definition BOOKMARKFS_MAX_ID :: u64 where "BOOKMARKFS_MAX_ID = push_bit (64 - BOOKMARKFS_BOOKMARK_TYPE_BITS) 1 - 1"
definition SANDBOX_READONLY :: u32 where "SANDBOX_READONLY = 1"
definition SANDBOX_NO_LANDLOCK :: u32 where "SANDBOX_NO_LANDLOCK = 2"
definition SANDBOX_NOOP :: u32 where "SANDBOX_NOOP = 4"

text \<open>Flags of \<open>open\<close> (Linux values).\<close>

definition O_RDONLY :: u32 where "O_RDONLY = 0"
definition O_WRONLY :: u32 where "O_WRONLY = 1"
definition O_CREAT :: u32 where "O_CREAT = 0x40"
definition O_EXCL :: u32 where "O_EXCL = 0x80"
definition O_TRUNC :: u32 where "O_TRUNC = 0x200"

text \<open>Flags of \<open>backend_create\<close>, and of its response.\<close>

definition BACKEND_READONLY :: u32 where "BACKEND_READONLY = 1"
definition BACKEND_CTIME :: u32 where "BACKEND_CTIME = 2"
definition BACKEND_NO_SANDBOX :: u32 where "BACKEND_NO_SANDBOX = 4"
definition BACKEND_NO_LANDLOCK :: u32 where "BACKEND_NO_LANDLOCK = 8"
definition BACKEND_FSCK_ONLY :: u32 where "BACKEND_FSCK_ONLY = 16"
definition BACKEND_INFO_HELP :: u32 where "BACKEND_INFO_HELP = 1"
definition BACKEND_INFO_VERSION :: u32 where "BACKEND_INFO_VERSION = 2"
definition BACKEND_MKFS_FORCE :: u32 where "BACKEND_MKFS_FORCE = 1"
definition BACKEND_EXCLUSIVE :: u32 where "BACKEND_EXCLUSIVE = 1"
definition BACKEND_HAS_KEYWORD :: u32 where "BACKEND_HAS_KEYWORD = 2"
definition BACKEND_LIB_READY :: u32 where "BACKEND_LIB_READY = 1"
definition FRONTEND_FSCK :: u32 where "FRONTEND_FSCK = 0x10000"
definition FRONTEND_MOUNT :: u32 where "FRONTEND_MOUNT = 0x20000"
definition FRONTEND_MKFS :: u32 where "FRONTEND_MKFS = 0x40000"

text \<open>\<open>struct bookmarkfs_backend_conf\<close> and the parts of the response that the programs read.\<close>

record backend_conf =
  conf_flags :: u32
  store_path :: bytes
  conf_opts :: conf_opts

record create_resp =
  resp_bookmarks_root_id :: u64
  resp_tags_root_id :: u64
  resp_flags :: u32

definition resp_init :: create_resp where
  "resp_init = \<lparr>resp_bookmarks_root_id = -1, resp_tags_root_id = -1, resp_flags = 0\<rparr>"

end
