(* ===== verification/Fs_Types.thy ===== *)
theory Fs_Types
  imports Hashmap_Table Backend_Types "HOL-Library.Monad_Syntax"
begin

text \<open>
  Data of the file system front end \<open>fs_ops.c\<close> (Linux build): constants, inode numbers, the
  structures it shares with libfuse and with the backends, its global context \<open>ctx\<close>, and what is
  outside the repository (libfuse, clock, xxHash, uninitialised memory) as the record \<open>env\<close>.

  A computation that the code cannot continue (a failed assertion, a null or dangling pointer, an
  access outside a buffer) is \<open>None\<close>.
\<close>

section \<open>Constants\<close>

definition SUBSYS_ID_BITS :: nat where "SUBSYS_ID_BITS = 64 - BOOKMARKFS_BOOKMARK_TYPE_BITS"
definition SUBSYS_ID_MASK :: u64 where "SUBSYS_ID_MASK = push_bit SUBSYS_ID_BITS 1 - 1"

definition INODE_SUBSYS_TYPE :: "u64 \<Rightarrow> u64" where
  "INODE_SUBSYS_TYPE ino = drop_bit SUBSYS_ID_BITS ino"
definition INODE_SUBSYS_ID :: "u64 \<Rightarrow> u64" where
  "INODE_SUBSYS_ID ino = ino AND SUBSYS_ID_MASK"
definition SUBSYS_NODEID :: "u64 \<Rightarrow> u64 \<Rightarrow> u64" where
  "SUBSYS_NODEID i t = push_bit SUBSYS_ID_BITS t OR i"

definition SUBSYS_TYPE_INTERNAL :: u64 where "SUBSYS_TYPE_INTERNAL = 0"
definition SUBSYS_TYPE_BOOKMARK :: u64 where "SUBSYS_TYPE_BOOKMARK = 1"
definition SUBSYS_TYPE_TAG :: u64 where "SUBSYS_TYPE_TAG = 2"
definition SUBSYS_TYPE_KEYWORD :: u64 where "SUBSYS_TYPE_KEYWORD = 3"

definition INTFS_ID_ROOT :: u64 where "INTFS_ID_ROOT = 1"
definition INTFS_ID_BOOKMARKS :: u64 where "INTFS_ID_BOOKMARKS = 2"
definition INTFS_ID_TAGS :: u64 where "INTFS_ID_TAGS = 3"
definition INTFS_ID_KEYWORDS :: u64 where "INTFS_ID_KEYWORDS = 4"

lemmas subsys_defs = SUBSYS_TYPE_INTERNAL_def SUBSYS_TYPE_BOOKMARK_def SUBSYS_TYPE_TAG_def
  SUBSYS_TYPE_KEYWORD_def
lemmas intfs_defs = INTFS_ID_ROOT_def INTFS_ID_BOOKMARKS_def INTFS_ID_TAGS_def INTFS_ID_KEYWORDS_def

definition FH_FLAG_DIRTY :: u32 where "FH_FLAG_DIRTY = 1"
definition FH_FLAG_FSCK :: u32 where "FH_FLAG_FSCK = 2"
definition FH_FLAG_ISDIR :: u32 where "FH_FLAG_ISDIR = 4"
definition FH_FLAG_MTIME :: u32 where "FH_FLAG_MTIME = 8"

lemmas fh_flag_defs = FH_FLAG_DIRTY_def FH_FLAG_FSCK_def FH_FLAG_ISDIR_def FH_FLAG_MTIME_def

text \<open>Values of \<open>fcntl.h\<close>, \<open>sys/stat.h\<close>, \<open>sys/xattr.h\<close>, \<open>stdio.h\<close> and libfuse on Linux (x86-64).\<close>

definition O_ACCMODE :: u32 where "O_ACCMODE = 3"
definition O_APPEND :: u32 where "O_APPEND = 0x400"
definition O_DIRECT :: u32 where "O_DIRECT = 0x4000"
definition S_IFREG :: u32 where "S_IFREG = 0x8000"
definition S_IFDIR :: u32 where "S_IFDIR = 0x4000"
definition R_OK :: nat where "R_OK = 4"
definition W_OK :: nat where "W_OK = 2"
definition X_OK :: nat where "X_OK = 1"
definition XATTR_CREATE :: u32 where "XATTR_CREATE = 1"
definition RENAME_NOREPLACE :: u32 where "RENAME_NOREPLACE = 1"
definition FUSE_SET_ATTR_SIZE :: u32 where "FUSE_SET_ATTR_SIZE = 8"
definition FUSE_SET_ATTR_ATIME :: u32 where "FUSE_SET_ATTR_ATIME = 0x10"
definition FUSE_SET_ATTR_MTIME :: u32 where "FUSE_SET_ATTR_MTIME = 0x20"
definition FUSE_SET_ATTR_ATIME_NOW :: u32 where "FUSE_SET_ATTR_ATIME_NOW = 0x80"
definition FUSE_SET_ATTR_MTIME_NOW :: u32 where "FUSE_SET_ATTR_MTIME_NOW = 0x100"
definition FUSE_IOCTL_DIR :: u32 where "FUSE_IOCTL_DIR = 0x10"

text \<open>\<open>ioctl.h\<close>: \<open>_IOC(dir, 0xbf, nr, size)\<close>, the sizes being those of the two structures.\<close>

definition FSCK_DATA_SIZE :: nat where "FSCK_DATA_SIZE = 272"
definition PERMD_DATA_SIZE :: nat where "PERMD_DATA_SIZE = 516"

definition IOC :: "nat \<Rightarrow> nat \<Rightarrow> nat \<Rightarrow> u32" where
  "IOC dir nr sz = push_bit 30 (of_nat dir) OR push_bit 16 (of_nat sz) OR push_bit 8 0xbf OR of_nat nr"

definition IOC_FSCK_REWIND :: u32 where "IOC_FSCK_REWIND = IOC 0 0 0"
definition IOC_FSCK_NEXT :: u32 where "IOC_FSCK_NEXT = IOC 2 1 FSCK_DATA_SIZE"
definition IOC_FSCK_APPLY :: u32 where "IOC_FSCK_APPLY = IOC 3 2 FSCK_DATA_SIZE"
definition IOC_PERMD :: u32 where "IOC_PERMD = IOC 1 3 PERMD_DATA_SIZE"

section \<open>Structures\<close>

record stat =
  st_ino :: u64
  st_mode :: u32
  st_nlink :: nat
  st_uid :: u32
  st_gid :: u32
  st_size :: int
  st_atim :: timespec
  st_mtim :: timespec
  st_ctim :: timespec

text \<open>Timeouts are kept in tenths of a second.\<close>

record fuse_entry_param =
  ep_ino :: u64
  ep_generation :: nat
  ep_attr :: stat
  ep_attr_timeout :: nat
  ep_entry_timeout :: nat

record fuse_file_info =
  fi_flags :: u32
  fi_fh :: ptr
  direct_io :: bool
  keep_cache :: bool
  cache_readdir :: bool
  noflush :: bool

record fuse_req =
  req_id :: nat
  req_uid :: u32
  req_gid :: u32

datatype reply =
    Reply_err int
  | Reply_xattr nat
  | Reply_buf bytes
  | Reply_ioctl int bytes
  | Reply_write nat
  | Reply_create fuse_entry_param fuse_file_info
  | Reply_entry fuse_entry_param
  | Reply_attr stat nat
  | Reply_open fuse_file_info

section \<open>File handles and the global context\<close>

record fs_file_handle =
  fh_ino :: u64
  fh_hashcode :: u64
  refcount :: u32
  fh_flags :: u32
  fh_buf :: "bytes option"
  fh_buf_len :: nat
  fh_data_len :: nat
  fh_cookie :: ptr
  fh_mtime :: timespec

record fs_flags =
  accmode :: u32
  ctime :: bool
  eol :: bool
  exclusive :: bool
  has_keyword :: bool
  readonly :: bool

text \<open>
  The context \<open>ctx\<close> and the state around it: \<open>fh_heap\<close> is the memory of the file handles and
  \<open>next_ptr\<close> the address the next \<open>malloc\<close> of one returns, \<open>live_bufs\<close> counts the file buffers
  allocated and not freed, \<open>replies\<close> logs what was sent to the kernel, \<open>invals\<close> the inodes it was
  told to drop, \<open>ticks\<close> counts the readings of the clock.  \<open>ctx.buf_len\<close> is the length of \<open>ctx_buf\<close>.
\<close>

record fs_ctx =
  fh_map :: "ptr hashmap"
  fh_heap :: "ptr \<Rightarrow> fs_file_handle option"
  next_ptr :: ptr
  live_bufs :: int
  ctx_uid :: u32
  ctx_gid :: u32
  ctx_flags :: fs_flags
  bookmarks_root_id :: u64
  tags_root_id :: u64
  file_max :: nat
  xattr_names :: bytes
  ctx_buf :: bytes
  replies :: "(fuse_req \<times> reply) list"
  invals :: "u64 list"
  ticks :: nat

text \<open>
  What the file system relies on outside the repository: \<open>clock n\<close> is the \<open>n\<close>-th reading of the
  real-time clock, \<open>inval_status n\<close> the status of the \<open>n\<close>-th invalidation, \<open>hash64\<close> the seeded
  hash of an inode number, \<open>dirent\<close> and \<open>dirent_plus\<close> the records \<open>fuse_add_direntry\<close> and
  \<open>fuse_add_direntry_plus\<close> lay out in a buffer that has room for them, \<open>junk n\<close> the \<open>n\<close>-th byte of
  freshly allocated memory.
\<close>

record env =
  clock :: "nat \<Rightarrow> timespec"
  inval_status :: "nat \<Rightarrow> int"
  hash64 :: "u64 \<Rightarrow> u64"
  dirent :: "bytes \<Rightarrow> stat \<Rightarrow> nat \<Rightarrow> bytes"
  dirent_plus :: "bytes \<Rightarrow> fuse_entry_param \<Rightarrow> nat \<Rightarrow> bytes"
  junk :: "nat \<Rightarrow> u8"
  page_size :: nat
  euid :: u32
  egid :: u32

definition junk_bytes :: "env \<Rightarrow> nat \<Rightarrow> bytes" where
  "junk_bytes env n = map (junk env) [0..<n]"

text \<open>\<open>xmalloc\<close> and \<open>xrealloc\<close> of a buffer: the old contents survive up to the new length.\<close>

definition realloc_bytes :: "env \<Rightarrow> bytes \<Rightarrow> nat \<Rightarrow> bytes" where
  "realloc_bytes env old n = take n old @ junk_bytes env (n - length old)"

lemma length_junk_bytes [simp]: "length (junk_bytes env n) = n"
  by (simp add: junk_bytes_def)

lemma length_realloc_bytes [simp]: "length (realloc_bytes env old n) = n"
  by (simp add: realloc_bytes_def)

lemma take_realloc_bytes: "m \<le> length old \<Longrightarrow> m \<le> n \<Longrightarrow> take m (realloc_bytes env old n) = take m old"
  by (simp add: realloc_bytes_def)

section \<open>The backend's function table\<close>

text \<open>
  \<open>struct bookmarkfs_backend\<close> over a backend state \<open>'b\<close>.  A function that takes a callback also
  takes and returns the state the callback works on; \<open>None\<close> there means that the callback could
  not go on.  An in-out pointer argument is an argument and a component of the result.
  \<open>bookmark_check\<close> may be absent.
\<close>

type_synonym get_cb = "bytes \<Rightarrow> fs_ctx option \<Rightarrow> int \<times> fs_ctx option"
type_synonym list_cb = "bookmark_entry \<Rightarrow> (nat \<times> fs_ctx) option \<Rightarrow> int \<times> (nat \<times> fs_ctx) option"

record 'b backend =
  bookmark_check :: "('b \<Rightarrow> u64 \<Rightarrow> fsck_data option \<Rightarrow> u32 \<Rightarrow> check_cb option \<Rightarrow> fsck_data \<times> int \<Rightarrow> ptr \<Rightarrow>
    int \<times> (fsck_data \<times> int) \<times> 'b) option"
  bookmark_get :: "'b \<Rightarrow> u64 \<Rightarrow> bytes option \<Rightarrow> get_cb \<Rightarrow> fs_ctx option \<Rightarrow> ptr option \<Rightarrow>
    int \<times> ptr \<times> fs_ctx option \<times> 'b"
  bookmark_list :: "'b \<Rightarrow> u64 \<Rightarrow> nat \<Rightarrow> u32 \<Rightarrow> list_cb option \<Rightarrow> (nat \<times> fs_ctx) option \<Rightarrow> ptr \<Rightarrow>
    int \<times> ptr \<times> (nat \<times> fs_ctx) option \<times> 'b"
  bookmark_lookup :: "'b \<Rightarrow> u64 \<Rightarrow> bytes option \<Rightarrow> u32 \<Rightarrow> int \<times> bookmark_stat \<times> 'b"
  bookmark_create :: "'b \<Rightarrow> u64 \<Rightarrow> bytes \<Rightarrow> u32 \<Rightarrow> u64 option \<Rightarrow> int \<times> bookmark_stat \<times> 'b"
  bookmark_delete :: "'b \<Rightarrow> u64 \<Rightarrow> bytes \<Rightarrow> u32 \<Rightarrow> int \<times> 'b"
  bookmark_permute :: "'b \<Rightarrow> u64 \<Rightarrow> permd_op \<Rightarrow> bytes \<Rightarrow> bytes \<Rightarrow> u32 \<Rightarrow> int \<times> 'b"
  bookmark_rename :: "'b \<Rightarrow> u64 \<Rightarrow> bytes \<Rightarrow> u64 \<Rightarrow> bytes \<Rightarrow> u32 \<Rightarrow> int \<times> 'b"
  bookmark_set :: "'b \<Rightarrow> u64 \<Rightarrow> bytes option \<Rightarrow> u32 \<Rightarrow> set_value \<Rightarrow> int \<times> 'b"
  bookmark_sync :: "'b \<Rightarrow> int \<times> 'b"
  cookie_free :: "'b \<Rightarrow> ptr \<Rightarrow> bool \<Rightarrow> 'b"

text \<open>The last argument of \<open>cookie_free\<close>: \<open>True\<close> for a list cookie, \<open>False\<close> for a watch cookie.\<close>

end
