(* ===== verification/Fs_Core.thy ===== *)
theory Fs_Core
  imports Fs_Types
begin

text \<open>
  The helpers of \<open>fs_ops.c\<close> that several operations share: replies, invalidation, the clock, the
  table of file handles, attributes, extended attribute names, access checks.
\<close>

section \<open>Replies, clock, invalidation\<close>

definition send_reply :: "fuse_req \<Rightarrow> reply \<Rightarrow> fs_ctx \<Rightarrow> fs_ctx" where
  "send_reply req r s = s\<lparr>replies := replies s @ [(req, r)]\<rparr>"

definition xgetrealtime :: "env \<Rightarrow> fs_ctx \<Rightarrow> timespec \<times> fs_ctx" where
  "xgetrealtime env s = (clock env (ticks s), s\<lparr>ticks := ticks s + 1\<rparr>)"

definition inval_inode :: "env \<Rightarrow> u64 \<Rightarrow> fs_ctx \<Rightarrow> int \<times> fs_ctx" where
  "inval_inode env ino s = (inval_status env (length (invals s)), s\<lparr>invals := invals s @ [ino]\<rparr>)"

definition FS_ENTRY_TIMEOUT_MAX :: nat where "FS_ENTRY_TIMEOUT_MAX = 36000"

definition FS_ENTRY_TIMEOUT :: "fs_ctx \<Rightarrow> nat" where
  "FS_ENTRY_TIMEOUT s = (if exclusive (ctx_flags s) then FS_ENTRY_TIMEOUT_MAX else 25)"

definition FS_FILEMODE_REG :: "fs_ctx \<Rightarrow> u32" where
  "FS_FILEMODE_REG s = S_IFREG OR (accmode (ctx_flags s) AND NOT 0x49)"
definition FS_FILEMODE_DIR :: "fs_ctx \<Rightarrow> u32" where
  "FS_FILEMODE_DIR s = S_IFDIR OR accmode (ctx_flags s)"
definition FS_FILEMODE_ROOT :: "fs_ctx \<Rightarrow> u32" where
  "FS_FILEMODE_ROOT s = FS_FILEMODE_DIR s AND NOT 0x92"

definition STAT_INIT :: "fs_ctx \<Rightarrow> stat" where
  "STAT_INIT s = \<lparr>st_ino = 0, st_mode = 0, st_nlink = 1, st_uid = ctx_uid s, st_gid = ctx_gid s,
     st_size = 0, st_atim = timespec_zero, st_mtim = timespec_zero, st_ctim = timespec_zero\<rparr>"

definition ENTRY_PARAM_INIT :: "fs_ctx \<Rightarrow> fuse_entry_param" where
  "ENTRY_PARAM_INIT s = \<lparr>ep_ino = 0, ep_generation = 1, ep_attr = STAT_INIT s,
     ep_attr_timeout = FS_ENTRY_TIMEOUT s, ep_entry_timeout = FS_ENTRY_TIMEOUT s\<rparr>"

section \<open>The table of file handles\<close>

text \<open>\<open>*fh = h\<close>, and \<open>fh->field\<close>; a pointer to no live handle stops the computation.\<close>

definition fh_put :: "ptr \<Rightarrow> fs_file_handle \<Rightarrow> fs_ctx \<Rightarrow> fs_ctx" where
  "fh_put fh h s = s\<lparr>fh_heap := (fh_heap s)(fh \<mapsto> h)\<rparr>"

definition fh_entry_hash :: "fs_ctx \<Rightarrow> ptr \<Rightarrow> u64" where
  "fh_entry_hash s fh = fh_hashcode (the (fh_heap s fh))"

definition fh_entry_comp :: "fs_ctx \<Rightarrow> u64 \<Rightarrow> ptr \<Rightarrow> int" where
  "fh_entry_comp s key fh = (if key = fh_ino (the (fh_heap s fh)) then 0 else -1)"

definition bm_fh_get :: "env \<Rightarrow> u64 \<Rightarrow> fs_ctx \<Rightarrow> (ptr \<times> int) option option" where
  "bm_fh_get env ino s = hashmap_search (fh_entry_comp s ino) (fh_map s) (hash64 env ino)"

definition bm_fh_new :: "env \<Rightarrow> u64 \<Rightarrow> fs_ctx \<Rightarrow> (ptr \<times> fs_ctx) option" where
  "bm_fh_new env ino s = do {
     r \<leftarrow> bm_fh_get env ino s;
     (case r of
        Some (fh, _) \<Rightarrow> do {
          h \<leftarrow> fh_heap s fh;
          Some (fh, fh_put fh (h\<lparr>refcount := refcount h + 1\<rparr>) s)
        }
      | None \<Rightarrow>
          (let hashcode = hash64 env ino;
               fh = next_ptr s;
               s = (fh_put fh \<lparr>fh_ino = ino, fh_hashcode = hashcode, refcount = 1, fh_flags = 0,
                      fh_buf = None, fh_buf_len = 0, fh_data_len = 0, fh_cookie = NULL,
                      fh_mtime = timespec_zero\<rparr> s)\<lparr>next_ptr := next_ptr s + 1\<rparr>
           in do {
             m \<leftarrow> hashmap_insert (fh_entry_hash s) (fh_map s) hashcode fh;
             Some (fh, s\<lparr>fh_map := m\<rparr>)
           }))
   }"

definition bm_fh_free :: "ptr \<Rightarrow> int \<Rightarrow> fs_ctx \<Rightarrow> fs_ctx option" where
  "bm_fh_free fh entry_id s = do {
     m \<leftarrow> hashmap_update (fh_entry_hash s) (fh_map s) fh None entry_id;
     Some (s\<lparr>fh_map := m, fh_heap := (fh_heap s)(fh := None)\<rparr>)
   }"

text \<open>\<open>inval_dir\<close>: \<open>fh\<close> is only looked at when the mount is writable and exclusive.\<close>

definition inval_dir :: "env \<Rightarrow> u64 \<Rightarrow> ptr option \<Rightarrow> fs_ctx \<Rightarrow> (int \<times> fs_ctx) option" where
  "inval_dir env ino fhp s =
     (if readonly (ctx_flags s) \<or> \<not> exclusive (ctx_flags s) then Some (0, s)
      else do {
        fh \<leftarrow> fhp;
        h \<leftarrow> fh_heap s fh;
        (if \<not> has_flag (fh_flags h) FH_FLAG_ISDIR then None
         else if has_flag (fh_flags h) FH_FLAG_DIRTY then
           (case inval_inode env ino s of (status, s) \<Rightarrow>
              if status \<noteq> 0 then Some (- EIO, s)
              else Some (0, fh_put fh (h\<lparr>fh_flags := fh_flags h AND NOT FH_FLAG_DIRTY\<rparr>) s))
         else Some (0, s))
      })"

section \<open>Attributes\<close>

definition bm_fillstat ::
  "env \<Rightarrow> bookmark_stat \<Rightarrow> u64 \<Rightarrow> bool \<Rightarrow> stat \<Rightarrow> fs_ctx \<Rightarrow> stat option" where
  "bm_fillstat env src subsys_type with_local dest s =
     (let ino = SUBSYS_NODEID (bs_id src) subsys_type;
          dest = dest\<lparr>st_ino := ino, st_atim := bs_atime src, st_mtim := bs_mtime src,
                   st_ctim := bs_mtime src\<rparr>
      in if value_len src < 0 then Some (dest\<lparr>st_mode := FS_FILEMODE_DIR s\<rparr>)
         else (let dest = dest\<lparr>st_mode := FS_FILEMODE_REG s,
                            st_size := value_len src + of_bool (eol (ctx_flags s))\<rparr>
               in if \<not> with_local then Some dest
                  else do {
                    r \<leftarrow> bm_fh_get env ino s;
                    (case r of
                       None \<Rightarrow> Some dest
                     | Some (fh, _) \<Rightarrow> do {
                         h \<leftarrow> fh_heap s fh;
                         (if \<not> has_flag (fh_flags h) FH_FLAG_MTIME then Some dest
                          else (let dest = (if \<not> ctime (ctx_flags s) \<or> 0 < timespec_cmp (fh_mtime h) (st_mtim dest)
                                            then dest\<lparr>st_mtim := fh_mtime h, st_ctim := fh_mtime h\<rparr>
                                            else dest)
                                in Some (dest\<lparr>st_size := int (fh_data_len h)\<rparr>)))
                       })
                  }))"

section \<open>Extended attributes\<close>

text \<open>\<open>BM_XATTR_FOREACH\<close> walks strings that each end in NUL, up to an empty one.\<close>

function xattr_foreach :: "bytes \<Rightarrow> bytes list" where
  "xattr_foreach names =
     (let name = takeWhile (\<lambda>c. c \<noteq> 0) names
      in if name = [] then [] else name # xattr_foreach (drop (length name + 1) names))"
  by pat_completeness auto
termination
proof (relation "measure length")
  fix names name :: bytes
  assume "name = takeWhile (\<lambda>c. c \<noteq> 0) names" "name \<noteq> []"
  then have "names \<noteq> []" by auto
  then show "(drop (length name + 1) names, names) \<in> measure length" by simp
qed simp

declare xattr_foreach.simps [simp del]

definition BOOKMARKFS_XATTR_PREFIX :: bytes where
  "BOOKMARKFS_XATTR_PREFIX = str ''user.bookmarkfs.''"

definition is_xattr_name :: "bytes \<Rightarrow> fs_ctx \<Rightarrow> bool" where
  "is_xattr_name name s =
     (let prefix_len = length BOOKMARKFS_XATTR_PREFIX
      in if length name \<le> prefix_len then False
         else if take prefix_len name \<noteq> BOOKMARKFS_XATTR_PREFIX then False
         else list_ex (\<lambda>xattr. drop prefix_len name = xattr) (xattr_foreach (xattr_names s)))"

text \<open>The loop of \<open>bm_lsxattr\<close> over the names; a size query (\<open>buf_max = 0\<close>) writes nothing.\<close>

fun lsxattr_loop :: "bytes list \<Rightarrow> nat \<Rightarrow> nat \<Rightarrow> bytes \<Rightarrow> int \<times> nat \<times> bytes" where
  "lsxattr_loop [] buf_max buf_len buf = (0, buf_len, buf)"
| "lsxattr_loop (xattr # rest) buf_max buf_len buf =
     (let xattr_len = length xattr + (length BOOKMARKFS_XATTR_PREFIX + 1);
          buf_len = buf_len + xattr_len
      in if buf_max = 0 then lsxattr_loop rest buf_max buf_len buf
         else if buf_max < buf_len then (- ERANGE, buf_len, buf)
         else (let dest = buf_len - xattr_len;
                   buf = blit buf dest BOOKMARKFS_XATTR_PREFIX;
                   buf = blit buf (dest + length BOOKMARKFS_XATTR_PREFIX) (xattr @ [0])
               in lsxattr_loop rest buf_max buf_len buf))"

definition bm_lsxattr :: "nat \<Rightarrow> fs_ctx \<Rightarrow> int \<times> nat \<times> fs_ctx" where
  "bm_lsxattr buf_max s =
     (case lsxattr_loop (xattr_foreach (xattr_names s)) buf_max 0 (ctx_buf s) of
        (status, buf_len, buf) \<Rightarrow> (status, (if status < 0 then 0 else buf_len), s\<lparr>ctx_buf := buf\<rparr>))"

section \<open>Access checks\<close>

definition has_access :: "fuse_req \<Rightarrow> nat \<Rightarrow> fs_ctx \<Rightarrow> bool" where
  "has_access req to_check s =
     (let req_mode = (0 :: u32);
          req_mode = (if to_check AND R_OK \<noteq> 0 then req_mode OR 0x124 else req_mode);
          req_mode = (if to_check AND W_OK \<noteq> 0 then req_mode OR 0x92 else req_mode);
          req_mode = (if to_check AND X_OK \<noteq> 0 then req_mode OR 0x49 else req_mode);
          req_mode = (if req_uid req \<noteq> ctx_uid s then req_mode AND NOT 0x1c0 else req_mode);
          req_mode = (if req_gid req \<noteq> ctx_gid s then req_mode AND NOT 0x38 else req_mode)
      in req_mode AND NOT (accmode (ctx_flags s)) \<noteq> 0)"

section \<open>Set-up\<close>

definition fs_init_metadata :: "u64 \<Rightarrow> u64 \<Rightarrow> bytes option \<Rightarrow> fs_ctx \<Rightarrow> fs_ctx" where
  "fs_init_metadata bookmarks_id tags_id names s =
     (let s = (if bookmarks_id \<noteq> -1 then s\<lparr>bookmarks_root_id := bookmarks_id\<rparr> else s);
          s = (if tags_id \<noteq> -1 then s\<lparr>tags_root_id := tags_id\<rparr> else s)
      in (case names of None \<Rightarrow> s | Some n \<Rightarrow> s\<lparr>xattr_names := n\<rparr>))"

definition fs_init_opts :: "fs_flags \<Rightarrow> nat \<Rightarrow> fs_ctx \<Rightarrow> fs_ctx" where
  "fs_init_opts flags size_max s = s\<lparr>ctx_flags := flags, file_max := size_max\<rparr>"

text \<open>\<open>fs_op_init\<close>; the assertion wants room for \<open>struct bm_check_ctx\<close> and \<open>struct bookmarkfs_permd_data\<close>.\<close>

definition fs_op_init :: "env \<Rightarrow> fs_ctx \<Rightarrow> fs_ctx option" where
  "fs_op_init env s =
     (let s = s\<lparr>fh_map := hashmap_create, ctx_uid := euid env, ctx_gid := egid env\<rparr>
      in if page_size env < PERMD_DATA_SIZE then None
         else Some (s\<lparr>ctx_buf := junk_bytes env (page_size env)\<rparr>))"

definition backend_has_tags :: "fs_ctx \<Rightarrow> bool" where
  "backend_has_tags s \<longleftrightarrow> tags_root_id s \<noteq> -1"

definition backend_has_keywords :: "fs_ctx \<Rightarrow> bool" where
  "backend_has_keywords s \<longleftrightarrow> has_keyword (ctx_flags s)"

end
