(* ===== verification/Fs_File.thy ===== *)
theory Fs_File
  imports Fs_Core
begin

text \<open>
  Operations of \<open>fs_ops.c\<close> on bookmark files: open, read, write, truncate, write-back, release,
  attributes and extended attributes, and the creation of files.  \<open>uint32_t\<close> lengths are numbers
  reduced modulo \<open>2 ^ 32\<close> where they are stored.
\<close>

definition to_u32 :: "nat \<Rightarrow> nat" where "to_u32 n = n mod 2 ^ 32"

definition FH_BUF_BLOCKSIZE :: nat where "FH_BUF_BLOCKSIZE = 512"
definition FH_BUF_RESERVED :: "nat \<Rightarrow> nat" where
  "FH_BUF_RESERVED s = FH_BUF_BLOCKSIZE - s mod FH_BUF_BLOCKSIZE"

section \<open>Write-back\<close>

text \<open>The byte \<open>fh->buf[i]\<close>; outside the buffer, or in a null buffer, there is none.\<close>

definition buf_at :: "bytes option \<Rightarrow> int \<Rightarrow> u8 option" where
  "buf_at buf i = do { b \<leftarrow> buf; (if 0 \<le> i \<and> i < int (length b) then Some (b ! nat i) else None) }"

text \<open>The \<open>len\<close> bytes a callee reads through \<open>fh->buf\<close>.\<close>

definition buf_take :: "bytes option \<Rightarrow> nat \<Rightarrow> bytes option" where
  "buf_take buf len =
     (case buf of
        None \<Rightarrow> (if len = 0 then Some [] else None)
      | Some b \<Rightarrow> (if len \<le> length b then Some (take len b) else None))"

definition bm_do_write ::
  "'b backend \<Rightarrow> u64 \<Rightarrow> ptr option \<Rightarrow> fs_ctx \<Rightarrow> 'b \<Rightarrow> (int \<times> fs_ctx \<times> 'b) option" where
  "bm_do_write B ino fhp s b =
     (case fhp of
        None \<Rightarrow> Some (0, s, b)
      | Some fh \<Rightarrow> do {
          h \<leftarrow> fh_heap s fh;
          (if \<not> has_flag (fh_flags h) FH_FLAG_DIRTY then Some (0, s, b)
           else if has_flag (fh_flags h) FH_FLAG_ISDIR then None
           else do {
             data_len \<leftarrow> (if eol (ctx_flags s) then do {
                 c \<leftarrow> buf_at (fh_buf h) (int (fh_data_len h) - 1);
                 Some (if c = 10 then fh_data_len h - 1 else fh_data_len h)
               } else Some (fh_data_len h));
             val \<leftarrow> buf_take (fh_buf h) data_len;
             (let id' = INODE_SUBSYS_ID ino;
                  (status, b) = bookmark_set B b id' None 0 (Content val)
              in if status < 0 then Some (status, s, b)
                 else (let (status, b) =
                         (if has_flag (fh_flags h) FH_FLAG_MTIME
                          then bookmark_set B b id' None SET_MTIME (Times timespec_zero (fh_mtime h))
                          else (0, b))
                       in if status < 0 then Some (status, s, b)
                          else Some (0, fh_put fh (h\<lparr>fh_flags := fh_flags h AND NOT (FH_FLAG_DIRTY OR FH_FLAG_MTIME)\<rparr>) s, b)))
           })
        })"

section \<open>Open and release\<close>

definition bm_open ::
  "env \<Rightarrow> u64 \<Rightarrow> fuse_file_info \<Rightarrow> fs_ctx \<Rightarrow> (fuse_file_info \<times> fs_ctx) option" where
  "bm_open env ino fi s = do {
     (fh, s) \<leftarrow> bm_fh_new env ino s;
     h \<leftarrow> fh_heap s fh;
     (let flags = fi_flags fi;
          s = (if flags AND O_TRUNC \<noteq> 0 \<and> flags AND O_ACCMODE \<noteq> O_RDONLY then
                 (case xgetrealtime env s of (now, s) \<Rightarrow>
                    fh_put fh (h\<lparr>fh_data_len := 0, fh_mtime := now,
                      fh_flags := fh_flags h OR (FH_FLAG_DIRTY OR FH_FLAG_MTIME)\<rparr>) s)
               else s);
          fi = (if flags AND O_DIRECT \<noteq> 0 then fi\<lparr>direct_io := True\<rparr> else fi)
      in Some (fi\<lparr>keep_cache := True, noflush := True, fi_fh := fh\<rparr>, s))
   }"

definition bm_free ::
  "env \<Rightarrow> 'b backend \<Rightarrow> u64 \<Rightarrow> fuse_file_info \<Rightarrow> fs_ctx \<Rightarrow> 'b \<Rightarrow> (int \<times> fs_ctx \<times> 'b) option" where
  "bm_free env B ino fi s b = do {
     h \<leftarrow> fh_heap s (fi_fh fi);
     (let h = h\<lparr>refcount := refcount h - 1\<rparr>;
          s = fh_put (fi_fh fi) h s
      in if 0 < refcount h then Some (0, s, b)
         else do {
           (status, s, b) \<leftarrow> bm_do_write B ino (Some (fi_fh fi)) s b;
           (let (status, s) = (if status \<noteq> 0 then
                    (case inval_inode env ino s of (st, s) \<Rightarrow> (if st \<noteq> 0 then - EIO else status, s))
                  else (status, s));
                s = (if readonly (ctx_flags s) \<or> fh_buf h = None then s
                     else s\<lparr>live_bufs := live_bufs s - 1\<rparr>);
                b = (if fh_cookie h \<noteq> NULL then cookie_free B b (fh_cookie h) False else b)
            in do {
              s \<leftarrow> bm_fh_free (fi_fh fi) (-1) s;
              Some (status, s, b)
            })
         })
   }"

section \<open>Read\<close>

definition bm_read_cb :: "env \<Rightarrow> ptr \<Rightarrow> get_cb" where
  "bm_read_cb env fh val w =
     (0, do {
        s \<leftarrow> w;
        h \<leftarrow> fh_heap s fh;
        (let buf_len = length val;
             buf_len = (if readonly (ctx_flags s) then buf_len + of_bool (eol (ctx_flags s))
                        else buf_len + FH_BUF_RESERVED buf_len);
             (h, s) = (if fh_buf_len h < buf_len then
                 (h\<lparr>fh_buf := Some (junk_bytes env buf_len), fh_buf_len := to_u32 buf_len\<rparr>,
                  s\<lparr>live_bufs := live_bufs s + of_bool (fh_buf h = None)\<rparr>)
               else (h, s));
             data = val @ (if eol (ctx_flags s) then [10] else [])
         in (case fh_buf h of
               None \<Rightarrow> (if data = [] then Some (fh_put fh (h\<lparr>fh_data_len := 0\<rparr>) s) else None)
             | Some old \<Rightarrow>
                 (if length old < length data then None
                  else Some (fh_put fh (h\<lparr>fh_buf := Some (blit old 0 data),
                                          fh_data_len := to_u32 (length data)\<rparr>) s))))
      })"

text \<open>The end of \<open>bm_read\<close>, after the label \<open>do_read\<close>.\<close>

definition bm_read_reply :: "fuse_req \<Rightarrow> nat \<Rightarrow> nat \<Rightarrow> ptr \<Rightarrow> fs_ctx \<Rightarrow> fs_ctx option" where
  "bm_read_reply req buf_max off fh s = do {
     h \<leftarrow> fh_heap s fh;
     (let buf_len = fh_data_len h;
          off = (if buf_len < off then buf_len else off);
          bytes_read = buf_len - off;
          bytes_read = (if buf_max < bytes_read then buf_max else bytes_read)
      in do {
        prefix \<leftarrow> buf_take (fh_buf h) (off + bytes_read);
        Some (send_reply req (Reply_buf (drop off prefix)) s)
      })
   }"

definition bm_read ::
  "env \<Rightarrow> 'b backend \<Rightarrow> fuse_req \<Rightarrow> u64 \<Rightarrow> nat \<Rightarrow> nat \<Rightarrow> ptr \<Rightarrow> fs_ctx \<Rightarrow> 'b \<Rightarrow>
    (int \<times> fs_ctx \<times> 'b) option" where
  "bm_read env B req ino buf_max off fh s b = do {
     h \<leftarrow> fh_heap s fh;
     (if has_flag (fh_flags h) FH_FLAG_DIRTY \<or> exclusive (ctx_flags s) \<and> fh_buf h \<noteq> None then do {
        s \<leftarrow> bm_read_reply req buf_max off fh s;
        Some (0, s, b)
      }
      else
        (let cookie_ptr = (if exclusive (ctx_flags s) then None else Some (fh_cookie h));
             (result, cookie, w, b) =
               bookmark_get B b (INODE_SUBSYS_ID ino) None (bm_read_cb env fh) (Some s) cookie_ptr
         in do {
           s \<leftarrow> w;
           h \<leftarrow> fh_heap s fh;
           (let s = (if cookie_ptr = None then s else fh_put fh (h\<lparr>fh_cookie := cookie\<rparr>) s)
            in if result < 0 \<and> result \<noteq> - EAGAIN \<and> result \<noteq> - ESTALE then Some (result, s, b)
               else do {
                 s \<leftarrow> bm_read_reply req buf_max off fh s;
                 Some (0, s, b)
               })
         }))
   }"

section \<open>Write and truncate\<close>

text \<open>\<open>memcpy\<close> into a buffer that must have room, \<open>memset\<close> of a range to zero.\<close>

definition buf_put :: "bytes \<Rightarrow> nat \<Rightarrow> bytes \<Rightarrow> bytes option" where
  "buf_put buf off src = (if off + length src \<le> length buf then Some (blit buf off src) else None)"

definition buf_grow :: "env \<Rightarrow> fs_file_handle \<Rightarrow> nat \<Rightarrow> fs_ctx \<Rightarrow> fs_file_handle \<times> fs_ctx" where
  "buf_grow env h len s =
     (let new_len = to_u32 (len + FH_BUF_RESERVED len);
          old = (case fh_buf h of None \<Rightarrow> [] | Some b \<Rightarrow> b)
      in (h\<lparr>fh_buf_len := new_len, fh_buf := Some (realloc_bytes env old new_len)\<rparr>,
          s\<lparr>live_bufs := live_bufs s + of_bool (fh_buf h = None)\<rparr>))"

definition bm_write ::
  "env \<Rightarrow> fuse_req \<Rightarrow> u32 \<Rightarrow> bytes \<Rightarrow> nat \<Rightarrow> ptr \<Rightarrow> fs_ctx \<Rightarrow> (int \<times> fs_ctx) option" where
  "bm_write env req flags req_buf off fh s =
     (if length req_buf = 0 then Some (0, s)
      else do {
        h \<leftarrow> fh_heap s fh;
        (let off = (if flags AND O_APPEND \<noteq> 0 then fh_data_len h else off);
             req_off_max = length req_buf + off
         in if file_max s < req_off_max then Some (- EFBIG, s)
            else (let (h, s) = (if fh_buf_len h < req_off_max then buf_grow env h req_off_max s else (h, s))
                  in do {
                    buf \<leftarrow> fh_buf h;
                    buf \<leftarrow> buf_put buf off req_buf;
                    buf \<leftarrow> (if fh_data_len h < off
                             then buf_put buf (fh_data_len h) (replicate (off - fh_data_len h) 0)
                             else Some buf);
                    (let (now, s) = xgetrealtime env s;
                         h = h\<lparr>fh_buf := Some buf,
                               fh_data_len := (if fh_data_len h < req_off_max then to_u32 req_off_max
                                               else fh_data_len h),
                               fh_mtime := now,
                               fh_flags := fh_flags h OR (FH_FLAG_DIRTY OR FH_FLAG_MTIME)\<rparr>
                     in Some (0, send_reply req (Reply_write (length req_buf)) (fh_put fh h s)))
                  }))
      })"

text \<open>The \<open>FUSE_SET_ATTR_SIZE\<close> branch of \<open>bm_setattr\<close>.\<close>

definition bm_truncate :: "env \<Rightarrow> u64 \<Rightarrow> ptr \<Rightarrow> nat \<Rightarrow> fs_ctx \<Rightarrow> (int \<times> fs_ctx) option" where
  "bm_truncate env ino fh new_len s = do {
     r \<leftarrow> bm_fh_get env ino s;
     (if map_option fst r \<noteq> Some fh then None else Some ());
     h \<leftarrow> fh_heap s fh;
     (if has_flag (fh_flags h) FH_FLAG_ISDIR then None
      else if file_max s < new_len then Some (- EFBIG, s)
      else do {
        (h, s) \<leftarrow> (if fh_data_len h < new_len then
            (let (h, s) = (if fh_buf_len h < new_len then buf_grow env h new_len s else (h, s))
             in do {
               buf \<leftarrow> fh_buf h;
               buf \<leftarrow> buf_put buf (fh_data_len h) (replicate (new_len - fh_data_len h) 0);
               Some (h\<lparr>fh_buf := Some buf\<rparr>, s)
             })
          else Some (h, s));
        (let (now, s) = xgetrealtime env s;
             h = h\<lparr>fh_data_len := to_u32 new_len, fh_mtime := now,
                   fh_flags := fh_flags h OR (FH_FLAG_DIRTY OR FH_FLAG_MTIME)\<rparr>
         in Some (0, fh_put fh h s))
      })
   }"

section \<open>Lookup and attributes\<close>

definition bm_lookup ::
  "env \<Rightarrow> 'b backend \<Rightarrow> u64 \<Rightarrow> bytes option \<Rightarrow> u32 \<Rightarrow> stat \<Rightarrow> fs_ctx \<Rightarrow> 'b \<Rightarrow>
    (int \<times> stat \<times> 'b) option" where
  "bm_lookup env B parent name flags stat_buf s b =
     (let parent_id = INODE_SUBSYS_ID parent;
          (status, st, b) = bookmark_lookup B b parent_id name flags
      in if status < 0 then Some (status, stat_buf, b)
         else (let subsys_type = (if BOOKMARK_IS_TYPE flags TYPE_TAG \<and> parent_id = tags_root_id s
                                  then SUBSYS_TYPE_TAG else SUBSYS_TYPE_BOOKMARK)
               in do {
                 stat_buf \<leftarrow> bm_fillstat env st subsys_type True stat_buf s;
                 Some (0, stat_buf, b)
               }))"

text \<open>The time-stamp branch of \<open>bm_setattr\<close>, up to the call that sets them.\<close>

definition bm_set_times ::
  "env \<Rightarrow> 'b backend \<Rightarrow> u64 \<Rightarrow> u32 \<Rightarrow> bool \<Rightarrow> stat \<Rightarrow> fs_ctx \<Rightarrow> 'b \<Rightarrow> (int \<times> fs_ctx \<times> 'b) option" where
  "bm_set_times env B ino sa_mask is_tag stat_buf s b =
     (let sa_mask = (if ctime (ctx_flags s) then sa_mask OR (FUSE_SET_ATTR_MTIME OR FUSE_SET_ATTR_MTIME_NOW)
                  else sa_mask);
          (now, s) = (if sa_mask AND (FUSE_SET_ATTR_ATIME_NOW OR FUSE_SET_ATTR_MTIME_NOW) \<noteq> 0
                      then xgetrealtime env s else (timespec_zero, s));
          set_flags = (if is_tag then TYPE_TAG else 0);
          (t0, set_flags) = (if sa_mask AND FUSE_SET_ATTR_ATIME \<noteq> 0
             then (if sa_mask AND FUSE_SET_ATTR_ATIME_NOW \<noteq> 0 then now else st_atim stat_buf, set_flags OR SET_ATIME)
             else (now, set_flags))
      in do {
        (t1, set_flags, s) \<leftarrow> (if sa_mask AND FUSE_SET_ATTR_MTIME \<noteq> 0 then do {
            r \<leftarrow> bm_fh_get env ino s;
            s \<leftarrow> (case r of
                None \<Rightarrow> Some s
              | Some (fh, _) \<Rightarrow> do {
                  h \<leftarrow> fh_heap s fh;
                  Some (if has_flag (fh_flags h) FH_FLAG_ISDIR then s
                        else fh_put fh (h\<lparr>fh_flags := fh_flags h AND NOT FH_FLAG_MTIME\<rparr>) s)
                });
            Some (if sa_mask AND FUSE_SET_ATTR_MTIME_NOW \<noteq> 0 then now else st_mtim stat_buf,
                  set_flags OR SET_MTIME, s)
          } else Some (now, set_flags, s));
        (let (status, b) = bookmark_set B b (INODE_SUBSYS_ID ino) None set_flags (Times t0 t1)
         in Some (status, s, b))
      })"

definition bm_setattr ::
  "env \<Rightarrow> 'b backend \<Rightarrow> u64 \<Rightarrow> u32 \<Rightarrow> bool \<Rightarrow> fuse_file_info option \<Rightarrow> stat \<Rightarrow> fs_ctx \<Rightarrow> 'b \<Rightarrow>
    (int \<times> stat \<times> fs_ctx \<times> 'b) option" where
  "bm_setattr env B ino sa_mask is_tag fi stat_buf s b = do {
     (status, s, b) \<leftarrow>
       (if sa_mask AND FUSE_SET_ATTR_SIZE \<noteq> 0 then
          (if is_tag then None
           else do {
             fi \<leftarrow> fi;
             (status, s) \<leftarrow> bm_truncate env ino (fi_fh fi) (nat (st_size stat_buf mod 2 ^ 64)) s;
             Some (status, s, b)
           })
        else if sa_mask AND (FUSE_SET_ATTR_ATIME OR FUSE_SET_ATTR_MTIME) \<noteq> 0 then
          bm_set_times env B ino sa_mask is_tag stat_buf s b
        else Some (- EPERM, s, b));
     (if status < 0 then Some (status, stat_buf, s, b)
      else do {
        (status, stat_buf, b) \<leftarrow>
          bm_lookup env B ino None (if is_tag then TYPE_TAG else 0) (STAT_INIT s) s b;
        Some (status, stat_buf, s, b)
      })
   }"

section \<open>Extended attributes\<close>

definition bm_getxattr_cb :: "fuse_req \<Rightarrow> nat \<Rightarrow> get_cb" where
  "bm_getxattr_cb req buf_max xattr_val w =
     (if buf_max = 0 then (0, map_option (send_reply req (Reply_xattr (length xattr_val))) w)
      else if buf_max < length xattr_val then (- ERANGE, w)
      else (0, map_option (send_reply req (Reply_buf xattr_val)) w))"

definition bm_getxattr ::
  "'b backend \<Rightarrow> fuse_req \<Rightarrow> u64 \<Rightarrow> bytes \<Rightarrow> nat \<Rightarrow> fs_ctx \<Rightarrow> 'b \<Rightarrow> (int \<times> fs_ctx \<times> 'b) option" where
  "bm_getxattr B req ino name buf_max s b =
     (if \<not> is_xattr_name name s then Some (- ENOATTR, s, b)
      else (let (status, _, w, b) = bookmark_get B b (INODE_SUBSYS_ID ino)
                  (Some (drop (length BOOKMARKFS_XATTR_PREFIX) name))
                  (bm_getxattr_cb req buf_max) (Some s) None
            in do { s \<leftarrow> w; Some (status, s, b) }))"

definition bm_rmxattr :: "bytes \<Rightarrow> fs_ctx \<Rightarrow> int" where
  "bm_rmxattr name s = (if \<not> is_xattr_name name s then - ENOATTR else - EPERM)"

definition bm_setxattr ::
  "'b backend \<Rightarrow> u64 \<Rightarrow> bytes \<Rightarrow> bytes \<Rightarrow> u32 \<Rightarrow> fs_ctx \<Rightarrow> 'b \<Rightarrow> int \<times> 'b" where
  "bm_setxattr B ino name val flags s b =
     (if \<not> is_xattr_name name s then (- ENOATTR, b)
      else if flags = XATTR_CREATE then (- EEXIST, b)
      else bookmark_set B b (INODE_SUBSYS_ID ino)
             (Some (drop (length BOOKMARKFS_XATTR_PREFIX) name)) 0 (Content val))"

section \<open>Creating bookmarks\<close>

definition bm_create ::
  "env \<Rightarrow> 'b backend \<Rightarrow> u64 \<Rightarrow> bytes \<Rightarrow> u32 \<Rightarrow> stat \<Rightarrow> fs_ctx \<Rightarrow> 'b \<Rightarrow> (int \<times> stat \<times> 'b) option" where
  "bm_create env B parent name flags stat_buf s b =
     (let (status, st, b) = bookmark_create B b (INODE_SUBSYS_ID parent) name 0 None
      in if status < 0 \<and> (status \<noteq> - EEXIST \<or> flags AND O_EXCL \<noteq> 0) then Some (status, stat_buf, b)
         else (let st = (if flags AND O_TRUNC \<noteq> 0 \<and> flags AND O_ACCMODE \<noteq> O_RDONLY
                         then st\<lparr>value_len := 0\<rparr> else st)
               in do {
                 stat_buf \<leftarrow> bm_fillstat env st SUBSYS_TYPE_BOOKMARK False stat_buf s;
                 Some (0, stat_buf, b)
               }))"

end
