(* ===== verification/Fs_Dir.thy ===== *)
theory Fs_Dir
  imports Fs_File
begin

text \<open>
  Operations of \<open>fs_ops.c\<close> on directories: synchronisation, the consistency-check and permutation
  ioctls, open, list and release, creation, deletion, renaming, tags and keywords, and the
  \<open>intfs_*\<close> functions, which route the internal directories to the backend's roots.
\<close>

section \<open>Synchronisation\<close>

definition bm_syncdir :: "env \<Rightarrow> u64 \<Rightarrow> fs_ctx \<Rightarrow> (int \<times> fs_ctx) option" where
  "bm_syncdir env ino s = do { r \<leftarrow> bm_fh_get env ino s; inval_dir env ino (map_option fst r) s }"

definition intfs_syncdir :: "env \<Rightarrow> u64 \<Rightarrow> fs_ctx \<Rightarrow> (int \<times> fs_ctx) option" where
  "intfs_syncdir env ino s =
     (if ino = INTFS_ID_BOOKMARKS then bm_syncdir env (bookmarks_root_id s) s
      else if ino = INTFS_ID_TAGS then bm_syncdir env (tags_root_id s) s
      else if ino = INTFS_ID_KEYWORDS then bm_syncdir env 0 s
      else Some (0, s))"

section \<open>Consistency check and permutation\<close>

text \<open>The structures as they lie in \<open>ctx.buf\<close> and in the ioctl's input buffer.\<close>

primrec le_word :: "bytes \<Rightarrow> 'a::len word" where
  "le_word [] = 0"
| "le_word (b # bs) = ucast b OR push_bit 8 (le_word bs)"

definition fsck_decode :: "bytes \<Rightarrow> fsck_data" where
  "fsck_decode bs = \<lparr>fd_id = le_word (take 8 bs), fd_extra = le_word (take 8 (drop 8 bs)),
     fd_name = take 256 (drop 16 bs)\<rparr>"

definition fsck_encode :: "fsck_data \<Rightarrow> bytes" where
  "fsck_encode d = le_bytes 8 (fd_id d) @ le_bytes 8 (fd_extra d) @ fd_name d"

definition c_str :: "bytes \<Rightarrow> bytes" where "c_str = takeWhile (\<lambda>c. c \<noteq> 0)"

definition permd_decode :: "bytes \<Rightarrow> permd_data" where
  "permd_decode bs =
     (let op_nr = (le_word (take 4 bs) :: u32)
      in \<lparr>pd_op = (if op_nr = 0 then PERMD_OP_SWAP else if op_nr = 1 then PERMD_OP_MOVE_BEFORE
                else if op_nr = 2 then PERMD_OP_MOVE_AFTER else PERMD_OP_OTHER),
          pd_name1 = c_str (take 256 (drop 4 bs)), pd_name2 = c_str (take 256 (drop 260 bs))\<rparr>)"

text \<open>A \<open>name\<close> of \<open>None\<close> stands for the pointer to \<open>ckctx->out.name\<close> itself.\<close>

definition bm_check_cb :: check_cb where
  "bm_check_cb result i extra name ckctx =
     (let out = (fst ckctx)\<lparr>fd_id := i, fd_extra := extra\<rparr>;
          out = (case name of None \<Rightarrow> out
                 | Some n \<Rightarrow> out\<lparr>fd_name := take 256 (n @ replicate 256 0)\<rparr>)
      in (1, (out, result)))"

definition bm_check ::
  "'b backend \<Rightarrow> u64 \<Rightarrow> fsck_data option \<Rightarrow> u32 \<Rightarrow> bool \<Rightarrow> ptr \<Rightarrow> fs_ctx \<Rightarrow> 'b \<Rightarrow> int \<times> fs_ctx \<times> 'b" where
  "bm_check B parent data flags with_ckctx cookie s b =
     (case bookmark_check B of
        None \<Rightarrow> (- ENOTTY, s, b)
      | Some check \<Rightarrow>
          (let callback = (if with_ckctx then Some bm_check_cb else None);
               (status, (out, result), b) = check b (INODE_SUBSYS_ID parent) data flags callback
                  (fsck_decode (ctx_buf s), FSCK_RESULT_END) cookie;
               s = (if with_ckctx then s\<lparr>ctx_buf := blit (ctx_buf s) 0 (fsck_encode out)\<rparr> else s)
           in if status < 0 then (status, s, b)
              else if with_ckctx then (result, s, b)
              else (0, s, b)))"

definition bm_permute :: "'b backend \<Rightarrow> u64 \<Rightarrow> permd_data \<Rightarrow> u32 \<Rightarrow> 'b \<Rightarrow> int \<times> 'b" where
  "bm_permute B ino d flags b =
     bookmark_permute B b (INODE_SUBSYS_ID ino) (pd_op d) (pd_name1 d) (pd_name2 d) flags"

text \<open>An update through the pointer \<open>fh\<close> that the table returned, which may be null.\<close>

definition fh_update :: "ptr option \<Rightarrow> (fs_file_handle \<Rightarrow> fs_file_handle) \<Rightarrow> fs_ctx \<Rightarrow> fs_ctx option" where
  "fh_update fhp f s = do { fh \<leftarrow> fhp; h \<leftarrow> fh_heap s fh; Some (fh_put fh (f h) s) }"

definition set_flag :: "u32 \<Rightarrow> fs_file_handle \<Rightarrow> fs_file_handle" where
  "set_flag flag h = h\<lparr>fh_flags := fh_flags h OR flag\<rparr>"

definition clear_flag :: "u32 \<Rightarrow> fs_file_handle \<Rightarrow> fs_file_handle" where
  "clear_flag flag h = h\<lparr>fh_flags := fh_flags h AND NOT flag\<rparr>"

definition ioctl_reply ::
  "fuse_req \<Rightarrow> int \<Rightarrow> nat \<Rightarrow> fs_ctx \<Rightarrow> 'b \<Rightarrow> (int \<times> fs_ctx \<times> 'b) option" where
  "ioctl_reply req result obuf_len s b =
     Some (0, send_reply req (Reply_ioctl result (take obuf_len (ctx_buf s))) s, b)"

definition bm_ioctl ::
  "env \<Rightarrow> 'b backend \<Rightarrow> fuse_req \<Rightarrow> u64 \<Rightarrow> u32 \<Rightarrow> u32 \<Rightarrow> bytes \<Rightarrow> nat \<Rightarrow> ptr \<Rightarrow> fs_ctx \<Rightarrow> 'b \<Rightarrow>
    (int \<times> fs_ctx \<times> 'b) option" where
  "bm_ioctl env B req ino cmd flags ibuf obuf_len cookie s b = do {
     r \<leftarrow> bm_fh_get env ino s;
     (let fhp = map_option fst r
      in if cmd = IOC_FSCK_REWIND then
           (let (result, s, b) = bm_check B ino None flags False cookie s b
            in do {
              s \<leftarrow> (if result = 0 then fh_update fhp (clear_flag FH_FLAG_FSCK) s else Some s);
              ioctl_reply req result obuf_len s b
            })
         else if cmd = IOC_FSCK_NEXT then
           (if obuf_len \<noteq> FSCK_DATA_SIZE then None
            else if \<not> has_access req R_OK s then Some (- EACCES, s, b)
            else do {
              fh \<leftarrow> fhp;
              h \<leftarrow> fh_heap s fh;
              (if has_flag (fh_flags h) FH_FLAG_FSCK \<and> fh_cookie h \<noteq> cookie then Some (- EBUSY, s, b)
               else (let (result, s, b) = bm_check B ino None flags True cookie s b
                     in if result < 0 then ioctl_reply req result obuf_len s b
                        else if result = FSCK_RESULT_END then do {
                          s \<leftarrow> fh_update fhp (clear_flag FH_FLAG_FSCK) s;
                          ioctl_reply req result 0 s b
                        }
                        else do {
                          s \<leftarrow> fh_update fhp (\<lambda>h. set_flag FH_FLAG_FSCK (h\<lparr>fh_cookie := cookie\<rparr>)) s;
                          ioctl_reply req result obuf_len s b
                        }))
            })
         else if cmd = IOC_FSCK_APPLY then
           (if length ibuf \<noteq> FSCK_DATA_SIZE \<or> length ibuf \<noteq> obuf_len then None
            else if readonly (ctx_flags s) then Some (- EROFS, s, b)
            else if \<not> has_access req (W_OK OR X_OK) s then Some (- EACCES, s, b)
            else (let (result, s, b) = bm_check B ino (Some (fsck_decode ibuf)) flags True cookie s b
                  in if result = FSCK_RESULT_END then do {
                       s \<leftarrow> fh_update fhp (set_flag FH_FLAG_DIRTY) s;
                       ioctl_reply req result 0 s b
                     }
                     else ioctl_reply req result obuf_len s b))
         else if cmd = IOC_PERMD then
           (if length ibuf \<noteq> PERMD_DATA_SIZE then None
            else if readonly (ctx_flags s) then Some (- EROFS, s, b)
            else if \<not> has_access req (W_OK OR X_OK) s then Some (- EACCES, s, b)
            else (let (result, b) = bm_permute B ino (permd_decode ibuf) flags b
                  in if result < 0 then Some (result, s, b)
                     else do {
                       s \<leftarrow> fh_update fhp (set_flag FH_FLAG_DIRTY) s;
                       ioctl_reply req result obuf_len s b
                     }))
         else Some (- ENOTTY, s, b))
   }"

section \<open>Opening, listing and releasing directories\<close>

definition bm_opendir ::
  "env \<Rightarrow> 'b backend \<Rightarrow> u64 \<Rightarrow> u32 \<Rightarrow> fuse_file_info \<Rightarrow> fs_ctx \<Rightarrow> 'b \<Rightarrow>
    (int \<times> fuse_file_info \<times> fs_ctx \<times> 'b) option" where
  "bm_opendir env B ino flags fi s b =
     (let i = INODE_SUBSYS_ID ino;
          (status, cookie, _, b) = bookmark_list B b i 0 flags None None NULL
      in if status < 0 then Some (status, fi, s, b)
         else do {
           (fh, s) \<leftarrow> bm_fh_new env ino s;
           s \<leftarrow> fh_update (Some fh) (set_flag FH_FLAG_ISDIR) s;
           (let t = flags AND BOOKMARKFS_BOOKMARK_TYPE_MASK;
                fi = (if t = TYPE_TAG \<and> i = tags_root_id s \<or> t = TYPE_BOOKMARK
                      then fi\<lparr>cache_readdir := True, keep_cache := True\<rparr> else fi)
            in Some (0, fi\<lparr>fi_fh := cookie\<rparr>, s, b))
         })"

definition bm_freedir ::
  "env \<Rightarrow> 'b backend \<Rightarrow> u64 \<Rightarrow> ptr \<Rightarrow> fs_ctx \<Rightarrow> 'b \<Rightarrow> (int \<times> fs_ctx \<times> 'b) option" where
  "bm_freedir env B ino cookie s b =
     (let b = cookie_free B b cookie True
      in do {
        r \<leftarrow> bm_fh_get env ino s;
        (fh, entry_id) \<leftarrow> r;
        h \<leftarrow> fh_heap s fh;
        (let h = (if has_flag (fh_flags h) FH_FLAG_FSCK \<and> fh_cookie h = cookie
                  then clear_flag FH_FLAG_FSCK h else h);
             h = h\<lparr>refcount := refcount h - 1\<rparr>;
             s = fh_put fh h s
         in if 0 < refcount h then Some (0, s, b)
            else do {
              (status, s) \<leftarrow> inval_dir env ino (Some fh) s;
              s \<leftarrow> bm_fh_free fh entry_id s;
              Some (status, s, b)
            })
      })"

text \<open>\<open>fuse_add_direntry\<close>: it reports the size it needs and writes only when that fits.\<close>

definition bm_readdir_cb :: "env \<Rightarrow> fuse_req \<Rightarrow> u32 \<Rightarrow> nat \<Rightarrow> list_cb" where
  "bm_readdir_cb env req flags buf_max e w =
     (case w of
        None \<Rightarrow> (1, None)
      | Some (reply_len, s) \<Rightarrow>
          (let subsys_type = (if BOOKMARK_IS_TYPE flags TYPE_TAG then SUBSYS_TYPE_TAG else SUBSYS_TYPE_BOOKMARK);
               is_readdirplus = has_flag flags LIST_WITHSTAT;
               ep = ENTRY_PARAM_INIT s
           in (case bm_fillstat env (be_stat e) subsys_type is_readdirplus (ep_attr ep) s of
                 None \<Rightarrow> (1, None)
               | Some attr \<Rightarrow>
                   (let ep = ep\<lparr>ep_attr := attr, ep_ino := st_ino attr\<rparr>;
                        buf_len = buf_max - reply_len;
                        ent = (if is_readdirplus then dirent_plus env (be_name e) ep (be_off e)
                               else dirent env (be_name e) (ep_attr ep) (be_off e))
                    in if buf_len < length ent then (1, Some (reply_len, s))
                       else (0, Some (reply_len + length ent,
                                      s\<lparr>ctx_buf := blit (ctx_buf s) reply_len ent\<rparr>))))))"

definition bm_readdir ::
  "env \<Rightarrow> 'b backend \<Rightarrow> fuse_req \<Rightarrow> u64 \<Rightarrow> nat \<Rightarrow> nat \<Rightarrow> u32 \<Rightarrow> ptr \<Rightarrow> fs_ctx \<Rightarrow> 'b \<Rightarrow>
    (int \<times> fs_ctx \<times> 'b) option" where
  "bm_readdir env B req ino buf_max off flags cookie s b =
     (let i = INODE_SUBSYS_ID ino;
          cb_flags = (if BOOKMARK_IS_TYPE flags TYPE_TAG \<and> i \<noteq> tags_root_id s
                      then flags AND NOT TYPE_TAG else flags);
          (status, _, w, b) = bookmark_list B b i off flags
             (Some (bm_readdir_cb env req cb_flags buf_max)) (Some (0, s)) cookie
      in do {
        (reply_len, s) \<leftarrow> w;
        (if status < 0 then Some (status, s, b)
         else Some (0, send_reply req (Reply_buf (take reply_len (ctx_buf s))) s, b))
      })"

section \<open>Changing directories\<close>

definition bm_delete :: "'b backend \<Rightarrow> u64 \<Rightarrow> bytes \<Rightarrow> u32 \<Rightarrow> 'b \<Rightarrow> int \<times> 'b" where
  "bm_delete B parent name flags b = bookmark_delete B b (INODE_SUBSYS_ID parent) name flags"

definition bm_rename :: "'b backend \<Rightarrow> u64 \<Rightarrow> bytes \<Rightarrow> u64 \<Rightarrow> bytes \<Rightarrow> u32 \<Rightarrow> 'b \<Rightarrow> int \<times> 'b" where
  "bm_rename B parent name new_parent new_name flags b =
     bookmark_rename B b (INODE_SUBSYS_ID parent) name (INODE_SUBSYS_ID new_parent) new_name flags"

definition bm_mkdir ::
  "env \<Rightarrow> 'b backend \<Rightarrow> u64 \<Rightarrow> bytes \<Rightarrow> u64 \<Rightarrow> stat \<Rightarrow> fs_ctx \<Rightarrow> 'b \<Rightarrow> (int \<times> stat \<times> 'b) option" where
  "bm_mkdir env B parent name subsys_type stat_buf s b =
     (let flags = (if subsys_type = SUBSYS_TYPE_TAG then CREATE_DIR OR TYPE_TAG else CREATE_DIR);
          (status, st, b) = bookmark_create B b (INODE_SUBSYS_ID parent) name flags None
      in if status < 0 then Some (status, stat_buf, b)
         else do {
           stat_buf \<leftarrow> bm_fillstat env st subsys_type False stat_buf s;
           Some (0, stat_buf, b)
         })"

text \<open>\<open>bm_set_keyword\<close> and \<open>bm_set_tag\<close> hand the bookmark's id to the backend in \<open>stat.id\<close>.\<close>

definition bm_set_keyword ::
  "env \<Rightarrow> 'b backend \<Rightarrow> u64 \<Rightarrow> bytes \<Rightarrow> stat \<Rightarrow> fs_ctx \<Rightarrow> 'b \<Rightarrow> (int \<times> stat \<times> 'b) option" where
  "bm_set_keyword env B ino keyword stat_buf s b =
     (let (status, st, b) = bookmark_create B b 0 keyword TYPE_KEYWORD (Some (INODE_SUBSYS_ID ino))
      in if status < 0 then Some (status, stat_buf, b)
         else do {
           stat_buf \<leftarrow> bm_fillstat env st SUBSYS_TYPE_BOOKMARK True stat_buf s;
           Some (0, stat_buf, b)
         })"

definition bm_set_tag ::
  "env \<Rightarrow> 'b backend \<Rightarrow> u64 \<Rightarrow> u64 \<Rightarrow> bytes \<Rightarrow> stat \<Rightarrow> fs_ctx \<Rightarrow> 'b \<Rightarrow> (int \<times> stat \<times> 'b) option" where
  "bm_set_tag env B ino new_parent new_name stat_buf s b =
     (let (status, st, b) = bookmark_create B b (INODE_SUBSYS_ID new_parent) new_name TYPE_TAG
             (Some (INODE_SUBSYS_ID ino))
      in if status < 0 then Some (status, stat_buf, b)
         else do {
           stat_buf \<leftarrow> bm_fillstat env st SUBSYS_TYPE_BOOKMARK True stat_buf s;
           Some (0, stat_buf, b)
         })"

end
