(* ===== verification/Fs_Intfs.thy ===== *)
theory Fs_Intfs
  imports Fs_Dir
begin

text \<open>
  The internal file system of \<open>fs_ops.c\<close>: the root directory and its entries \<open>bookmarks\<close>,
  \<open>tags\<close> and \<open>keywords\<close>, which stand for root folders of the backend.
\<close>

definition intfs_create ::
  "env \<Rightarrow> 'b backend \<Rightarrow> u64 \<Rightarrow> bytes \<Rightarrow> u32 \<Rightarrow> stat \<Rightarrow> fuse_file_info \<Rightarrow> fs_ctx \<Rightarrow> 'b \<Rightarrow>
    (int \<times> stat \<times> fuse_file_info \<times> fs_ctx \<times> 'b) option" where
  "intfs_create env B parent name flags stat_buf fi s b =
     (if parent = INTFS_ID_BOOKMARKS then do {
        (status, stat_buf, b) \<leftarrow> bm_create env B (bookmarks_root_id s) name flags stat_buf s b;
        (if status < 0 then Some (status, stat_buf, fi, s, b)
         else do {
           (fi, s) \<leftarrow> bm_open env (SUBSYS_NODEID (st_ino stat_buf) SUBSYS_TYPE_BOOKMARK) fi s;
           Some (0, stat_buf, fi, s, b)
         })
      }
      else Some (- EPERM, stat_buf, fi, s, b))"

definition intfs_delete ::
  "'b backend \<Rightarrow> u64 \<Rightarrow> bytes \<Rightarrow> u32 \<Rightarrow> fs_ctx \<Rightarrow> 'b \<Rightarrow> int \<times> 'b" where
  "intfs_delete B parent name flags s b =
     (if parent = INTFS_ID_BOOKMARKS then bm_delete B (bookmarks_root_id s) name flags b
      else if parent = INTFS_ID_TAGS then bm_delete B (tags_root_id s) name (flags OR TYPE_TAG) b
      else if parent = INTFS_ID_KEYWORDS then bm_delete B 0 name (flags OR TYPE_KEYWORD) b
      else (- EPERM, b))"

definition intfs_freedir ::
  "env \<Rightarrow> 'b backend \<Rightarrow> u64 \<Rightarrow> ptr \<Rightarrow> fs_ctx \<Rightarrow> 'b \<Rightarrow> (int \<times> fs_ctx \<times> 'b) option" where
  "intfs_freedir env B ino cookie s b =
     (if ino = INTFS_ID_BOOKMARKS then bm_freedir env B (bookmarks_root_id s) cookie s b
      else if ino = INTFS_ID_TAGS then bm_freedir env B (tags_root_id s) cookie s b
      else if ino = INTFS_ID_KEYWORDS then bm_freedir env B 0 cookie s b
      else Some (0, s, b))"

definition intfs_ioctl ::
  "env \<Rightarrow> 'b backend \<Rightarrow> fuse_req \<Rightarrow> u64 \<Rightarrow> u32 \<Rightarrow> bytes \<Rightarrow> nat \<Rightarrow> ptr \<Rightarrow> fs_ctx \<Rightarrow> 'b \<Rightarrow>
    (int \<times> fs_ctx \<times> 'b) option" where
  "intfs_ioctl env B req ino cmd ibuf obuf_len cookie s b =
     (if ino = INTFS_ID_BOOKMARKS then
        bm_ioctl env B req (bookmarks_root_id s) cmd 0 ibuf obuf_len cookie s b
      else if ino = INTFS_ID_TAGS then
        bm_ioctl env B req (tags_root_id s) cmd TYPE_TAG ibuf obuf_len cookie s b
      else if ino = INTFS_ID_KEYWORDS then
        bm_ioctl env B req 0 cmd TYPE_KEYWORD ibuf obuf_len cookie s b
      else Some (- ENOTTY, s, b))"

definition intfs_link ::
  "env \<Rightarrow> 'b backend \<Rightarrow> u64 \<Rightarrow> u64 \<Rightarrow> bytes \<Rightarrow> stat \<Rightarrow> fs_ctx \<Rightarrow> 'b \<Rightarrow> (int \<times> stat \<times> 'b) option" where
  "intfs_link env B ino new_parent new_name stat_buf s b =
     (if new_parent = INTFS_ID_KEYWORDS then bm_set_keyword env B ino new_name stat_buf s b
      else Some (- EPERM, stat_buf, b))"

definition INTFS_NAME_BOOKMARKS :: bytes where "INTFS_NAME_BOOKMARKS = str ''bookmarks''"
definition INTFS_NAME_TAGS :: bytes where "INTFS_NAME_TAGS = str ''tags''"
definition INTFS_NAME_KEYWORDS :: bytes where "INTFS_NAME_KEYWORDS = str ''keywords''"

text \<open>
  The labels of the switch lie inside the chain of name tests of the root, so a name found there
  goes on as a lookup of the entry's own directory (with \<open>name\<close> reset to null).
\<close>

definition intfs_entry_lookup ::
  "env \<Rightarrow> 'b backend \<Rightarrow> u64 \<Rightarrow> bytes option \<Rightarrow> stat \<Rightarrow> fs_ctx \<Rightarrow> 'b \<Rightarrow> (int \<times> stat \<times> 'b) option" where
  "intfs_entry_lookup env B parent name stat_buf s b =
     (if parent = INTFS_ID_BOOKMARKS then
        bm_lookup env B (bookmarks_root_id s) name 0 stat_buf s b
      else if parent = INTFS_ID_TAGS then
        (if \<not> backend_has_tags s then Some (- ENOENT, stat_buf, b)
         else bm_lookup env B (tags_root_id s) name TYPE_TAG stat_buf s b)
      else if parent = INTFS_ID_KEYWORDS then
        (if \<not> backend_has_keywords s then Some (- ENOENT, stat_buf, b)
         else bm_lookup env B 0 name TYPE_KEYWORD stat_buf s b)
      else Some (- ENOENT, stat_buf, b))"

definition intfs_lookup ::
  "env \<Rightarrow> 'b backend \<Rightarrow> u64 \<Rightarrow> bytes option \<Rightarrow> stat \<Rightarrow> fs_ctx \<Rightarrow> 'b \<Rightarrow> (int \<times> stat \<times> 'b) option" where
  "intfs_lookup env B parent name stat_buf s b = do {
     (let (parent, name) =
        (if parent = INTFS_ID_ROOT then
           (case name of
              None \<Rightarrow> (parent, name)
            | Some n \<Rightarrow>
                (if n = INTFS_NAME_BOOKMARKS then (INTFS_ID_BOOKMARKS, None)
                 else if n = INTFS_NAME_TAGS then (INTFS_ID_TAGS, None)
                 else if n = INTFS_NAME_KEYWORDS then (INTFS_ID_KEYWORDS, None)
                 else (parent, name)))
         else (parent, name))
      in do {
        (status, stat_buf, b) \<leftarrow>
          (if parent = INTFS_ID_ROOT then
             (if name = None then Some (0, stat_buf\<lparr>st_mode := FS_FILEMODE_ROOT s\<rparr>, b)
              else Some (- ENOENT, stat_buf, b))
           else intfs_entry_lookup env B parent name stat_buf s b);
        (if status < 0 then Some (status, stat_buf, b)
         else Some (0, if name = None then stat_buf\<lparr>st_ino := parent\<rparr> else stat_buf, b))
      })
   }"

definition intfs_lsxattr :: "u64 \<Rightarrow> nat \<Rightarrow> fs_ctx \<Rightarrow> int \<times> nat \<times> fs_ctx" where
  "intfs_lsxattr ino buf_max s =
     (if ino = INTFS_ID_BOOKMARKS then bm_lsxattr buf_max s else (0, 0, s))"

definition intfs_mkdir ::
  "env \<Rightarrow> 'b backend \<Rightarrow> u64 \<Rightarrow> bytes \<Rightarrow> stat \<Rightarrow> fs_ctx \<Rightarrow> 'b \<Rightarrow> (int \<times> stat \<times> 'b) option" where
  "intfs_mkdir env B parent name stat_buf s b =
     (if parent = INTFS_ID_BOOKMARKS then
        bm_mkdir env B (bookmarks_root_id s) name SUBSYS_TYPE_BOOKMARK stat_buf s b
      else if parent = INTFS_ID_TAGS then
        bm_mkdir env B (tags_root_id s) name SUBSYS_TYPE_TAG stat_buf s b
      else Some (- EACCES, stat_buf, b))"

text \<open>An inode that is none of the four falls through to \<open>bm_opendir\<close> with itself.\<close>

definition intfs_opendir ::
  "env \<Rightarrow> 'b backend \<Rightarrow> u64 \<Rightarrow> fuse_file_info \<Rightarrow> fs_ctx \<Rightarrow> 'b \<Rightarrow>
    (int \<times> fuse_file_info \<times> fs_ctx \<times> 'b) option" where
  "intfs_opendir env B ino fi s b =
     (if ino = INTFS_ID_ROOT then Some (0, fi\<lparr>cache_readdir := True, keep_cache := True\<rparr>, s, b)
      else (let (ino, flags) =
              (if ino = INTFS_ID_BOOKMARKS then (bookmarks_root_id s, 0)
               else if ino = INTFS_ID_TAGS then (tags_root_id s, TYPE_TAG)
               else if ino = INTFS_ID_KEYWORDS then (0, TYPE_KEYWORD)
               else (ino, 0))
            in bm_opendir env B ino flags fi s b))"

record intfs_dirent =
  de_name :: "bytes option"
  de_id :: u64
  de_is_root :: bool

definition intfs_dents :: "fs_ctx \<Rightarrow> intfs_dirent list" where
  "intfs_dents s =
     [\<lparr>de_name = Some INTFS_NAME_BOOKMARKS, de_id = INTFS_ID_BOOKMARKS, de_is_root = False\<rparr>,
      \<lparr>de_name = (if backend_has_tags s then Some INTFS_NAME_TAGS else None),
        de_id = INTFS_ID_TAGS, de_is_root = False\<rparr>,
      \<lparr>de_name = (if backend_has_keywords s then Some INTFS_NAME_KEYWORDS else None),
        de_id = INTFS_ID_KEYWORDS, de_is_root = False\<rparr>]"

text \<open>The loop over the entries from index \<open>idx\<close> on.\<close>

fun intfs_readdir_loop ::
  "env \<Rightarrow> 'b backend \<Rightarrow> bool \<Rightarrow> intfs_dirent list \<Rightarrow> nat \<Rightarrow> nat \<Rightarrow> nat \<Rightarrow> fs_ctx \<Rightarrow> 'b \<Rightarrow>
    (int \<times> nat \<times> fs_ctx \<times> 'b) option" where
  "intfs_readdir_loop env B is_plus [] idx buf_max reply_size s b = Some (0, reply_size, s, b)"
| "intfs_readdir_loop env B is_plus (dent # dents) idx buf_max reply_size s b =
     (case de_name dent of
        None \<Rightarrow> intfs_readdir_loop env B is_plus dents (idx + 1) buf_max reply_size s b
      | Some name \<Rightarrow>
          (let ep = ENTRY_PARAM_INIT s; attr = ep_attr ep
           in do {
             (status, attr, b) \<leftarrow>
               (if de_is_root dent then Some (0, attr\<lparr>st_mode := FS_FILEMODE_ROOT s\<rparr>, b)
                else if is_plus then intfs_lookup env B (de_id dent) None attr s b
                else Some (0, attr\<lparr>st_mode := FS_FILEMODE_DIR s\<rparr>, b));
             (if status < 0 then Some (status, reply_size, s, b)
              else (let ep = ep\<lparr>ep_ino := de_id dent, ep_attr := attr\<lparr>st_ino := de_id dent\<rparr>\<rparr>;
                        ent = (if is_plus then dirent_plus env name ep (idx + 1)
                               else dirent env name (ep_attr ep) (idx + 1))
                    in if buf_max < length ent then Some (0, reply_size, s, b)
                       else intfs_readdir_loop env B is_plus dents (idx + 1) (buf_max - length ent)
                              (reply_size + length ent)
                              (s\<lparr>ctx_buf := blit (ctx_buf s) reply_size ent\<rparr>) b))
           }))"

definition intfs_readdir ::
  "env \<Rightarrow> 'b backend \<Rightarrow> fuse_req \<Rightarrow> u64 \<Rightarrow> nat \<Rightarrow> nat \<Rightarrow> u32 \<Rightarrow> ptr \<Rightarrow> fs_ctx \<Rightarrow> 'b \<Rightarrow>
    (int \<times> fs_ctx \<times> 'b) option" where
  "intfs_readdir env B req ino buf_max off flags cookie s b =
     (if ino = INTFS_ID_BOOKMARKS then
        bm_readdir env B req (bookmarks_root_id s) buf_max off flags cookie s b
      else if ino = INTFS_ID_TAGS then
        bm_readdir env B req (tags_root_id s) buf_max off (flags OR TYPE_TAG) cookie s b
      else if ino = INTFS_ID_KEYWORDS then
        bm_readdir env B req 0 buf_max off (flags OR TYPE_KEYWORD) cookie s b
      else if ino \<noteq> INTFS_ID_ROOT then None
      else do {
        (status, reply_size, s, b) \<leftarrow>
          intfs_readdir_loop env B (has_flag flags LIST_WITHSTAT) (drop off (intfs_dents s)) off buf_max 0 s b;
        (if status < 0 then Some (status, s, b)
         else Some (0, send_reply req (Reply_buf (take reply_size (ctx_buf s))) s, b))
      })"

definition intfs_rename ::
  "'b backend \<Rightarrow> u64 \<Rightarrow> bytes \<Rightarrow> bytes \<Rightarrow> u32 \<Rightarrow> fs_ctx \<Rightarrow> 'b \<Rightarrow> int \<times> 'b" where
  "intfs_rename B parent name new_name flags s b =
     (if parent = INTFS_ID_BOOKMARKS then
        bm_rename B (bookmarks_root_id s) name (bookmarks_root_id s) new_name flags b
      else if parent = INTFS_ID_TAGS then
        bm_rename B (tags_root_id s) name (tags_root_id s) new_name (flags OR TYPE_TAG) b
      else if parent = INTFS_ID_KEYWORDS then bm_rename B 0 name 0 new_name (flags OR TYPE_KEYWORD) b
      else (- EPERM, b))"

end
