(* ===== verification/Fs_Ops.thy ===== *)
theory Fs_Ops
  imports Fs_Intfs
begin

text \<open>
  The FUSE operations \<open>fs_op_*\<close> of \<open>fs_ops.c\<close>: each routes a request by the subsystem of its
  inode and replies.  The result is the state after the request; \<open>None\<close> as before.
\<close>

definition reply_err :: "fuse_req \<Rightarrow> int \<Rightarrow> fs_ctx \<Rightarrow> fs_ctx" where
  "reply_err req status s = send_reply req (Reply_err (- status)) s"

definition fs_op_create ::
  "env \<Rightarrow> 'b backend \<Rightarrow> fuse_req \<Rightarrow> u64 \<Rightarrow> bytes \<Rightarrow> fuse_file_info \<Rightarrow> fs_ctx \<Rightarrow> 'b \<Rightarrow> (fs_ctx \<times> 'b) option" where
  "fs_op_create env B req parent name fi s b =
     (let ep = ENTRY_PARAM_INIT s
      in do {
        (status, attr, fi, s, b) \<leftarrow>
          (if INODE_SUBSYS_TYPE parent = SUBSYS_TYPE_INTERNAL then
             intfs_create env B parent name (fi_flags fi) (ep_attr ep) fi s b
           else if INODE_SUBSYS_TYPE parent = SUBSYS_TYPE_BOOKMARK then do {
             (status, attr, b) \<leftarrow> bm_create env B parent name (fi_flags fi) (ep_attr ep) s b;
             (if status < 0 then Some (status, attr, fi, s, b)
              else do { (fi, s) \<leftarrow> bm_open env (st_ino attr) fi s; Some (0, attr, fi, s, b) })
           }
           else Some (- EPERM, ep_attr ep, fi, s, b));
        Some (if status < 0 then reply_err req status s
              else send_reply req (Reply_create (ep\<lparr>ep_attr := attr, ep_ino := st_ino attr\<rparr>) fi) s, b)
      })"

definition fs_op_fsync ::
  "'b backend \<Rightarrow> fuse_req \<Rightarrow> u64 \<Rightarrow> fuse_file_info \<Rightarrow> fs_ctx \<Rightarrow> 'b \<Rightarrow> (fs_ctx \<times> 'b) option" where
  "fs_op_fsync B req ino fi s b =
     (if readonly (ctx_flags s) then Some (reply_err req 0 s, b)
      else do {
        (status, s, b) \<leftarrow>
          (if INODE_SUBSYS_TYPE ino = SUBSYS_TYPE_BOOKMARK then
             bm_do_write B ino (if fi_fh fi = NULL then None else Some (fi_fh fi)) s b
           else Some (0, s, b));
        (if status < 0 then Some (reply_err req status s, b)
         else (let (status, b) = bookmark_sync B b in Some (reply_err req status s, b)))
      })"

definition fs_op_fsyncdir ::
  "env \<Rightarrow> 'b backend \<Rightarrow> fuse_req \<Rightarrow> u64 \<Rightarrow> fs_ctx \<Rightarrow> 'b \<Rightarrow> (fs_ctx \<times> 'b) option" where
  "fs_op_fsyncdir env B req ino s b =
     (if readonly (ctx_flags s) then Some (reply_err req 0 s, b)
      else do {
        (status, s) \<leftarrow>
          (if INODE_SUBSYS_TYPE ino = SUBSYS_TYPE_INTERNAL then intfs_syncdir env ino s
           else if INODE_SUBSYS_TYPE ino = SUBSYS_TYPE_BOOKMARK then bm_syncdir env ino s
           else Some (0, s));
        (if status < 0 then Some (reply_err req status s, b)
         else (let (status, b) = bookmark_sync B b in Some (reply_err req status s, b)))
      })"

definition fs_op_getattr ::
  "env \<Rightarrow> 'b backend \<Rightarrow> fuse_req \<Rightarrow> u64 \<Rightarrow> fs_ctx \<Rightarrow> 'b \<Rightarrow> (fs_ctx \<times> 'b) option" where
  "fs_op_getattr env B req ino s b = do {
     (status, attr, b) \<leftarrow>
       (if INODE_SUBSYS_TYPE ino = SUBSYS_TYPE_INTERNAL then
          intfs_lookup env B ino None (STAT_INIT s) s b
        else if INODE_SUBSYS_TYPE ino = SUBSYS_TYPE_TAG then
          bm_lookup env B ino None TYPE_TAG (STAT_INIT s) s b
        else if INODE_SUBSYS_TYPE ino = SUBSYS_TYPE_BOOKMARK then
          bm_lookup env B ino None 0 (STAT_INIT s) s b
        else Some (- EIO, STAT_INIT s, b));
     Some (if status < 0 then reply_err req status s
           else send_reply req (Reply_attr attr (FS_ENTRY_TIMEOUT s)) s, b)
   }"

definition fs_op_getxattr ::
  "'b backend \<Rightarrow> fuse_req \<Rightarrow> u64 \<Rightarrow> bytes \<Rightarrow> nat \<Rightarrow> fs_ctx \<Rightarrow> 'b \<Rightarrow> (fs_ctx \<times> 'b) option" where
  "fs_op_getxattr B req ino name buf_max s b = do {
     (status, s, b) \<leftarrow>
       (if INODE_SUBSYS_TYPE ino = SUBSYS_TYPE_BOOKMARK then bm_getxattr B req ino name buf_max s b
        else Some (- ENOATTR, s, b));
     Some (if status < 0 then reply_err req status s else s, b)
   }"

definition fs_op_ioctl ::
  "env \<Rightarrow> 'b backend \<Rightarrow> fuse_req \<Rightarrow> u64 \<Rightarrow> u32 \<Rightarrow> fuse_file_info \<Rightarrow> u32 \<Rightarrow> bytes \<Rightarrow> nat \<Rightarrow> fs_ctx \<Rightarrow> 'b \<Rightarrow>
    (fs_ctx \<times> 'b) option" where
  "fs_op_ioctl env B req ino cmd fi flags ibuf obuf_len s b = do {
     (status, s, b) \<leftarrow>
       (if flags AND FUSE_IOCTL_DIR = 0 then Some (- ENOTTY, s, b)
        else if INODE_SUBSYS_TYPE ino = SUBSYS_TYPE_INTERNAL then
          intfs_ioctl env B req ino cmd ibuf obuf_len (fi_fh fi) s b
        else if INODE_SUBSYS_TYPE ino = SUBSYS_TYPE_BOOKMARK then
          bm_ioctl env B req ino cmd 0 ibuf obuf_len (fi_fh fi) s b
        else Some (- ENOTTY, s, b));
     Some (if status < 0 then reply_err req status s else s, b)
   }"

definition fs_op_link ::
  "env \<Rightarrow> 'b backend \<Rightarrow> fuse_req \<Rightarrow> u64 \<Rightarrow> u64 \<Rightarrow> bytes \<Rightarrow> fs_ctx \<Rightarrow> 'b \<Rightarrow> (fs_ctx \<times> 'b) option" where
  "fs_op_link env B req ino new_parent new_name s b =
     (let ep = ENTRY_PARAM_INIT s
      in do {
        (status, attr, b) \<leftarrow>
          (if INODE_SUBSYS_TYPE ino \<noteq> SUBSYS_TYPE_BOOKMARK then Some (- EPERM, ep_attr ep, b)
           else if INODE_SUBSYS_TYPE new_parent = SUBSYS_TYPE_INTERNAL then
             intfs_link env B ino new_parent new_name (ep_attr ep) s b
           else if INODE_SUBSYS_TYPE new_parent = SUBSYS_TYPE_TAG then
             bm_set_tag env B ino new_parent new_name (ep_attr ep) s b
           else Some (- EPERM, ep_attr ep, b));
        Some (if status < 0 then reply_err req status s
              else send_reply req (Reply_entry (ep\<lparr>ep_attr := attr, ep_ino := st_ino attr\<rparr>)) s, b)
      })"

definition fs_op_listxattr ::
  "fuse_req \<Rightarrow> u64 \<Rightarrow> nat \<Rightarrow> fs_ctx \<Rightarrow> 'b \<Rightarrow> (fs_ctx \<times> 'b) option" where
  "fs_op_listxattr req ino buf_max s b =
     (let (status, buf_len, s) =
        (if length (ctx_buf s) < buf_max then (- E2BIG, 0, s)
         else if INODE_SUBSYS_TYPE ino = SUBSYS_TYPE_INTERNAL then intfs_lsxattr ino buf_max s
         else if INODE_SUBSYS_TYPE ino = SUBSYS_TYPE_BOOKMARK then bm_lsxattr buf_max s
         else (0, 0, s))
      in Some (if status < 0 then reply_err req status s
               else if buf_max = 0 then send_reply req (Reply_xattr buf_len) s
               else send_reply req (Reply_buf (take buf_len (ctx_buf s))) s, b))"

definition fs_op_lookup ::
  "env \<Rightarrow> 'b backend \<Rightarrow> fuse_req \<Rightarrow> u64 \<Rightarrow> bytes \<Rightarrow> fs_ctx \<Rightarrow> 'b \<Rightarrow> (fs_ctx \<times> 'b) option" where
  "fs_op_lookup env B req parent name s b =
     (let ep = ENTRY_PARAM_INIT s;
          ep = (if INODE_SUBSYS_TYPE parent = SUBSYS_TYPE_INTERNAL
                then ep\<lparr>ep_entry_timeout := FS_ENTRY_TIMEOUT_MAX\<rparr> else ep)
      in do {
        (status, attr, b) \<leftarrow>
          (if INODE_SUBSYS_TYPE parent = SUBSYS_TYPE_INTERNAL then
             intfs_lookup env B parent (Some name) (ep_attr ep) s b
           else if INODE_SUBSYS_TYPE parent = SUBSYS_TYPE_TAG then
             bm_lookup env B parent (Some name) TYPE_TAG (ep_attr ep) s b
           else if INODE_SUBSYS_TYPE parent = SUBSYS_TYPE_BOOKMARK then
             bm_lookup env B parent (Some name) 0 (ep_attr ep) s b
           else Some (- EIO, ep_attr ep, b));
        Some (if status < 0 then reply_err req status s
              else send_reply req (Reply_entry (ep\<lparr>ep_attr := attr, ep_ino := st_ino attr\<rparr>)) s, b)
      })"

definition fs_op_mkdir ::
  "env \<Rightarrow> 'b backend \<Rightarrow> fuse_req \<Rightarrow> u64 \<Rightarrow> bytes \<Rightarrow> fs_ctx \<Rightarrow> 'b \<Rightarrow> (fs_ctx \<times> 'b) option" where
  "fs_op_mkdir env B req parent name s b =
     (let ep = ENTRY_PARAM_INIT s
      in do {
        (status, attr, b) \<leftarrow>
          (if INODE_SUBSYS_TYPE parent = SUBSYS_TYPE_INTERNAL then
             intfs_mkdir env B parent name (ep_attr ep) s b
           else if INODE_SUBSYS_TYPE parent = SUBSYS_TYPE_BOOKMARK then
             bm_mkdir env B parent name SUBSYS_TYPE_BOOKMARK (ep_attr ep) s b
           else Some (- EPERM, ep_attr ep, b));
        Some (if status < 0 then reply_err req status s
              else send_reply req (Reply_entry (ep\<lparr>ep_attr := attr, ep_ino := st_ino attr\<rparr>)) s, b)
      })"

definition fs_op_open ::
  "env \<Rightarrow> fuse_req \<Rightarrow> u64 \<Rightarrow> fuse_file_info \<Rightarrow> fs_ctx \<Rightarrow> 'b \<Rightarrow> (fs_ctx \<times> 'b) option" where
  "fs_op_open env req ino fi s b =
     (if INODE_SUBSYS_TYPE ino = SUBSYS_TYPE_BOOKMARK then do {
        (fi, s) \<leftarrow> bm_open env ino fi s;
        Some (send_reply req (Reply_open fi) s, b)
      }
      else Some (reply_err req (- EIO) s, b))"

definition fs_op_opendir ::
  "env \<Rightarrow> 'b backend \<Rightarrow> fuse_req \<Rightarrow> u64 \<Rightarrow> fuse_file_info \<Rightarrow> fs_ctx \<Rightarrow> 'b \<Rightarrow> (fs_ctx \<times> 'b) option" where
  "fs_op_opendir env B req ino fi s b = do {
     (status, fi, s, b) \<leftarrow>
       (if INODE_SUBSYS_TYPE ino = SUBSYS_TYPE_INTERNAL then intfs_opendir env B ino fi s b
        else if INODE_SUBSYS_TYPE ino = SUBSYS_TYPE_TAG then bm_opendir env B ino TYPE_TAG fi s b
        else if INODE_SUBSYS_TYPE ino = SUBSYS_TYPE_BOOKMARK then bm_opendir env B ino 0 fi s b
        else Some (- EIO, fi, s, b));
     Some (if status < 0 then reply_err req status s else send_reply req (Reply_open fi) s, b)
   }"

definition fs_op_read ::
  "env \<Rightarrow> 'b backend \<Rightarrow> fuse_req \<Rightarrow> u64 \<Rightarrow> nat \<Rightarrow> nat \<Rightarrow> fuse_file_info \<Rightarrow> fs_ctx \<Rightarrow> 'b \<Rightarrow> (fs_ctx \<times> 'b) option" where
  "fs_op_read env B req ino buf_max off fi s b = do {
     (status, s, b) \<leftarrow>
       (if INODE_SUBSYS_TYPE ino = SUBSYS_TYPE_BOOKMARK then
          bm_read env B req ino buf_max off (fi_fh fi) s b
        else Some (- EIO, s, b));
     Some (if status < 0 then reply_err req status s else s, b)
   }"

definition do_readdir ::
  "env \<Rightarrow> 'b backend \<Rightarrow> fuse_req \<Rightarrow> u64 \<Rightarrow> nat \<Rightarrow> nat \<Rightarrow> u32 \<Rightarrow> fuse_file_info \<Rightarrow> fs_ctx \<Rightarrow> 'b \<Rightarrow>
    (fs_ctx \<times> 'b) option" where
  "do_readdir env B req ino buf_max off flags fi s b =
     (let s = (if length (ctx_buf s) < buf_max
               then s\<lparr>ctx_buf := realloc_bytes env (ctx_buf s) buf_max\<rparr> else s)
      in do {
        (status, s, b) \<leftarrow>
          (if INODE_SUBSYS_TYPE ino = SUBSYS_TYPE_INTERNAL then
             intfs_readdir env B req ino buf_max off flags (fi_fh fi) s b
           else if INODE_SUBSYS_TYPE ino = SUBSYS_TYPE_TAG then
             bm_readdir env B req ino buf_max off (flags OR TYPE_TAG) (fi_fh fi) s b
           else if INODE_SUBSYS_TYPE ino = SUBSYS_TYPE_BOOKMARK then
             bm_readdir env B req ino buf_max off flags (fi_fh fi) s b
           else Some (- EIO, s, b));
        Some (if status < 0 then reply_err req status s else s, b)
      })"

definition fs_op_readdir ::
  "env \<Rightarrow> 'b backend \<Rightarrow> fuse_req \<Rightarrow> u64 \<Rightarrow> nat \<Rightarrow> nat \<Rightarrow> fuse_file_info \<Rightarrow> fs_ctx \<Rightarrow> 'b \<Rightarrow> (fs_ctx \<times> 'b) option" where
  "fs_op_readdir env B req ino buf_max off fi s b = do_readdir env B req ino buf_max off 0 fi s b"

definition fs_op_readdirplus ::
  "env \<Rightarrow> 'b backend \<Rightarrow> fuse_req \<Rightarrow> u64 \<Rightarrow> nat \<Rightarrow> nat \<Rightarrow> fuse_file_info \<Rightarrow> fs_ctx \<Rightarrow> 'b \<Rightarrow> (fs_ctx \<times> 'b) option" where
  "fs_op_readdirplus env B req ino buf_max off fi s b =
     do_readdir env B req ino buf_max off LIST_WITHSTAT fi s b"

definition fs_op_release ::
  "env \<Rightarrow> 'b backend \<Rightarrow> fuse_req \<Rightarrow> u64 \<Rightarrow> fuse_file_info \<Rightarrow> fs_ctx \<Rightarrow> 'b \<Rightarrow> (fs_ctx \<times> 'b) option" where
  "fs_op_release env B req ino fi s b = do {
     (status, s, b) \<leftarrow>
       (if INODE_SUBSYS_TYPE ino = SUBSYS_TYPE_BOOKMARK then bm_free env B ino fi s b
        else Some (- EIO, s, b));
     Some (reply_err req status s, b)
   }"

definition fs_op_releasedir ::
  "env \<Rightarrow> 'b backend \<Rightarrow> fuse_req \<Rightarrow> u64 \<Rightarrow> fuse_file_info \<Rightarrow> fs_ctx \<Rightarrow> 'b \<Rightarrow> (fs_ctx \<times> 'b) option" where
  "fs_op_releasedir env B req ino fi s b = do {
     (status, s, b) \<leftarrow>
       (if INODE_SUBSYS_TYPE ino = SUBSYS_TYPE_INTERNAL then intfs_freedir env B ino (fi_fh fi) s b
        else if INODE_SUBSYS_TYPE ino = SUBSYS_TYPE_BOOKMARK \<or> INODE_SUBSYS_TYPE ino = SUBSYS_TYPE_TAG then
          bm_freedir env B ino (fi_fh fi) s b
        else Some (- EIO, s, b));
     Some (reply_err req status s, b)
   }"

definition do_delete ::
  "'b backend \<Rightarrow> fuse_req \<Rightarrow> u64 \<Rightarrow> bytes \<Rightarrow> u32 \<Rightarrow> fs_ctx \<Rightarrow> 'b \<Rightarrow> (fs_ctx \<times> 'b) option" where
  "do_delete B req parent name flags s b =
     (let (status, b) =
        (if INODE_SUBSYS_TYPE parent = SUBSYS_TYPE_INTERNAL then intfs_delete B parent name flags s b
         else if INODE_SUBSYS_TYPE parent = SUBSYS_TYPE_TAG then bm_delete B parent name (flags OR TYPE_TAG) b
         else if INODE_SUBSYS_TYPE parent = SUBSYS_TYPE_BOOKMARK then bm_delete B parent name flags b
         else (- EIO, b))
      in Some (reply_err req status s, b))"

definition fs_op_rmdir ::
  "'b backend \<Rightarrow> fuse_req \<Rightarrow> u64 \<Rightarrow> bytes \<Rightarrow> fs_ctx \<Rightarrow> 'b \<Rightarrow> (fs_ctx \<times> 'b) option" where
  "fs_op_rmdir B req parent name s b = do_delete B req parent name DELETE_DIR s b"

definition fs_op_unlink ::
  "'b backend \<Rightarrow> fuse_req \<Rightarrow> u64 \<Rightarrow> bytes \<Rightarrow> fs_ctx \<Rightarrow> 'b \<Rightarrow> (fs_ctx \<times> 'b) option" where
  "fs_op_unlink B req parent name s b = do_delete B req parent name 0 s b"

definition fs_op_rename ::
  "'b backend \<Rightarrow> fuse_req \<Rightarrow> u64 \<Rightarrow> bytes \<Rightarrow> u64 \<Rightarrow> bytes \<Rightarrow> u32 \<Rightarrow> fs_ctx \<Rightarrow> 'b \<Rightarrow> (fs_ctx \<times> 'b) option" where
  "fs_op_rename B req parent name new_parent new_name flags s b =
     (let (rflags, flags) = (if flags AND RENAME_NOREPLACE \<noteq> 0
                             then (BM_RENAME_NOREPLACE, flags AND NOT RENAME_NOREPLACE) else (0, flags));
          (status, b) =
            (if flags \<noteq> 0 then (- EINVAL, b)
             else if INODE_SUBSYS_TYPE parent \<noteq> INODE_SUBSYS_TYPE new_parent then (- EPERM, b)
             else if INODE_SUBSYS_TYPE parent = SUBSYS_TYPE_INTERNAL then
               (if parent \<noteq> new_parent then (- EPERM, b)
                else intfs_rename B parent name new_name rflags s b)
             else if INODE_SUBSYS_TYPE parent = SUBSYS_TYPE_BOOKMARK then
               bm_rename B parent name new_parent new_name rflags b
             else (- EPERM, b))
      in Some (reply_err req status s, b))"

definition fs_op_removexattr ::
  "fuse_req \<Rightarrow> u64 \<Rightarrow> bytes \<Rightarrow> fs_ctx \<Rightarrow> 'b \<Rightarrow> (fs_ctx \<times> 'b) option" where
  "fs_op_removexattr req ino name s b =
     (let status = (if INODE_SUBSYS_TYPE ino = SUBSYS_TYPE_BOOKMARK then bm_rmxattr name s else - ENOATTR)
      in Some (reply_err req status s, b))"

definition fs_op_setattr ::
  "env \<Rightarrow> 'b backend \<Rightarrow> fuse_req \<Rightarrow> u64 \<Rightarrow> stat \<Rightarrow> u32 \<Rightarrow> fuse_file_info option \<Rightarrow> fs_ctx \<Rightarrow> 'b \<Rightarrow>
    (fs_ctx \<times> 'b) option" where
  "fs_op_setattr env B req ino stat_buf sa_mask fi s b = do {
     (status, attr, s, b) \<leftarrow>
       (if INODE_SUBSYS_TYPE ino = SUBSYS_TYPE_TAG then
          bm_setattr env B ino sa_mask True fi stat_buf s b
        else if INODE_SUBSYS_TYPE ino = SUBSYS_TYPE_BOOKMARK then
          bm_setattr env B ino sa_mask False fi stat_buf s b
        else Some (- EPERM, stat_buf, s, b));
     Some (if status < 0 then reply_err req status s
           else send_reply req (Reply_attr attr (FS_ENTRY_TIMEOUT s)) s, b)
   }"

definition fs_op_setxattr ::
  "'b backend \<Rightarrow> fuse_req \<Rightarrow> u64 \<Rightarrow> bytes \<Rightarrow> bytes \<Rightarrow> u32 \<Rightarrow> fs_ctx \<Rightarrow> 'b \<Rightarrow> (fs_ctx \<times> 'b) option" where
  "fs_op_setxattr B req ino name val flags s b =
     (let (status, b) =
        (if file_max s < length val then (- ERANGE, b)
         else if INODE_SUBSYS_TYPE ino = SUBSYS_TYPE_BOOKMARK then bm_setxattr B ino name val flags s b
         else (- ENOATTR, b))
      in Some (reply_err req status s, b))"

definition fs_op_write ::
  "env \<Rightarrow> fuse_req \<Rightarrow> u64 \<Rightarrow> bytes \<Rightarrow> nat \<Rightarrow> fuse_file_info \<Rightarrow> fs_ctx \<Rightarrow> 'b \<Rightarrow> (fs_ctx \<times> 'b) option" where
  "fs_op_write env req ino buf off fi s b = do {
     (status, s) \<leftarrow>
       (if INODE_SUBSYS_TYPE ino = SUBSYS_TYPE_BOOKMARK then bm_write env req (fi_flags fi) buf off (fi_fh fi) s
        else Some (- EIO, s));
     Some (if status < 0 then reply_err req status s else s, b)
   }"

section \<open>Requests\<close>

text \<open>The operations as one step function, in the order of the table that \<open>mount.c\<close> registers.\<close>

datatype request =
    Op_create u64 bytes fuse_file_info
  | Op_fsync u64 fuse_file_info
  | Op_fsyncdir u64
  | Op_getattr u64
  | Op_getxattr u64 bytes nat
  | Op_ioctl u64 u32 fuse_file_info u32 bytes nat
  | Op_link u64 u64 bytes
  | Op_listxattr u64 nat
  | Op_lookup u64 bytes
  | Op_mkdir u64 bytes
  | Op_open u64 fuse_file_info
  | Op_opendir u64 fuse_file_info
  | Op_read u64 nat nat fuse_file_info
  | Op_readdir u64 nat nat fuse_file_info
  | Op_readdirplus u64 nat nat fuse_file_info
  | Op_release u64 fuse_file_info
  | Op_releasedir u64 fuse_file_info
  | Op_removexattr u64 bytes
  | Op_rename u64 bytes u64 bytes u32
  | Op_rmdir u64 bytes
  | Op_setattr u64 stat u32 "fuse_file_info option"
  | Op_setxattr u64 bytes bytes u32
  | Op_unlink u64 bytes
  | Op_write u64 bytes nat fuse_file_info

fun fs_step :: "env \<Rightarrow> 'b backend \<Rightarrow> fuse_req \<Rightarrow> request \<Rightarrow> fs_ctx \<Rightarrow> 'b \<Rightarrow> (fs_ctx \<times> 'b) option" where
  "fs_step env B req (Op_create parent name fi) s b = fs_op_create env B req parent name fi s b"
| "fs_step env B req (Op_fsync ino fi) s b = fs_op_fsync B req ino fi s b"
| "fs_step env B req (Op_fsyncdir ino) s b = fs_op_fsyncdir env B req ino s b"
| "fs_step env B req (Op_getattr ino) s b = fs_op_getattr env B req ino s b"
| "fs_step env B req (Op_getxattr ino name buf_max) s b = fs_op_getxattr B req ino name buf_max s b"
| "fs_step env B req (Op_ioctl ino cmd fi flags ibuf obuf_len) s b =
     fs_op_ioctl env B req ino cmd fi flags ibuf obuf_len s b"
| "fs_step env B req (Op_link ino new_parent new_name) s b =
     fs_op_link env B req ino new_parent new_name s b"
| "fs_step env B req (Op_listxattr ino buf_max) s b = fs_op_listxattr req ino buf_max s b"
| "fs_step env B req (Op_lookup parent name) s b = fs_op_lookup env B req parent name s b"
| "fs_step env B req (Op_mkdir parent name) s b = fs_op_mkdir env B req parent name s b"
| "fs_step env B req (Op_open ino fi) s b = fs_op_open env req ino fi s b"
| "fs_step env B req (Op_opendir ino fi) s b = fs_op_opendir env B req ino fi s b"
| "fs_step env B req (Op_read ino buf_max off fi) s b = fs_op_read env B req ino buf_max off fi s b"
| "fs_step env B req (Op_readdir ino buf_max off fi) s b = fs_op_readdir env B req ino buf_max off fi s b"
| "fs_step env B req (Op_readdirplus ino buf_max off fi) s b =
     fs_op_readdirplus env B req ino buf_max off fi s b"
| "fs_step env B req (Op_release ino fi) s b = fs_op_release env B req ino fi s b"
| "fs_step env B req (Op_releasedir ino fi) s b = fs_op_releasedir env B req ino fi s b"
| "fs_step env B req (Op_removexattr ino name) s b = fs_op_removexattr req ino name s b"
| "fs_step env B req (Op_rename parent name new_parent new_name flags) s b =
     fs_op_rename B req parent name new_parent new_name flags s b"
| "fs_step env B req (Op_rmdir parent name) s b = fs_op_rmdir B req parent name s b"
| "fs_step env B req (Op_setattr ino st sa_mask fi) s b = fs_op_setattr env B req ino st sa_mask fi s b"
| "fs_step env B req (Op_setxattr ino name val flags) s b = fs_op_setxattr B req ino name val flags s b"
| "fs_step env B req (Op_unlink parent name) s b = fs_op_unlink B req parent name s b"
| "fs_step env B req (Op_write ino buf off fi) s b = fs_op_write env req ino buf off fi s b"

end
