(* ===== verification/Fs_Table.thy ===== *)
theory Fs_Table
  imports Fs_Ops
begin

text \<open>
  The invariant of the file system's state: the handle table is a finite map from inode numbers to
  live handles, and every handle's lengths describe its buffer.  What \<open>bm_fh_get\<close>, \<open>bm_fh_new\<close> and
  \<open>bm_fh_free\<close> do to it follows from the entry-set facts of the hash table.
\<close>

section \<open>Inode numbers\<close>

definition MAX_ID :: u64 where "MAX_ID = SUBSYS_ID_MASK"

lemma mask61: "SUBSYS_ID_MASK = mask 61"
  by (simp add: SUBSYS_ID_MASK_def SUBSYS_ID_BITS_def BOOKMARKFS_BOOKMARK_TYPE_BITS_def
      mask_eq_exp_minus_1)

lemma subsys_id_take: "INODE_SUBSYS_ID ino = take_bit 61 ino"
  by (simp add: INODE_SUBSYS_ID_def mask61 take_bit_eq_mask)

lemma subsys_type_drop: "INODE_SUBSYS_TYPE ino = drop_bit 61 ino"
  by (simp add: INODE_SUBSYS_TYPE_def SUBSYS_ID_BITS_def BOOKMARKFS_BOOKMARK_TYPE_BITS_def)

lemma nodeid_bits: "bit (SUBSYS_NODEID i t) n \<longleftrightarrow> n < 64 \<and> (61 \<le> n \<and> bit t (n - 61) \<or> bit i n)"
  using bit_imp_le_length [of i n]
  by (auto simp: SUBSYS_NODEID_def SUBSYS_ID_BITS_def BOOKMARKFS_BOOKMARK_TYPE_BITS_def bit_simps)

section \<open>The invariant\<close>

definition buf_ok :: "fs_file_handle \<Rightarrow> bool" where
  "buf_ok h \<longleftrightarrow> fh_data_len h \<le> fh_buf_len h \<and> fh_buf_len h < 2 ^ 32 \<and>
     (case fh_buf h of None \<Rightarrow> fh_buf_len h = 0 | Some b \<Rightarrow> length b = fh_buf_len h)"

lemma buf_ok_ignore [simp]:
  "buf_ok (h\<lparr>refcount := r\<rparr>) = buf_ok h" "buf_ok (h\<lparr>fh_flags := f\<rparr>) = buf_ok h"
  "buf_ok (h\<lparr>fh_cookie := c\<rparr>) = buf_ok h" "buf_ok (h\<lparr>fh_mtime := t\<rparr>) = buf_ok h"
  by (simp_all add: buf_ok_def split: option.splits)

lemma buf_ok_truncate: "buf_ok h \<Longrightarrow> n \<le> fh_data_len h \<Longrightarrow> buf_ok (h\<lparr>fh_data_len := n\<rparr>)"
  by (simp add: buf_ok_def split: option.splits)

definition table_ok :: "env \<Rightarrow> fs_ctx \<Rightarrow> bool" where
  "table_ok env s \<longleftrightarrow> hm_inv (fh_entry_hash s) (fh_map s) \<and>
     hm_set (fh_map s) = dom (fh_heap s) \<and>
     inj_on (\<lambda>p. fh_ino (the (fh_heap s p))) (dom (fh_heap s)) \<and>
     (\<forall>p h. fh_heap s p = Some h \<longrightarrow> p < next_ptr s \<and> p \<noteq> NULL \<and> fh_hashcode h = hash64 env (fh_ino h))"

definition fs_inv :: "env \<Rightarrow> fs_ctx \<Rightarrow> bool" where
  "fs_inv env s \<longleftrightarrow> table_ok env s \<and> NULL < next_ptr s \<and> (\<forall>p h. fh_heap s p = Some h \<longrightarrow> buf_ok h)"

text \<open>The handle of an inode.\<close>

definition handle_at :: "fs_ctx \<Rightarrow> u64 \<Rightarrow> ptr \<Rightarrow> bool" where
  "handle_at s ino p \<longleftrightarrow> (\<exists>h. fh_heap s p = Some h \<and> fh_ino h = ino)"

lemma handle_unique: "table_ok env s \<Longrightarrow> handle_at s ino p \<Longrightarrow> handle_at s ino q \<Longrightarrow> p = q"
  by (auto simp: table_ok_def handle_at_def inj_on_def dom_def)

lemma bm_fh_get_cases:
  assumes "table_ok env s"
  shows "(\<exists>p n. bm_fh_get env ino s = Some (Some (p, n)) \<and> handle_at s ino p \<and> id_of (fh_map s) p n) \<or>
    bm_fh_get env ino s = Some None \<and> (\<forall>p. \<not> handle_at s ino p)"
proof -
  have inv: "hm_inv (fh_entry_hash s) (fh_map s)" and set: "hm_set (fh_map s) = dom (fh_heap s)"
    using assms by (simp_all add: table_ok_def)
  show ?thesis
  proof (cases "\<exists>p. handle_at s ino p")
    case True
    then obtain p h where p: "fh_heap s p = Some h" "fh_ino h = ino" by (auto simp: handle_at_def)
    have "\<exists>n. hashmap_search (fh_entry_comp s ino) (fh_map s) (hash64 env ino) = Some (Some (p, n))"
    proof (subst hm.search_keyed [OF inv, where K = "\<lambda>p. fh_ino (the (fh_heap s p))" and k = ino])
      show "inj_on (\<lambda>p. fh_ino (the (fh_heap s p))) (hm_set (fh_map s))"
        using assms by (simp add: table_ok_def)
      show "(fh_entry_comp s ino e = 0) = (fh_ino (the (fh_heap s e)) = ino)" for e
        by (auto simp: fh_entry_comp_def)
      show "fh_entry_hash s e = hash64 env ino"
        if "e \<in> hm_set (fh_map s)" "fh_ino (the (fh_heap s e)) = ino" for e
        using assms that by (auto simp: table_ok_def fh_entry_hash_def)
      show "p \<in> hm_set (fh_map s) \<and> fh_ino (the (fh_heap s p)) = ino"
        using p set by (auto simp: dom_def)
    qed
    then obtain n where n: "bm_fh_get env ino s = Some (Some (p, n))" by (auto simp: bm_fh_get_def)
    then have "id_of (fh_map s) p n" using hm.search_hit [OF inv] by (auto simp: bm_fh_get_def)
    then show ?thesis using n p by (auto simp: handle_at_def)
  next
    case False
    have "bm_fh_get env ino s = Some None"
      unfolding bm_fh_get_def
    proof (rule hm.search_absent [OF inv, where K = "\<lambda>p. fh_ino (the (fh_heap s p))" and k = ino])
      show "(fh_entry_comp s ino e = 0) = (fh_ino (the (fh_heap s e)) = ino)" for e
        by (auto simp: fh_entry_comp_def)
      show "fh_ino (the (fh_heap s e)) \<noteq> ino" if "e \<in> hm_set (fh_map s)" for e
        using that False set unfolding handle_at_def by (metis domD option.sel)
    qed
    then show ?thesis using False by blast
  qed
qed

lemma bm_fh_get_found:
  "table_ok env s \<Longrightarrow> handle_at s ino p \<Longrightarrow>
   \<exists>n. bm_fh_get env ino s = Some (Some (p, n)) \<and> id_of (fh_map s) p n"
  using bm_fh_get_cases [of env s ino] handle_unique by blast

lemma bm_fh_get_SomeD:
  "table_ok env s \<Longrightarrow> bm_fh_get env ino s = Some (Some (p, n)) \<Longrightarrow>
   handle_at s ino p \<and> id_of (fh_map s) p n"
  using bm_fh_get_cases [of env s ino] by auto

section \<open>Updates of the state\<close>

text \<open>The fields that the invariant does not look at.\<close>

lemma fs_inv_send_reply [simp]: "fs_inv env (send_reply req r s) = fs_inv env s"
  by (simp add: fs_inv_def table_ok_def send_reply_def fh_entry_hash_def [abs_def])

lemma fs_inv_ignore [simp]:
  "fs_inv env (s\<lparr>live_bufs := n\<rparr>) = fs_inv env s"
  "fs_inv env (s\<lparr>ctx_buf := bs\<rparr>) = fs_inv env s"
  "fs_inv env (s\<lparr>invals := is\<rparr>) = fs_inv env s"
  "fs_inv env (s\<lparr>ticks := k\<rparr>) = fs_inv env s"
  "fs_inv env (s\<lparr>replies := rs\<rparr>) = fs_inv env s"
  by (simp_all add: fs_inv_def table_ok_def fh_entry_hash_def [abs_def])

lemma fs_inv_reply_err [simp]: "fs_inv env (reply_err req st s) = fs_inv env s"
  by (simp add: reply_err_def)

text \<open>An update of a live handle that keeps its key and its buffer consistent.\<close>

lemma table_ok_fh_put:
  assumes "table_ok env s" "fh_heap s p = Some h0" "fh_ino h = fh_ino h0" "fh_hashcode h = fh_hashcode h0"
  shows "table_ok env (fh_put p h s)"
proof -
  let ?s = "fh_put p h s"
  have dom: "dom (fh_heap ?s) = dom (fh_heap s)" using assms(2) by (auto simp: fh_put_def)
  have ino: "fh_ino (the (fh_heap ?s q)) = fh_ino (the (fh_heap s q))" for q
    using assms(2,3) by (simp add: fh_put_def)
  have hash: "fh_entry_hash ?s q = fh_entry_hash s q" for q
    using assms(2,4) by (simp add: fh_put_def fh_entry_hash_def)
  have "hm_inv (fh_entry_hash ?s) (fh_map ?s) = hm_inv (fh_entry_hash s) (fh_map s)"
    using hm_inv_cong [of "fh_map s" "fh_entry_hash ?s" "fh_entry_hash s"] hash by (simp add: fh_put_def)
  moreover have "fh_map ?s = fh_map s" "next_ptr ?s = next_ptr s" by (simp_all add: fh_put_def)
  moreover have "\<forall>q hq. fh_heap ?s q = Some hq \<longrightarrow>
      q < next_ptr s \<and> q \<noteq> NULL \<and> fh_hashcode hq = hash64 env (fh_ino hq)"
    using assms by (auto simp: fh_put_def table_ok_def)
  ultimately show ?thesis using assms(1) ino dom by (simp add: table_ok_def)
qed

lemma fs_inv_fh_put:
  assumes "fs_inv env s" "fh_heap s p = Some h0" "fh_ino h = fh_ino h0" "fh_hashcode h = fh_hashcode h0"
    "buf_ok h"
  shows "fs_inv env (fh_put p h s)"
  using table_ok_fh_put [of env s p h0 h] assms
  by (auto simp: fs_inv_def) (auto simp: fh_put_def split: if_splits)

lemma bm_fh_new_ok:
  assumes inv: "fs_inv env s" and new: "bm_fh_new env ino s = Some (p, s')"
  shows "fs_inv env s' \<and> handle_at s' ino p \<and> replies s' = replies s \<and> ctx_flags s' = ctx_flags s \<and>
    ctx_buf s' = ctx_buf s \<and>
    (if \<exists>q. handle_at s ino q then
       handle_at s ino p \<and> s' = fh_put p ((the (fh_heap s p))\<lparr>refcount := refcount (the (fh_heap s p)) + 1\<rparr>) s
     else fh_heap s p = None \<and> refcount (the (fh_heap s' p)) = 1 \<and> fh_flags (the (fh_heap s' p)) = 0 \<and>
       fh_buf (the (fh_heap s' p)) = None \<and> fh_data_len (the (fh_heap s' p)) = 0 \<and>
       fh_cookie (the (fh_heap s' p)) = NULL \<and> (\<forall>q. q \<noteq> p \<longrightarrow> fh_heap s' q = fh_heap s q))"
proof -
  have t: "table_ok env s" using inv by (simp add: fs_inv_def)
  from bm_fh_get_cases [OF t, of ino] show ?thesis
  proof (elim disjE exE conjE)
    fix q n assume q: "bm_fh_get env ino s = Some (Some (q, n))" "handle_at s ino q"
    then obtain h where h: "fh_heap s q = Some h" "fh_ino h = ino" by (auto simp: handle_at_def)
    have "Some (q, fh_put q (h\<lparr>refcount := refcount h + 1\<rparr>) s) = Some (p, s')"
      using new q h by (auto simp: bm_fh_new_def)
    then have s': "p = q" "s' = fh_put q (h\<lparr>refcount := refcount h + 1\<rparr>) s" by auto
    have "buf_ok h" using inv h by (simp add: fs_inv_def)
    then have "fs_inv env s'" unfolding s' using h by (intro fs_inv_fh_put [OF inv h(1)]) simp_all
    then show ?thesis using s' h q by (auto simp: handle_at_def fh_put_def)
  next
    assume none: "bm_fh_get env ino s = Some None" "\<forall>p. \<not> handle_at s ino p"
    let ?h = "\<lparr>fh_ino = ino, fh_hashcode = hash64 env ino, refcount = 1, fh_flags = 0,
      fh_buf = None, fh_buf_len = 0, fh_data_len = 0, fh_cookie = NULL, fh_mtime = timespec_zero\<rparr>"
    let ?s = "(fh_put (next_ptr s) ?h s)\<lparr>next_ptr := next_ptr s + 1\<rparr>"
    let ?ins = "hashmap_insert (fh_entry_hash ?s) (fh_map s) (hash64 env ino) (next_ptr s)"
    have eq: "bm_fh_new env ino s = do { m \<leftarrow> ?ins; Some (next_ptr s, ?s\<lparr>fh_map := m\<rparr>) }"
      unfolding bm_fh_new_def none(1) by (simp add: Let_def fh_put_def)
    obtain m where m: "?ins = Some m"
      using new unfolding eq by (cases ?ins) simp_all
    have "bm_fh_new env ino s = Some (next_ptr s, ?s\<lparr>fh_map := m\<rparr>)" unfolding eq m by simp
    then have s': "p = next_ptr s" "s' = ?s\<lparr>fh_map := m\<rparr>" using new by auto
    have fresh: "fh_heap s (next_ptr s) = None"
    proof (rule ccontr)
      assume "fh_heap s (next_ptr s) \<noteq> None"
      then obtain h where "fh_heap s (next_ptr s) = Some h" by blast
      then have "next_ptr s < next_ptr s" using t unfolding table_ok_def by blast
      then show False by simp
    qed
    have hash: "fh_entry_hash ?s q = fh_entry_hash s q" if "q \<in> hm_set (fh_map s)" for q
    proof -
      have "q \<noteq> next_ptr s" using t that fresh by (auto simp: table_ok_def)
      then show ?thesis by (simp add: fh_entry_hash_def fh_put_def)
    qed
    have "hm_inv (fh_entry_hash ?s) (fh_map s) = hm_inv (fh_entry_hash s) (fh_map s)"
      by (rule hm_inv_cong) (rule hash)
    then have inv1: "hm_inv (fh_entry_hash ?s) (fh_map s)"
      using t unfolding table_ok_def by blast
    have "next_ptr s \<notin> hm_set (fh_map s)" using t fresh by (auto simp: table_ok_def)
    moreover have "hash64 env ino = fh_entry_hash ?s (next_ptr s)"
      by (simp add: fh_entry_hash_def fh_put_def)
    ultimately have m': "hm_inv (fh_entry_hash ?s) m" "hm_set m = insert (next_ptr s) (hm_set (fh_map s))"
      using hm.add_inv [OF inv1] m by metis+
    have "fh_entry_hash s' = fh_entry_hash ?s" by (simp add: s' fh_entry_hash_def [abs_def])
    then have "hm_inv (fh_entry_hash s') (fh_map s')" using m' by (simp add: s')
    moreover have "hm_set (fh_map s') = dom (fh_heap s')"
      using m' t by (auto simp: s' fh_put_def table_ok_def)
    moreover have "inj_on (\<lambda>p. fh_ino (the (fh_heap s' p))) (dom (fh_heap s'))"
    proof (rule inj_onI)
      have heap: "fh_heap s' = (fh_heap s)(next_ptr s \<mapsto> ?h)" by (simp add: s' fh_put_def)
      have other: "fh_ino h \<noteq> ino" if "fh_heap s q = Some h" for q h
        using none(2) that by (simp add: handle_at_def)
      have inj: "inj_on (\<lambda>p. fh_ino (the (fh_heap s p))) (dom (fh_heap s))"
        using t by (simp add: table_ok_def)
      fix x y assume xy: "x \<in> dom (fh_heap s')" "y \<in> dom (fh_heap s')"
        "fh_ino (the (fh_heap s' x)) = fh_ino (the (fh_heap s' y))"
      show "x = y"
      proof (cases "x = next_ptr s \<or> y = next_ptr s")
        case True
        then show ?thesis using xy unfolding heap by (auto split: if_splits dest: other)
      next
        case False
        then show ?thesis using xy inj_onD [OF inj, of x y] unfolding heap by simp
      qed
    qed
    moreover have "p < next_ptr s' \<and> p \<noteq> NULL \<and> fh_hashcode h = hash64 env (fh_ino h)"
      if "fh_heap s' p = Some h" for p h
      using that t inv
      by (auto simp: s' fh_put_def table_ok_def fs_inv_def less_Suc_eq split: if_splits)
    ultimately have "table_ok env s'" by (simp add: table_ok_def)
    moreover have "buf_ok h" if "fh_heap s' q = Some h" for q h
      using that inv by (auto simp: s' fh_put_def fs_inv_def buf_ok_def split: if_splits)
    ultimately have "fs_inv env s'" using inv by (simp add: fs_inv_def s' fh_put_def)
    then show ?thesis using s' none(2) fresh by (auto simp: fh_put_def handle_at_def)
  qed
qed

lemma bm_fh_free_ok:
  assumes inv: "fs_inv env s" and p: "fh_heap s p = Some h" and n: "n < 0 \<or> id_of (fh_map s) p n"
  shows "\<exists>s'. bm_fh_free p n s = Some s' \<and> fs_inv env s' \<and> fh_heap s' = (fh_heap s)(p := None) \<and>
    replies s' = replies s \<and> live_bufs s' = live_bufs s \<and> ctx_buf s' = ctx_buf s \<and>
    ctx_flags s' = ctx_flags s \<and> invals s' = invals s"
proof -
  have t: "table_ok env s" using inv by (simp add: fs_inv_def)
  have mem: "p \<in> hm_set (fh_map s)" using t p by (auto simp: table_ok_def)
  have inv1: "hm_inv (fh_entry_hash s) (fh_map s)" using t by (simp add: table_ok_def)
  obtain m where m: "hashmap_update (fh_entry_hash s) (fh_map s) p None n = Some m"
    "hm_inv (fh_entry_hash s) m" "hm_set m = hm_set (fh_map s) - {p}"
    using hm.del_ok [OF inv1 mem n] by blast
  let ?s = "s\<lparr>fh_map := m, fh_heap := (fh_heap s)(p := None)\<rparr>"
  have "hm_inv (fh_entry_hash ?s) m"
    using m(2) hm_inv_cong [of m "fh_entry_hash ?s" "fh_entry_hash s"] m(3)
    by (simp add: fh_entry_hash_def)
  moreover have "inj_on (\<lambda>q. fh_ino (the (fh_heap ?s q))) (dom (fh_heap ?s))"
    using t by (auto simp: table_ok_def inj_on_def)
  ultimately have "table_ok env ?s" using t m(3) by (auto simp: table_ok_def)
  then have "fs_inv env ?s" using inv by (auto simp: fs_inv_def)
  then show ?thesis using m(1) by (auto simp: bm_fh_free_def)
qed

end
