(* ===== verification/Fs_File_Correct.thy ===== *)
theory Fs_File_Correct
  imports Fs_Table
begin

text \<open>
  Correctness of the file operations: a handle's buffer holds the contents of a byte file; write,
  truncate and read refine the operations of such a file; write-back, release and the
  end-of-line option.
\<close>

section \<open>Files as byte lists\<close>

definition content :: "fs_file_handle \<Rightarrow> bytes" where
  "content h = (case fh_buf h of None \<Rightarrow> [] | Some b \<Rightarrow> take (fh_data_len h) b)"

text \<open>The abstract operations: a write beyond the end, and growing, fill with zero bytes.\<close>

definition file_write :: "bytes \<Rightarrow> nat \<Rightarrow> bytes \<Rightarrow> bytes" where
  "file_write c off data = take off (c @ replicate (off - length c) 0) @ data @ drop (off + length data) c"

definition file_truncate :: "bytes \<Rightarrow> nat \<Rightarrow> bytes" where
  "file_truncate c n = take n (c @ replicate (n - length c) 0)"

definition file_read :: "bytes \<Rightarrow> nat \<Rightarrow> nat \<Rightarrow> bytes" where
  "file_read c off n = take n (drop off c)"

lemma length_file_write: "length (file_write c off data) = max (length c) (off + length data)"
  by (auto simp: file_write_def)

lemma length_file_truncate [simp]: "length (file_truncate c n) = n"
  by (simp add: file_truncate_def)

lemma file_read_write_same [simp]: "file_read (file_write c off data) off (length data) = data"
  by (simp add: file_read_def file_write_def)

lemma file_read_write_before:
  "off' + n \<le> off \<Longrightarrow> off \<le> length c \<Longrightarrow> file_read (file_write c off data) off' n = file_read c off' n"
  by (rule nth_equalityI) (auto simp: file_read_def file_write_def nth_append)

lemma length_content: "buf_ok h \<Longrightarrow> length (content h) = fh_data_len h"
  by (auto simp: buf_ok_def content_def split: option.splits)

lemma content_ignore [simp]:
  "content (h\<lparr>refcount := r\<rparr>) = content h" "content (h\<lparr>fh_flags := f\<rparr>) = content h"
  "content (h\<lparr>fh_cookie := c\<rparr>) = content h" "content (h\<lparr>fh_mtime := t\<rparr>) = content h"
  by (simp_all add: content_def split: option.splits)

section \<open>Buffers\<close>

lemma to_u32_id [simp]: "n < 2 ^ 32 \<Longrightarrow> to_u32 n = n"
  by (simp add: to_u32_def)

lemma FH_BUF_RESERVED_bounds: "0 < FH_BUF_RESERVED n \<and> FH_BUF_RESERVED n \<le> 512"
proof -
  have "n mod 512 < 512" by simp
  then show ?thesis unfolding FH_BUF_RESERVED_def FH_BUF_BLOCKSIZE_def by linarith
qed

lemma buf_grow_ok:
  assumes "buf_ok h" "fh_buf_len h < len" "len \<le> 2 ^ 31"
  shows "\<exists>b n k. buf_grow env h len s = (h\<lparr>fh_buf_len := n, fh_buf := Some b\<rparr>, s\<lparr>live_bufs := k\<rparr>) \<and>
    length b = n \<and> len \<le> n \<and> n < 2 ^ 32 \<and> take (fh_data_len h) b = content h"
proof -
  let ?n = "to_u32 (len + FH_BUF_RESERVED len)"
  have n: "?n = len + FH_BUF_RESERVED len"
    using assms(3) FH_BUF_RESERVED_bounds [of len] by (intro to_u32_id) simp
  then have "len \<le> ?n" "?n < 2 ^ 32"
    unfolding n using assms(3) FH_BUF_RESERVED_bounds [of len] by simp_all
  moreover have "take (fh_data_len h) (realloc_bytes env (case fh_buf h of None \<Rightarrow> [] | Some b \<Rightarrow> b) ?n) = content h"
    using assms \<open>len \<le> ?n\<close>
    by (auto simp: content_def buf_ok_def take_realloc_bytes split: option.splits)
  ultimately show ?thesis
    by (intro exI [of _ "realloc_bytes env (case fh_buf h of None \<Rightarrow> [] | Some b \<Rightarrow> b) ?n"] exI [of _ ?n]
        exI [of _ "live_bufs s + of_bool (fh_buf h = None)"]) (simp add: buf_grow_def Let_def)
qed

lemma buf_put_Some: "off + length src \<le> length b \<Longrightarrow> buf_put b off src = Some (blit b off src)"
  by (simp add: buf_put_def)

text \<open>The two copies of \<open>bm_write\<close> into a buffer with room.\<close>

lemma write_bytes:
  assumes "dl \<le> length b" "off + length src \<le> length b"
  defines "b1 \<equiv> blit b off src"
  defines "b2 \<equiv> (if dl < off then blit b1 dl (replicate (off - dl) 0) else b1)"
  shows "take (max dl (off + length src)) b2 = file_write (take dl b) off src" "length b2 = length b"
proof -
  have l1: "length b1 = length b" using assms(2) by (simp add: b1_def length_blit)
  show l2: "length b2 = length b" using assms(1,2) l1 by (simp add: b2_def length_blit)
  have n1: "b1 ! i = (if off \<le> i \<and> i < off + length src then src ! (i - off) else b ! i)"
    if "i < length b" for i using nth_blit [OF assms(2) that] by (simp add: b1_def)
  have n2: "b2 ! i = (if dl \<le> i \<and> i < off then 0 else b1 ! i)" if "i < length b" for i
    using that assms(1,2) l1 nth_blit [of dl "replicate (off - dl) 0" b1 i] by (auto simp: b2_def)
  show "take (max dl (off + length src)) b2 = file_write (take dl b) off src"
  proof (rule nth_equalityI)
    show "length (take (max dl (off + length src)) b2) = length (file_write (take dl b) off src)"
      using assms(1,2) l2 by (simp add: length_file_write)
    fix i assume "i < length (take (max dl (off + length src)) b2)"
    then have i: "i < length b" "i < max dl (off + length src)" using l2 by simp_all
    show "take (max dl (off + length src)) b2 ! i = file_write (take dl b) off src ! i"
      using i assms(1) by (auto simp: n2 n1 file_write_def nth_append min_def)
  qed
qed

lemma truncate_bytes:
  assumes "dl \<le> length b" "dl < n" "n \<le> length b"
  shows "take n (blit b dl (replicate (n - dl) 0)) = file_truncate (take dl b) n"
  using assms by (simp add: blit_def file_truncate_def)

section \<open>Write and truncate\<close>

lemma bm_write_ok:
  fixes env req flags buf off p s h
  defines "off' \<equiv> (if flags AND O_APPEND \<noteq> 0 then fh_data_len h else off)"
  assumes inv: "fs_inv env s" and h: "fh_heap s p = Some h"
    and len: "buf \<noteq> []" "length buf + off' \<le> file_max s" "file_max s \<le> 2 ^ 31"
  shows "\<exists>h' k. bm_write env req flags buf off p s =
      Some (0, send_reply req (Reply_write (length buf)) (fh_put p h' (s\<lparr>live_bufs := k, ticks := ticks s + 1\<rparr>))) \<and>
    buf_ok h' \<and> fh_ino h' = fh_ino h \<and> fh_hashcode h' = fh_hashcode h \<and> refcount h' = refcount h \<and>
    fh_flags h' = fh_flags h OR (FH_FLAG_DIRTY OR FH_FLAG_MTIME) \<and> fh_mtime h' = clock env (ticks s) \<and>
    fh_cookie h' = fh_cookie h \<and> content h' = file_write (content h) off' buf"
proof -
  let ?n = "length buf + off'"
  have ok: "buf_ok h" using inv h by (simp add: fs_inv_def)
  obtain b n k where g: "(if fh_buf_len h < ?n then buf_grow env h ?n s else (h, s)) =
      (h\<lparr>fh_buf_len := n, fh_buf := Some b\<rparr>, s\<lparr>live_bufs := k\<rparr>)"
    and b: "length b = n" "?n \<le> n" "n < 2 ^ 32" "take (fh_data_len h) b = content h" "fh_data_len h \<le> n"
  proof (cases "fh_buf_len h < ?n")
    case True
    have "?n \<le> 2 ^ 31" using len(2,3) by linarith
    from buf_grow_ok [OF ok True this, of env s] show thesis
      using that True ok by (auto simp: buf_ok_def)
  next
    case False
    then have "0 < fh_buf_len h" using len(1) by (cases buf) simp_all
    then obtain b where b: "fh_buf h = Some b" using ok by (auto simp: buf_ok_def split: option.splits)
    show thesis
      using that [where b = b and n = "fh_buf_len h" and k = "live_bufs s"] False b ok
      by (simp add: buf_ok_def content_def)
  qed
  define b1 where "b1 = blit b off' buf"
  define b2 where "b2 = (if fh_data_len h < off' then blit b1 (fh_data_len h) (replicate (off' - fh_data_len h) 0) else b1)"
  have W: "take (max (fh_data_len h) (off' + length buf)) b2 = file_write (content h) off' buf" "length b2 = n"
    using write_bytes [of "fh_data_len h" b off' buf, folded b1_def, folded b2_def] b by simp_all
  let ?h = "h\<lparr>fh_buf_len := n, fh_buf := Some b2,
      fh_data_len := (if fh_data_len h < ?n then to_u32 ?n else fh_data_len h),
      fh_mtime := clock env (ticks s), fh_flags := fh_flags h OR (FH_FLAG_DIRTY OR FH_FLAG_MTIME)\<rparr>"
  have u: "to_u32 ?n = ?n" using b(2,3) by simp
  have p1: "buf_put b off' buf = Some b1" using b(1,2) by (simp add: buf_put_def b1_def)
  have l1: "length b1 = n" using b(1,2) by (simp add: b1_def length_blit)
  have p2: "(if fh_data_len h < off' then buf_put b1 (fh_data_len h) (replicate (off' - fh_data_len h) 0)
      else Some b1) = Some b2"
    using l1 b(2) by (simp add: buf_put_def b2_def)
  have "bm_write env req flags buf off p s =
      Some (0, send_reply req (Reply_write (length buf)) (fh_put p ?h (s\<lparr>live_bufs := k, ticks := ticks s + 1\<rparr>)))"
    using len(1,2) p2 unfolding bm_write_def h Let_def off'_def [symmetric] bind.bind_lunit g
    by (cases "fh_data_len h < off'") (simp_all add: p1 xgetrealtime_def)
  moreover have "content ?h = file_write (content h) off' buf"
  proof -
    have dl: "(if fh_data_len h < ?n then to_u32 ?n else fh_data_len h) = max (fh_data_len h) (off' + length buf)"
      using u by (auto simp: max_def)
    have "content ?h = take (max (fh_data_len h) (off' + length buf)) b2"
      unfolding dl by (simp add: content_def)
    then show ?thesis using W(1) by simp
  qed
  moreover have "buf_ok ?h" using b W(2) u by (simp add: buf_ok_def)
  ultimately show ?thesis by (intro exI [of _ ?h] exI [of _ k]) simp
qed

lemma bm_write_too_big:
  assumes "fh_heap s p = Some h" "buf \<noteq> []"
    "file_max s < length buf + (if flags AND O_APPEND \<noteq> 0 then fh_data_len h else off)"
  shows "bm_write env req flags buf off p s = Some (- EFBIG, s)"
  using assms by (simp add: bm_write_def Let_def)

lemma bm_truncate_ok:
  assumes inv: "fs_inv env s" and h: "fh_heap s p = Some h" "\<not> has_flag (fh_flags h) FH_FLAG_ISDIR"
    and len: "n \<le> file_max s" "file_max s \<le> 2 ^ 31"
  shows "\<exists>h' k. bm_truncate env (fh_ino h) p n s =
      Some (0, fh_put p h' (s\<lparr>live_bufs := k, ticks := ticks s + 1\<rparr>)) \<and>
    buf_ok h' \<and> fh_ino h' = fh_ino h \<and> fh_hashcode h' = fh_hashcode h \<and> refcount h' = refcount h \<and>
    fh_flags h' = fh_flags h OR (FH_FLAG_DIRTY OR FH_FLAG_MTIME) \<and> fh_mtime h' = clock env (ticks s) \<and>
    content h' = file_truncate (content h) n"
proof -
  have ok: "buf_ok h" and t: "table_ok env s" using inv h by (simp_all add: fs_inv_def)
  obtain i where get: "bm_fh_get env (fh_ino h) s = Some (Some (p, i))"
    using bm_fh_get_found [OF t, of "fh_ino h" p] h(1) by (auto simp: handle_at_def)
  have big: "n \<le> 2 ^ 31" using len by linarith
  have u: "to_u32 n = n" using big by simp
  show ?thesis
  proof (cases "fh_data_len h < n")
    case False
    let ?h = "h\<lparr>fh_data_len := n, fh_mtime := clock env (ticks s),
      fh_flags := fh_flags h OR (FH_FLAG_DIRTY OR FH_FLAG_MTIME)\<rparr>"
    have "bm_truncate env (fh_ino h) p n s =
        Some (0, fh_put p ?h (s\<lparr>live_bufs := live_bufs s, ticks := ticks s + 1\<rparr>))"
      using h len False u by (simp add: bm_truncate_def get Let_def xgetrealtime_def)
    moreover have "content ?h = file_truncate (content h) n"
      using False ok by (auto simp: content_def file_truncate_def buf_ok_def min_def split: option.splits)
    moreover have "buf_ok ?h" using False ok buf_ok_truncate [of h n] by simp
    ultimately show ?thesis by (intro exI [of _ ?h] exI [of _ "live_bufs s"]) simp
  next
    case True
    obtain b m k where g: "(if fh_buf_len h < n then buf_grow env h n s else (h, s)) =
        (h\<lparr>fh_buf_len := m, fh_buf := Some b\<rparr>, s\<lparr>live_bufs := k\<rparr>)"
      and b: "length b = m" "n \<le> m" "m < 2 ^ 32" "take (fh_data_len h) b = content h"
    proof (cases "fh_buf_len h < n")
      case t: True
      from buf_grow_ok [OF ok t big, of env s] show thesis
        using that t ok by (auto simp: buf_ok_def)
    next
      case False
      then have "0 < fh_buf_len h" using True by simp
      then obtain b where b: "fh_buf h = Some b" using ok by (auto simp: buf_ok_def split: option.splits)
      show thesis
        using that [where b = b and m = "fh_buf_len h" and k = "live_bufs s"] False b ok
        by (simp add: buf_ok_def content_def)
    qed
    define b2 where "b2 = blit b (fh_data_len h) (replicate (n - fh_data_len h) 0)"
    let ?h = "h\<lparr>fh_buf_len := m, fh_buf := Some b2, fh_data_len := n, fh_mtime := clock env (ticks s),
      fh_flags := fh_flags h OR (FH_FLAG_DIRTY OR FH_FLAG_MTIME)\<rparr>"
    have p: "buf_put b (fh_data_len h) (replicate (n - fh_data_len h) 0) = Some b2"
      using b True by (simp add: buf_put_def b2_def)
    have "bm_truncate env (fh_ino h) p n s =
        Some (0, fh_put p ?h (s\<lparr>live_bufs := k, ticks := ticks s + 1\<rparr>))"
      using h len True u by (simp add: bm_truncate_def get g p Let_def xgetrealtime_def)
    moreover have "content ?h = file_truncate (content h) n"
      using truncate_bytes [of "fh_data_len h" b n] b True by (simp add: content_def b2_def)
    moreover have "buf_ok ?h" using b True by (simp add: buf_ok_def b2_def length_blit)
    ultimately show ?thesis by (intro exI [of _ ?h] exI [of _ k]) simp
  qed
qed

section \<open>Read\<close>

lemma fh_put_cong: "fh_put p h (s\<lparr>live_bufs := live_bufs s\<rparr>) = fh_put p h s"
  by simp

lemma bm_read_reply_ok:
  assumes "fh_heap s p = Some h" "buf_ok h"
  shows "bm_read_reply req buf_max off p s =
    Some (send_reply req (Reply_buf (file_read (content h) off buf_max)) s)"
proof -
  let ?off = "if fh_data_len h < off then fh_data_len h else off"
  let ?n = "if buf_max < fh_data_len h - ?off then buf_max else fh_data_len h - ?off"
  have le: "?off + ?n \<le> fh_data_len h" by auto
  have take: "buf_take (fh_buf h) (?off + ?n) = Some (take (?off + ?n) (content h))"
  proof (cases "fh_buf h")
    case None
    then show ?thesis using assms(2) le by (auto simp: buf_take_def buf_ok_def content_def)
  next
    case (Some b)
    then show ?thesis using assms(2) le by (auto simp: buf_take_def buf_ok_def content_def min_def)
  qed
  have "drop ?off (take (?off + ?n) (content h)) = file_read (content h) off buf_max"
    using length_content [OF assms(2)] by (auto simp: file_read_def drop_take)
  then show ?thesis
    unfolding bm_read_reply_def assms(1) bind.bind_lunit Let_def take by simp
qed

definition with_eol :: "fs_ctx \<Rightarrow> bytes \<Rightarrow> bytes" where
  "with_eol s val = val @ (if eol (ctx_flags s) then [10] else [])"

lemma length_with_eol: "length (with_eol s val) = length val + of_bool (eol (ctx_flags s))"
  by (simp add: with_eol_def)

lemma bm_read_cb_ok:
  assumes inv: "fs_inv env s" and h: "fh_heap s p = Some h" and val: "length val < 2 ^ 31"
  shows "\<exists>h' k. bm_read_cb env p val (Some s) = (0, Some (fh_put p h' (s\<lparr>live_bufs := k\<rparr>))) \<and>
    buf_ok h' \<and> fh_ino h' = fh_ino h \<and> fh_hashcode h' = fh_hashcode h \<and> refcount h' = refcount h \<and>
    fh_flags h' = fh_flags h \<and> fh_cookie h' = fh_cookie h \<and> fh_mtime h' = fh_mtime h \<and>
    content h' = with_eol s val \<and>
    k = live_bufs s + of_bool (fh_buf h = None \<and> fh_buf h' \<noteq> None)"
proof -
  let ?data = "with_eol s val"
  define n where "n = (if readonly (ctx_flags s) then length val + of_bool (eol (ctx_flags s))
    else length val + FH_BUF_RESERVED (length val))"
  have n: "length ?data \<le> n" "n < 2 ^ 32"
    using FH_BUF_RESERVED_bounds [of "length val"] val by (auto simp: n_def length_with_eol)
  have ok: "buf_ok h" using inv h by (simp add: fs_inv_def)
  have u: "to_u32 n = n" "to_u32 (length ?data) = length ?data" using n by simp_all
  obtain hb k where step: "(if fh_buf_len h < n
      then (h\<lparr>fh_buf := Some (junk_bytes env n), fh_buf_len := to_u32 n\<rparr>,
            s\<lparr>live_bufs := live_bufs s + of_bool (fh_buf h = None)\<rparr>)
      else (h, s)) = (hb, s\<lparr>live_bufs := k\<rparr>)"
    and hb: "fh_ino hb = fh_ino h" "fh_hashcode hb = fh_hashcode h" "refcount hb = refcount h"
      "fh_flags hb = fh_flags h" "fh_cookie hb = fh_cookie h" "fh_mtime hb = fh_mtime h"
      "k = live_bufs s + of_bool (fh_buf h = None \<and> fh_buf hb \<noteq> None)"
    and len: "case fh_buf hb of None \<Rightarrow> fh_buf_len hb = 0 \<and> ?data = []
        | Some b \<Rightarrow> length b = fh_buf_len hb \<and> length ?data \<le> length b" "fh_buf_len hb < 2 ^ 32"
  proof (cases "fh_buf_len h < n")
    case True
    show thesis
      by (rule that [of "h\<lparr>fh_buf := Some (junk_bytes env n), fh_buf_len := to_u32 n\<rparr>"
            "live_bufs s + of_bool (fh_buf h = None)"])
        (use True n u in simp_all)
  next
    case False
    show thesis
      by (rule that [of h "live_bufs s"])
        (use False n ok in \<open>auto simp: buf_ok_def split: option.splits\<close>)
  qed
  have cb: "bm_read_cb env p val (Some s) =
      (0, case fh_buf hb of
            None \<Rightarrow> (if ?data = [] then Some (fh_put p (hb\<lparr>fh_data_len := 0\<rparr>) (s\<lparr>live_bufs := k\<rparr>)) else None)
          | Some old \<Rightarrow> (if length old < length ?data then None
              else Some (fh_put p (hb\<lparr>fh_buf := Some (blit old 0 ?data), fh_data_len := to_u32 (length ?data)\<rparr>)
                     (s\<lparr>live_bufs := k\<rparr>))))"
    unfolding bm_read_cb_def bind.bind_lunit h Let_def
    using step unfolding n_def with_eol_def by (simp split: if_splits)
  show ?thesis
  proof (cases "fh_buf hb")
    case None
    then show ?thesis
      using cb len hb
      by (intro exI [of _ "hb\<lparr>fh_data_len := 0\<rparr>"] exI [of _ k]) (simp add: buf_ok_def content_def)
  next
    case (Some b)
    have "take (length ?data) (blit b 0 ?data) = ?data" by (simp add: blit_def)
    then show ?thesis
      using cb len hb Some u n
      by (intro exI [of _ "hb\<lparr>fh_buf := Some (blit b 0 ?data), fh_data_len := to_u32 (length ?data)\<rparr>"]
          exI [of _ k]) (simp add: buf_ok_def content_def length_blit)
  qed
qed

section \<open>Write-back\<close>

text \<open>What \<open>bm_do_write\<close> sends: the contents, less one newline at the end with the \<open>eol\<close> option.\<close>

definition without_eol :: "fs_ctx \<Rightarrow> bytes \<Rightarrow> bytes" where
  "without_eol s c = (if eol (ctx_flags s) \<and> c \<noteq> [] \<and> last c = 10 then butlast c else c)"

lemma without_with_eol [simp]: "without_eol s (with_eol s val) = val"
  by (simp add: without_eol_def with_eol_def)

lemma bm_do_write_clean:
  "fh_heap s p = Some h \<Longrightarrow> \<not> has_flag (fh_flags h) FH_FLAG_DIRTY \<Longrightarrow>
   bm_do_write B ino (Some p) s b = Some (0, s, b)"
  by (simp add: bm_do_write_def)

lemma bm_do_write_dirty:
  assumes h: "fh_heap s p = Some h" "buf_ok h" "has_flag (fh_flags h) FH_FLAG_DIRTY"
    "\<not> has_flag (fh_flags h) FH_FLAG_ISDIR" and ne: "eol (ctx_flags s) \<Longrightarrow> content h \<noteq> []"
  shows "bm_do_write B ino (Some p) s b =
    (let (status, b) = bookmark_set B b (INODE_SUBSYS_ID ino) None 0 (Content (without_eol s (content h)))
     in if status < 0 then Some (status, s, b)
        else (let (status, b) =
                (if has_flag (fh_flags h) FH_FLAG_MTIME
                 then bookmark_set B b (INODE_SUBSYS_ID ino) None SET_MTIME (Times timespec_zero (fh_mtime h))
                 else (0, b))
              in if status < 0 then Some (status, s, b)
                 else Some (0, fh_put p (clear_flag (FH_FLAG_DIRTY OR FH_FLAG_MTIME) h) s, b)))"
proof -
  have take: "buf_take (fh_buf h) k = Some (take k (content h))" if "k \<le> fh_data_len h" for k
    using that h(2) by (auto simp: buf_take_def buf_ok_def content_def min_def split: option.splits)
  note l = length_content [OF h(2)]
  show ?thesis
  proof (cases "eol (ctx_flags s)")
    case False
    then show ?thesis
      using h take [of "fh_data_len h"] l
      unfolding bm_do_write_def clear_flag_def Let_def by (simp add: without_eol_def)
  next
    case True
    then have pos: "0 < fh_data_len h" using ne l by (metis length_greater_0_conv)
    have at: "buf_at (fh_buf h) (int (fh_data_len h) - 1) = Some (last (content h))"
    proof -
      obtain bs where bs: "fh_buf h = Some bs" using ne True by (cases "fh_buf h") (auto simp: content_def)
      have "last (content h) = bs ! (fh_data_len h - 1)"
        using ne True l pos by (simp add: last_conv_nth) (simp add: content_def bs)
      then show ?thesis
        using h(2) pos by (auto simp: buf_at_def bs buf_ok_def nat_diff_distrib)
    qed
    have "take (fh_data_len h - 1) (content h) = butlast (content h)"
      using l by (simp add: butlast_conv_take)
    then show ?thesis
      using h take [of "fh_data_len h"] take [of "fh_data_len h - 1"] l True ne at
      unfolding bm_do_write_def clear_flag_def Let_def by (simp add: without_eol_def)
  qed
qed

text \<open>With the option and nothing written, the byte before the buffer is read.\<close>

lemma bm_do_write_empty_eol:
  assumes "fh_heap s p = Some h" "has_flag (fh_flags h) FH_FLAG_DIRTY" "fh_data_len h = 0"
    "eol (ctx_flags s)"
  shows "bm_do_write B ino (Some p) s b = None"
  using assms by (simp add: bm_do_write_def buf_at_def bind_eq_None_conv)

end
