(* ===== verification/Fs_Step.thy ===== *)
theory Fs_Step
  imports Fs_File_Correct
begin

text \<open>
  The state invariant over whole requests: every operation of \<open>fs_ops.c\<close> keeps the handle table,
  the buffers and the mount options consistent, and answers its request.
\<close>

section \<open>What the code relies on in a backend\<close>

text \<open>
  \<open>bookmark_get\<close> either hands one value (shorter than 2 GiB) to the callback and returns what the
  callback returned, or fails without calling it; \<open>bookmark_list\<close> calls its callback on some
  sequence of entries.
\<close>

definition backend_ok :: "'b backend \<Rightarrow> bool" where
  "backend_ok B \<longleftrightarrow>
     (\<forall>b i x cb w c r c' w' b'. bookmark_get B b i x cb w c = (r, c', w', b') \<longrightarrow>
        (\<exists>v. length v < 2 ^ 31 \<and> (r, w') = cb v w) \<or> r < 0 \<and> w' = w) \<and>
     (\<forall>b i off flags cb w c r c' w' b'.
        bookmark_list B b i off flags (Some cb) w c = (r, c', w', b') \<longrightarrow>
        (\<exists>es. w' = fold (\<lambda>e w. snd (cb e w)) es w))"

lemma backend_get:
  assumes "backend_ok B" "bookmark_get B b i x cb w c = (r, c', w', b')"
  shows "(\<exists>v. length v < 2 ^ 31 \<and> (r, w') = cb v w) \<or> r < 0 \<and> w' = w"
  using assms unfolding backend_ok_def by metis

lemma backend_list:
  assumes "backend_ok B" "bookmark_list B b i off flags (Some cb) w c = (r, c', w', b')"
  shows "\<exists>es. w' = fold (\<lambda>e w. snd (cb e w)) es w"
  using assms unfolding backend_ok_def by metis

section \<open>Steps that do not reply\<close>

definition opts :: "fs_ctx \<Rightarrow> fs_flags \<times> nat \<times> u64 \<times> u64 \<times> bytes \<times> u32 \<times> u32" where
  "opts s = (ctx_flags s, file_max s, bookmarks_root_id s, tags_root_id s, xattr_names s, ctx_uid s, ctx_gid s)"

definition quiet :: "env \<Rightarrow> fs_ctx \<Rightarrow> fs_ctx \<Rightarrow> bool" where
  "quiet env s s' \<longleftrightarrow> fs_inv env s' \<and> replies s' = replies s \<and> opts s' = opts s \<and>
     length (ctx_buf s) \<le> length (ctx_buf s')"

definition answers :: "env \<Rightarrow> fuse_req \<Rightarrow> int \<Rightarrow> fs_ctx \<Rightarrow> fs_ctx \<Rightarrow> bool" where
  "answers env req status s s' \<longleftrightarrow> fs_inv env s' \<and> opts s' = opts s \<and>
     length (ctx_buf s) \<le> length (ctx_buf s') \<and>
     (if status < 0 then replies s' = replies s else \<exists>r. replies s' = replies s @ [(req, r)])"

named_theorems quiet_intros

lemma opts_ignore [simp]:
  "opts (s\<lparr>live_bufs := n\<rparr>) = opts s" "opts (s\<lparr>ctx_buf := bs\<rparr>) = opts s" "opts (s\<lparr>invals := is\<rparr>) = opts s"
  "opts (s\<lparr>ticks := k\<rparr>) = opts s" "opts (s\<lparr>replies := rs\<rparr>) = opts s" "opts (fh_put p h s) = opts s"
  "opts (send_reply req r s) = opts s" "opts (reply_err req st s) = opts s"
  "opts (s\<lparr>fh_map := m\<rparr>) = opts s" "opts (s\<lparr>fh_heap := hp\<rparr>) = opts s" "opts (s\<lparr>next_ptr := np\<rparr>) = opts s"
  by (simp_all add: opts_def fh_put_def send_reply_def reply_err_def)

lemma frame_ignore [simp]:
  "replies (fh_put p h s) = replies s" "ctx_buf (fh_put p h s) = ctx_buf s"
  "ctx_flags (fh_put p h s) = ctx_flags s" "file_max (fh_put p h s) = file_max s"
  "fh_heap (fh_put p h s) = (fh_heap s)(p \<mapsto> h)" "fh_map (fh_put p h s) = fh_map s"
  "next_ptr (fh_put p h s) = next_ptr s" "live_bufs (fh_put p h s) = live_bufs s"
  "ticks (fh_put p h s) = ticks s" "invals (fh_put p h s) = invals s"
  "replies (send_reply req r s) = replies s @ [(req, r)]" "ctx_buf (send_reply req r s) = ctx_buf s"
  "ctx_flags (send_reply req r s) = ctx_flags s" "fh_heap (send_reply req r s) = fh_heap s"
  "replies (reply_err req st s) = replies s @ [(req, Reply_err (- st))]"
  "ctx_buf (reply_err req st s) = ctx_buf s" "ctx_flags (reply_err req st s) = ctx_flags s"
  "fh_heap (reply_err req st s) = fh_heap s" "invals (reply_err req st s) = invals s"
  "live_bufs (reply_err req st s) = live_bufs s" "live_bufs (send_reply req r s) = live_bufs s"
  by (simp_all add: fh_put_def send_reply_def reply_err_def)

lemma quiet_refl [quiet_intros]: "fs_inv env s \<Longrightarrow> quiet env s s"
  by (simp add: quiet_def)

lemma quiet_inv: "quiet env s s' \<Longrightarrow> fs_inv env s'"
  by (simp add: quiet_def)

lemma quiet_flags: "quiet env s s' \<Longrightarrow> ctx_flags s' = ctx_flags s \<and> file_max s' = file_max s"
  by (simp add: quiet_def opts_def)

lemma quiet_trans: "quiet env s s1 \<Longrightarrow> quiet env s1 s2 \<Longrightarrow> quiet env s s2"
  by (simp add: quiet_def)

lemma quiet_answers: "quiet env s s1 \<Longrightarrow> answers env req st s1 s2 \<Longrightarrow> answers env req st s s2"
  by (auto simp: quiet_def answers_def)

lemma quiet_fail: "quiet env s s' \<Longrightarrow> st < 0 \<Longrightarrow> answers env req st s s'"
  by (simp add: quiet_def answers_def)

lemma quiet_reply: "quiet env s s' \<Longrightarrow> 0 \<le> st \<Longrightarrow> answers env req st s (send_reply req r s')"
  by (simp add: quiet_def answers_def)

lemma quiet_ignore [simp]:
  "quiet env s (s'\<lparr>live_bufs := n\<rparr>) = quiet env s s'"
  "quiet env s (s'\<lparr>invals := is\<rparr>) = quiet env s s'"
  "quiet env s (s'\<lparr>ticks := k\<rparr>) = quiet env s s'"
  by (simp_all add: quiet_def)

lemma quiet_buf:
  "quiet env s s' \<Longrightarrow> length (ctx_buf s') \<le> length bs \<Longrightarrow> quiet env s (s'\<lparr>ctx_buf := bs\<rparr>)"
  by (simp add: quiet_def)

lemma quiet_put:
  assumes "quiet env s s'" "fh_heap s' p = Some h0" "fh_ino h = fh_ino h0" "fh_hashcode h = fh_hashcode h0"
    "buf_ok h"
  shows "quiet env s (fh_put p h s')"
  using assms fs_inv_fh_put [of env s' p h0 h] by (simp add: quiet_def)

lemma fs_inv_buf_ok: "fs_inv env s \<Longrightarrow> fh_heap s p = Some h \<Longrightarrow> buf_ok h"
  by (simp add: fs_inv_def)

lemma quiet_put_same:
  assumes "quiet env s s'" "fh_heap s' p = Some h0" "fh_ino h = fh_ino h0" "fh_hashcode h = fh_hashcode h0"
    "buf_ok h0 \<Longrightarrow> buf_ok h"
  shows "quiet env s (fh_put p h s')"
  using assms quiet_put quiet_inv fs_inv_buf_ok by metis

lemma quiet_update:
  assumes "quiet env s s'" "fh_update fhp f s' = Some s''"
    "\<And>h. fh_ino (f h) = fh_ino h \<and> fh_hashcode (f h) = fh_hashcode h \<and> (buf_ok h \<longrightarrow> buf_ok (f h))"
  shows "quiet env s s''"
  using assms by (auto simp: fh_update_def split: bind_splits intro!: quiet_put_same)

lemma flag_neutral [simp]:
  "fh_ino (set_flag f h) = fh_ino h" "fh_hashcode (set_flag f h) = fh_hashcode h"
  "fh_ino (clear_flag f h) = fh_ino h" "fh_hashcode (clear_flag f h) = fh_hashcode h"
  "buf_ok (set_flag f h) = buf_ok h" "buf_ok (clear_flag f h) = buf_ok h"
  "content (set_flag f h) = content h" "content (clear_flag f h) = content h"
  "refcount (set_flag f h) = refcount h" "refcount (clear_flag f h) = refcount h"
  by (simp_all add: set_flag_def clear_flag_def)

text \<open>The handle flags are single bits.\<close>

lemma has_flag_power: "has_flag g (2 ^ k) \<longleftrightarrow> bit g k"
  by (simp add: has_flag_def and_power_flag)

lemma fh_flag_powers: "FH_FLAG_DIRTY = 2 ^ 0" "FH_FLAG_FSCK = 2 ^ 1" "FH_FLAG_ISDIR = 2 ^ 2" "FH_FLAG_MTIME = 2 ^ 3"
  by (simp_all add: fh_flag_defs)

lemma dirty_flags:
  "has_flag (f OR (FH_FLAG_DIRTY OR FH_FLAG_MTIME)) FH_FLAG_DIRTY"
  "has_flag (f OR (FH_FLAG_DIRTY OR FH_FLAG_MTIME)) FH_FLAG_MTIME"
  "has_flag (f OR (FH_FLAG_DIRTY OR FH_FLAG_MTIME)) FH_FLAG_ISDIR = has_flag f FH_FLAG_ISDIR"
  unfolding fh_flag_powers has_flag_power by (simp_all add: bit_simps)

lemma clean_flags:
  "\<not> has_flag (fh_flags (clear_flag (FH_FLAG_DIRTY OR FH_FLAG_MTIME) h)) FH_FLAG_DIRTY"
  unfolding fh_flag_powers has_flag_power clear_flag_def by (simp add: bit_simps)

lemma set_flag_has:
  "has_flag (fh_flags (set_flag FH_FLAG_DIRTY h)) FH_FLAG_DIRTY"
  "has_flag (fh_flags (set_flag FH_FLAG_FSCK h)) FH_FLAG_FSCK"
  "has_flag (fh_flags (set_flag FH_FLAG_ISDIR h)) FH_FLAG_ISDIR"
  unfolding fh_flag_powers has_flag_power set_flag_def by (simp_all add: bit_simps)

section \<open>The shared helpers\<close>

lemma bm_fh_new_quiet:
  assumes "fs_inv env s" "bm_fh_new env ino s = Some (p, s')"
  shows "quiet env s s' \<and> handle_at s' ino p"
proof -
  have "opts s' = opts s"
    using assms(2) by (auto simp: bm_fh_new_def Let_def split: bind_splits option.splits)
  then show ?thesis using bm_fh_new_ok [OF assms] by (simp add: quiet_def)
qed

lemma inval_inode_quiet:
  "quiet env s0 s \<Longrightarrow> inval_inode env ino s = (st, s') \<Longrightarrow> quiet env s0 s' \<and> fh_heap s' = fh_heap s"
  by (auto simp: inval_inode_def)

lemma xgetrealtime_quiet:
  "quiet env s0 s \<Longrightarrow> xgetrealtime env s = (t, s') \<Longrightarrow> quiet env s0 s' \<and> fh_heap s' = fh_heap s"
  by (auto simp: xgetrealtime_def)

lemma inval_dir_quiet:
  assumes "fs_inv env s" "inval_dir env ino fhp s = Some (st, s')"
  shows "quiet env s s' \<and> (\<forall>p. fh_heap s' p = None \<longleftrightarrow> fh_heap s p = None)"
proof -
  have q: "quiet env s s" using assms(1) by (rule quiet_refl)
  have *: "quiet env s (fh_put p (h\<lparr>fh_flags := f\<rparr>) (s\<lparr>invals := il\<rparr>))" if "fh_heap s p = Some h" for p h f il
    using quiet_put_same [of env s "s\<lparr>invals := il\<rparr>" p h "h\<lparr>fh_flags := f\<rparr>"] q that by simp
  show ?thesis
    using assms(2) q * by (auto simp: inval_dir_def inval_inode_def split: if_splits bind_splits)
qed

lemma bm_fh_free_quiet:
  assumes "fs_inv env s" "bm_fh_free p n s = Some s'" "fh_heap s p \<noteq> None" "n < 0 \<or> id_of (fh_map s) p n"
  shows "quiet env s s'"
proof -
  obtain h where "fh_heap s p = Some h" using assms(3) by blast
  from bm_fh_free_ok [OF assms(1) this assms(4)] have
    "fs_inv env s'" "replies s' = replies s" "ctx_buf s' = ctx_buf s" using assms(2) by auto
  moreover have "opts s' = opts s" using assms(2) by (auto simp: bm_fh_free_def split: bind_splits)
  ultimately show ?thesis by (simp add: quiet_def)
qed

section \<open>File operations\<close>

lemma bm_do_write_quiet:
  assumes "fs_inv env s" "bm_do_write B ino fhp s b = Some (st, s', b')"
  shows "quiet env s s' \<and> (\<forall>p. fh_heap s' p = None \<longleftrightarrow> fh_heap s p = None)"
proof -
  have q: "quiet env s s" using assms(1) by (rule quiet_refl)
  have "quiet env s (fh_put p (h\<lparr>fh_flags := f\<rparr>) s)" if "fh_heap s p = Some h" for p h f
    using quiet_put_same [of env s s p h "h\<lparr>fh_flags := f\<rparr>"] q that by simp
  then show ?thesis
    using assms(2) q
    by (auto simp: bm_do_write_def Let_def split: option.splits if_splits bind_splits prod.splits)
qed

lemma bm_open_quiet:
  assumes "fs_inv env s" "bm_open env ino fi s = Some (fi', s')"
  shows "quiet env s s' \<and> handle_at s' ino (fi_fh fi')"
proof -
  obtain p s1 h where 1: "bm_fh_new env ino s = Some (p, s1)" "fh_heap s1 p = Some h"
    using assms(2) by (auto simp: bm_open_def split: bind_splits)
  from bm_fh_new_quiet [OF assms(1) 1(1)] have q: "quiet env s s1" "handle_at s1 ino p" by simp_all
  then have ino: "fh_ino h = ino" using 1(2) by (simp add: handle_at_def)
  have ok: "buf_ok h" using q 1 by (meson quiet_inv fs_inv_buf_ok)
  have "quiet env s (fh_put p (h\<lparr>fh_data_len := 0, fh_mtime := m, fh_flags := f\<rparr>) (s1\<lparr>ticks := k\<rparr>))" for m f k
    using quiet_put [of env s "s1\<lparr>ticks := k\<rparr>" p h "h\<lparr>fh_data_len := 0, fh_mtime := m, fh_flags := f\<rparr>"]
      q 1 ok buf_ok_truncate [OF ok, of 0] by simp
  moreover have "fi_fh fi' = p" "s' = s1 \<or> (\<exists>m f k. s' =
      fh_put p (h\<lparr>fh_data_len := 0, fh_mtime := m, fh_flags := f\<rparr>) (s1\<lparr>ticks := k\<rparr>))"
    using assms(2) 1 by (auto simp: bm_open_def xgetrealtime_def Let_def split: if_splits)
  ultimately show ?thesis using q 1(2) ino by (auto simp: handle_at_def)
qed

lemma bm_free_quiet:
  assumes inv: "fs_inv env s" and step: "bm_free env B ino fi s b = Some (st, s', b')"
  shows "quiet env s s'"
proof -
  let ?p = "fi_fh fi"
  obtain h where h: "fh_heap s ?p = Some h" using step by (auto simp: bm_free_def split: bind_splits)
  let ?h = "h\<lparr>refcount := refcount h - 1\<rparr>"
  let ?s = "fh_put ?p ?h s"
  have q: "quiet env s ?s"
    using quiet_put_same [OF quiet_refl [OF inv] h, of ?h] by simp
  show ?thesis
  proof (cases "0 < refcount ?h")
    case True
    then show ?thesis using step h q by (simp add: bm_free_def)
  next
    case False
    obtain st1 s1 b1 where w: "bm_do_write B ino (Some ?p) ?s b = Some (st1, s1, b1)"
      using step h False by (auto simp: bm_free_def Let_def split: bind_splits)
    have q1: "quiet env s s1" and live: "fh_heap s1 ?p \<noteq> None"
      using bm_do_write_quiet [OF quiet_inv [OF q] w] quiet_trans [OF q] by auto
    define s2 where "s2 = (if readonly (ctx_flags s1) \<or> fh_buf h = None
        then (if st1 \<noteq> 0 then s1\<lparr>invals := invals s1 @ [ino]\<rparr> else s1)
        else (if st1 \<noteq> 0 then s1\<lparr>invals := invals s1 @ [ino]\<rparr> else s1)\<lparr>live_bufs := live_bufs s1 - 1\<rparr>)"
    have "quiet env s s2" "fh_heap s2 = fh_heap s1" using q1 by (simp_all add: s2_def)
    moreover have "bm_fh_free ?p (-1) s2 = Some s'"
      using step h False w unfolding bm_free_def s2_def
      by (auto simp: Let_def inval_inode_def split: bind_splits if_splits)
    ultimately show ?thesis
      using bm_fh_free_quiet [of env s2 ?p "-1" s'] live quiet_inv quiet_trans
      by (metis less_minus_one_simps(1))
  qed
qed

lemma bm_read_cb_quiet:
  assumes "fs_inv env s" "fh_heap s p = Some h" "length val < 2 ^ 31"
    "bm_read_cb env p val (Some s) = (r, w)"
  shows "r = 0 \<and> (\<exists>s' h'. w = Some s' \<and> quiet env s s' \<and> fh_heap s' p = Some h' \<and>
    fh_ino h' = fh_ino h \<and> fh_hashcode h' = fh_hashcode h)"
proof -
  obtain h' k where 1: "bm_read_cb env p val (Some s) = (0, Some (fh_put p h' (s\<lparr>live_bufs := k\<rparr>)))"
    "buf_ok h'" "fh_ino h' = fh_ino h" "fh_hashcode h' = fh_hashcode h"
    using bm_read_cb_ok [OF assms(1-3)] by blast
  have "quiet env s (fh_put p h' (s\<lparr>live_bufs := k\<rparr>))"
    using quiet_put [of env s "s\<lparr>live_bufs := k\<rparr>" p h h'] assms(1,2) 1 by (simp add: quiet_refl)
  then show ?thesis using 1 assms(4) by auto
qed

lemma bm_read_reply_answers:
  assumes "quiet env s0 s" "bm_read_reply req n off p s = Some s'" "0 \<le> st"
  shows "answers env req st s0 s'"
proof -
  obtain r where "s' = send_reply req r s"
    using assms(2) by (auto simp: bm_read_reply_def Let_def split: bind_splits)
  then show ?thesis using quiet_reply [OF assms(1,3)] by simp
qed

lemma bm_read_answers:
  assumes B: "backend_ok B" and inv: "fs_inv env s"
    and step: "bm_read env B req ino n off p s b = Some (st, s', b')"
  shows "answers env req st s s'"
proof -
  obtain h where h: "fh_heap s p = Some h" using step by (auto simp: bm_read_def split: bind_splits)
  have q: "quiet env s s" using inv by (rule quiet_refl)
  show ?thesis
  proof (cases "has_flag (fh_flags h) FH_FLAG_DIRTY \<or> exclusive (ctx_flags s) \<and> fh_buf h \<noteq> None")
    case True
    then show ?thesis
      using step h bm_read_reply_answers [OF q] unfolding bm_read_def by (auto split: bind_splits)
  next
    case False
    let ?c = "if exclusive (ctx_flags s) then None else Some (fh_cookie h)"
    obtain r c w b1 where get:
      "bookmark_get B b (INODE_SUBSYS_ID ino) None (bm_read_cb env p) (Some s) ?c = (r, c, w, b1)"
      by (metis prod_cases4)
    have w: "\<exists>s1 h1. w = Some s1 \<and> quiet env s s1 \<and> fh_heap s1 p = Some h1"
      using backend_get [OF B get] bm_read_cb_quiet [OF inv h] q h by (metis (no_types, lifting))
    then obtain s1 h1 where 1: "w = Some s1" "quiet env s s1" "fh_heap s1 p = Some h1" by blast
    define s2 where "s2 = (if ?c = None then s1 else fh_put p (h1\<lparr>fh_cookie := c\<rparr>) s1)"
    have q2: "quiet env s s2"
      using 1 quiet_put_same [OF 1(2,3), of "h1\<lparr>fh_cookie := c\<rparr>"] by (simp add: s2_def)
    have "(r < 0 \<and> st = r \<and> s' = s2) \<or> (st = 0 \<and> bm_read_reply req n off p s2 = Some s')"
      using step False get 1 unfolding bm_read_def h s2_def
      by (auto simp: Let_def split: if_splits bind_splits)
    then show ?thesis using quiet_fail [OF q2] bm_read_reply_answers [OF q2] by auto
  qed
qed

lemma bm_write_answers:
  assumes inv: "fs_inv env s" and big: "file_max s \<le> 2 ^ 31" and ne: "buf \<noteq> []"
    and step: "bm_write env req flags buf off p s = Some (st, s')"
  shows "answers env req st s s'"
proof -
  obtain h where h: "fh_heap s p = Some h"
    using step ne by (auto simp: bm_write_def split: bind_splits if_splits)
  show ?thesis
  proof (cases "file_max s < length buf + (if flags AND O_APPEND \<noteq> 0 then fh_data_len h else off)")
    case True
    then have "st = - EFBIG" "s' = s"
      using bm_write_too_big [OF h ne, where flags = flags and off = off and env = env and req = req] step by auto
    then show ?thesis using quiet_fail [OF quiet_refl [OF inv], of st] by (simp add: EFBIG_def)
  next
    case False
    then obtain h' k where 1: "bm_write env req flags buf off p s = Some (0, send_reply req
        (Reply_write (length buf)) (fh_put p h' (s\<lparr>live_bufs := k, ticks := ticks s + 1\<rparr>)))"
      "buf_ok h'" "fh_ino h' = fh_ino h" "fh_hashcode h' = fh_hashcode h"
      using bm_write_ok [OF inv h ne _ big, where flags = flags and off = off and req = req] by (meson not_le)
    have "quiet env s (fh_put p h' (s\<lparr>live_bufs := k, ticks := ticks s + 1\<rparr>))"
      using quiet_put [of env s "s\<lparr>live_bufs := k, ticks := ticks s + 1\<rparr>" p h h'] inv h 1
      by (simp add: quiet_refl)
    from quiet_reply [OF this, of 0] show ?thesis using step 1(1) by auto
  qed
qed

lemma bm_truncate_quiet:
  assumes inv: "fs_inv env s" and big: "file_max s \<le> 2 ^ 31"
    and step: "bm_truncate env ino p n s = Some (st, s')"
  shows "quiet env s s'"
proof -
  obtain i h where get: "bm_fh_get env ino s = Some (Some (p, i))" and h: "fh_heap s p = Some h"
    and dir: "\<not> has_flag (fh_flags h) FH_FLAG_ISDIR"
    using step by (auto simp: bm_truncate_def split: bind_splits if_splits)
  have "fh_ino h = ino"
    using bm_fh_get_SomeD [OF _ get] inv h by (auto simp: fs_inv_def handle_at_def)
  show ?thesis
  proof (cases "file_max s < n")
    case True
    then show ?thesis using step get h dir quiet_refl [OF inv] by (auto simp: bm_truncate_def)
  next
    case False
    then obtain h' k where 1: "bm_truncate env ino p n s =
        Some (0, fh_put p h' (s\<lparr>live_bufs := k, ticks := ticks s + 1\<rparr>))"
      "buf_ok h'" "fh_ino h' = fh_ino h" "fh_hashcode h' = fh_hashcode h"
      using bm_truncate_ok [OF inv h dir _ big, of n] \<open>fh_ino h = ino\<close> by (metis not_less)
    have "quiet env s (fh_put p h' (s\<lparr>live_bufs := k, ticks := ticks s + 1\<rparr>))"
      using quiet_put [of env s "s\<lparr>live_bufs := k, ticks := ticks s + 1\<rparr>" p h h'] inv h 1
      by (simp add: quiet_refl)
    then show ?thesis using step 1(1) by auto
  qed
qed

lemma bm_set_times_quiet:
  assumes inv: "fs_inv env s" and step: "bm_set_times env B ino m is_tag stat_buf s b = Some (st, s', b')"
  shows "quiet env s s'"
proof -
  have "quiet env s (fh_put p (h\<lparr>fh_flags := f\<rparr>) s)" if "fh_heap s p = Some h" for p h f
    using quiet_put_same [of env s s p h "h\<lparr>fh_flags := f\<rparr>"] quiet_refl [OF inv] that by simp
  moreover have "quiet env s (fh_put p (h\<lparr>fh_flags := f\<rparr>) (s\<lparr>ticks := k\<rparr>))" if "fh_heap s p = Some h" for p h f k
    using quiet_put_same [of env s "s\<lparr>ticks := k\<rparr>" p h "h\<lparr>fh_flags := f\<rparr>"] quiet_refl [OF inv] that by simp
  ultimately show ?thesis
    using step quiet_refl [OF inv] unfolding bm_set_times_def Let_def xgetrealtime_def
    by (auto split: prod.splits bind_splits option.splits if_splits)
qed

lemma bm_setattr_quiet:
  assumes inv: "fs_inv env s" and big: "file_max s \<le> 2 ^ 31"
    and step: "bm_setattr env B ino m is_tag fi stat_buf s b = Some (st, attr, s', b')"
  shows "quiet env s s'"
  using step quiet_refl [OF inv] bm_truncate_quiet [OF inv big] bm_set_times_quiet [OF inv]
  unfolding bm_setattr_def by (auto split: bind_splits if_splits)

lemma bm_getxattr_answers:
  assumes B: "backend_ok B" and inv: "fs_inv env s"
    and step: "bm_getxattr B req ino name n s b = Some (st, s', b')"
  shows "answers env req st s s'"
proof (cases "is_xattr_name name s")
  case False
  then have "st = - ENOATTR" "s' = s" using step by (auto simp: bm_getxattr_def)
  then show ?thesis using quiet_fail [OF quiet_refl [OF inv], of st] by (simp add: ENOATTR_def ENODATA_def)
next
  case True
  obtain r c w b1 where get: "bookmark_get B b (INODE_SUBSYS_ID ino)
      (Some (drop (length BOOKMARKFS_XATTR_PREFIX) name)) (bm_getxattr_cb req n) (Some s) None = (r, c, w, b1)"
    by (metis prod_cases4)
  then have res: "w = Some s'" "st = r"
    using step True by (auto simp: bm_getxattr_def split: bind_splits)
  have "(\<exists>v. (r, w) = bm_getxattr_cb req n v (Some s)) \<or> r < 0 \<and> w = Some s"
    using backend_get [OF B get] by blast
  then show ?thesis
    using res quiet_refl [OF inv] quiet_fail quiet_reply [OF quiet_refl [OF inv], of 0]
    by (auto simp: bm_getxattr_cb_def ERANGE_def split: if_splits)
qed

section \<open>Directory operations\<close>

lemma bm_syncdir_quiet:
  "fs_inv env s \<Longrightarrow> bm_syncdir env ino s = Some (st, s') \<Longrightarrow> quiet env s s'"
  using inval_dir_quiet by (auto simp: bm_syncdir_def split: bind_splits)

lemma intfs_syncdir_quiet:
  "fs_inv env s \<Longrightarrow> intfs_syncdir env ino s = Some (st, s') \<Longrightarrow> quiet env s s'"
  using bm_syncdir_quiet quiet_refl by (auto simp: intfs_syncdir_def split: if_splits)

lemma length_blit_ge: "length buf \<le> length (blit buf off src)"
  by (auto simp: blit_def)

lemma bm_check_quiet:
  assumes inv: "fs_inv env s" and step: "bm_check B parent data flags wc cookie s b = (r, s', b')"
  shows "quiet env s s'"
  using step quiet_refl [OF inv] quiet_buf [OF quiet_refl [OF inv] length_blit_ge]
  by (auto simp: bm_check_def Let_def split: option.splits prod.splits if_splits)

lemma ioctl_reply_answers:
  "quiet env s0 s \<Longrightarrow> ioctl_reply req r n s b = Some (st, s', b') \<Longrightarrow> answers env req st s0 s'"
  using quiet_reply [of env s0 s 0] by (auto simp: ioctl_reply_def)

lemma bm_ioctl_answers:
  assumes inv: "fs_inv env s"
    and step: "bm_ioctl env B req ino cmd flags ibuf n cookie s b = Some (st, s', b')"
  shows "answers env req st s s'"
proof -
  have q: "quiet env s s" using inv by (rule quiet_refl)
  have upd: "quiet env s s2" if "quiet env s s1" "fh_update fhp (clear_flag f) s1 = Some s2" for s1 s2 fhp f
    using quiet_update [OF that] by simp
  have upd': "quiet env s s2" if "quiet env s s1" "fh_update fhp (set_flag f) s1 = Some s2" for s1 s2 fhp f
    using quiet_update [OF that] by simp
  have upd'': "quiet env s s2"
    if "quiet env s s1" "fh_update fhp (\<lambda>h. set_flag f (h\<lparr>fh_cookie := cookie\<rparr>)) s1 = Some s2" for s1 s2 fhp f
    using quiet_update [OF that] by simp
  obtain r where get: "bm_fh_get env ino s = Some r"
    using step by (auto simp: bm_ioctl_def split: bind_splits)
  have chk: "quiet env s s1" if "bm_check B ino data flags wc cookie s b = (res, s1, b1)" for data wc res s1 b1
    using bm_check_quiet [OF inv that] .
  note step' = step [unfolded bm_ioctl_def get bind.bind_lunit Let_def]
  consider "cmd = IOC_FSCK_REWIND" | "cmd = IOC_FSCK_NEXT" "cmd \<noteq> IOC_FSCK_REWIND"
    | "cmd = IOC_FSCK_APPLY" "cmd \<noteq> IOC_FSCK_REWIND" "cmd \<noteq> IOC_FSCK_NEXT"
    | "cmd = IOC_PERMD" "cmd \<noteq> IOC_FSCK_REWIND" "cmd \<noteq> IOC_FSCK_NEXT" "cmd \<noteq> IOC_FSCK_APPLY"
    | "cmd \<noteq> IOC_FSCK_REWIND" "cmd \<noteq> IOC_FSCK_NEXT" "cmd \<noteq> IOC_FSCK_APPLY" "cmd \<noteq> IOC_PERMD"
    by blast
  then show ?thesis
  proof cases
    case 1
    obtain res s1 b1 where c: "bm_check B ino None flags False cookie s b = (res, s1, b1)"
      by (metis prod_cases3)
    show ?thesis
      using step' 1 c chk [OF c]
      by (auto split: if_splits bind_splits intro: ioctl_reply_answers [rotated] upd [rotated])
  next
    case 2
    obtain res s1 b1 where c: "bm_check B ino None flags True cookie s b = (res, s1, b1)"
      by (metis prod_cases3)
    show ?thesis
      using step' 2 c chk [OF c] q
      by (auto simp: EACCES_def EBUSY_def split: if_splits bind_splits
          intro: ioctl_reply_answers [rotated] upd [rotated] upd'' [rotated] quiet_fail)
  next
    case 3
    obtain res s1 b1 where c: "bm_check B ino (Some (fsck_decode ibuf)) flags True cookie s b = (res, s1, b1)"
      by (metis prod_cases3)
    show ?thesis
      using step' 3 c chk [OF c] q
      by (auto simp: EACCES_def EROFS_def split: if_splits bind_splits
          intro: ioctl_reply_answers [rotated] upd' [rotated] quiet_fail)
  next
    case 4
    show ?thesis
      using step' 4 q
      by (auto simp: EACCES_def EROFS_def split: if_splits bind_splits prod.splits
          intro: ioctl_reply_answers [rotated] upd' [rotated] quiet_fail)
  next
    case 5
    then show ?thesis using step' quiet_fail [OF q] by (simp add: ENOTTY_def)
  qed
qed

lemma bm_opendir_quiet:
  assumes inv: "fs_inv env s"
    and step: "bm_opendir env B ino flags fi s b = Some (st, fi', s', b')"
  shows "quiet env s s'"
proof -
  obtain r c w b1 where l: "bookmark_list B b (INODE_SUBSYS_ID ino) 0 flags None None NULL = (r, c, w, b1)"
    by (metis prod_cases4)
  show ?thesis
  proof (cases "r < 0")
    case True
    then show ?thesis using step l quiet_refl [OF inv] by (simp add: bm_opendir_def)
  next
    case False
    then obtain p s1 s2 where 1: "bm_fh_new env ino s = Some (p, s1)"
      "fh_update (Some p) (set_flag FH_FLAG_ISDIR) s1 = Some s2" "s' = s2"
      using step l by (auto simp: bm_opendir_def Let_def split: bind_splits)
    have "quiet env s s1" using bm_fh_new_quiet [OF inv 1(1)] by simp
    from quiet_update [OF this 1(2)] show ?thesis using 1(3) by simp
  qed
qed

lemma inval_dir_map: "inval_dir env ino fhp s = Some (st, s') \<Longrightarrow> fh_map s' = fh_map s"
  by (auto simp: inval_dir_def inval_inode_def split: if_splits bind_splits)

lemma bm_freedir_quiet:
  assumes inv: "fs_inv env s"
    and step: "bm_freedir env B ino cookie s b = Some (st, s', b')"
  shows "quiet env s s'"
proof -
  obtain p i h where get: "bm_fh_get env ino s = Some (Some (p, i))" and h: "fh_heap s p = Some h"
    using step by (auto simp: bm_freedir_def Let_def split: bind_splits)
  have id: "id_of (fh_map s) p i" using bm_fh_get_SomeD [OF _ get] inv by (simp add: fs_inv_def)
  define h0 where "h0 = (if has_flag (fh_flags h) FH_FLAG_FSCK \<and> fh_cookie h = cookie
                  then clear_flag FH_FLAG_FSCK h else h)"
  let ?h = "h0\<lparr>refcount := refcount h0 - 1\<rparr>"
  have q: "quiet env s (fh_put p ?h s)"
    using quiet_put_same [OF quiet_refl [OF inv] h, of ?h] by (simp add: h0_def)
  have eq: "bm_freedir env B ino cookie s b =
      (if 0 < refcount ?h then Some (0, fh_put p ?h s, cookie_free B b cookie True)
       else do {
         (st, s) \<leftarrow> inval_dir env ino (Some p) (fh_put p ?h s);
         s \<leftarrow> bm_fh_free p i s;
         Some (st, s, cookie_free B b cookie True)
       })"
    unfolding bm_freedir_def get bind.bind_lunit prod.case h Let_def h0_def by simp
  show ?thesis
  proof (cases "0 < refcount ?h")
    case True
    then show ?thesis using step q unfolding eq by auto
  next
    case False
    then obtain st1 s1 where 1: "inval_dir env ino (Some p) (fh_put p ?h s) = Some (st1, s1)"
      "bm_fh_free p i s1 = Some s'"
      using step unfolding eq by (auto split: bind_splits)
    have q1: "quiet env s s1" and live: "fh_heap s1 p \<noteq> None"
      using inval_dir_quiet [OF quiet_inv [OF q] 1(1)] quiet_trans [OF q] by auto
    have "fh_map s1 = fh_map s" using inval_dir_map [OF 1(1)] by simp
    then show ?thesis
      using bm_fh_free_quiet [OF quiet_inv [OF q1] 1(2) live] id quiet_trans [OF q1] by simp
  qed
qed

text \<open>The callback of \<open>readdir\<close> stays within the buffer the kernel asked for.\<close>

definition dir_ok :: "env \<Rightarrow> nat \<Rightarrow> fs_ctx \<Rightarrow> (nat \<times> fs_ctx) option \<Rightarrow> bool" where
  "dir_ok env n s w \<longleftrightarrow>
     (case w of None \<Rightarrow> True
      | Some (len, s') \<Rightarrow> len \<le> n \<and> quiet env s s' \<and> length (ctx_buf s') = length (ctx_buf s) \<and>
          (\<exists>bs. s' = s\<lparr>ctx_buf := bs\<rparr>))"

lemma dir_ok_add:
  assumes "dir_ok env n s (Some (len, s'))" "length ent \<le> n - len" "n \<le> length (ctx_buf s)"
  shows "dir_ok env n s (Some (len + length ent, s'\<lparr>ctx_buf := blit (ctx_buf s') len ent\<rparr>))"
proof -
  have l: "len \<le> n" "quiet env s s'" "length (ctx_buf s') = length (ctx_buf s)"
    using assms(1) by (simp_all add: dir_ok_def)
  then have "length (blit (ctx_buf s') len ent) = length (ctx_buf s)"
    using assms(2,3) by (simp add: length_blit)
  then show ?thesis
    using assms l quiet_buf [of env s s' "blit (ctx_buf s') len ent"] by (auto simp: dir_ok_def)
qed

lemma bm_readdir_cb_ok:
  assumes "dir_ok env n s w" "n \<le> length (ctx_buf s)"
  shows "dir_ok env n s (snd (bm_readdir_cb env req flags n e w))"
proof (cases w)
  case None
  then show ?thesis by (simp add: bm_readdir_cb_def dir_ok_def)
next
  case (Some p)
  obtain len s' where p: "p = (len, s')" by (cases p)
  have "dir_ok env n s (Some (len, s'))" using assms(1) Some p by simp
  then show ?thesis
    using dir_ok_add [OF _ _ assms(2), of env len s'] Some p
    by (auto simp: bm_readdir_cb_def Let_def dir_ok_def split: option.splits)
qed

lemma fold_dir_ok:
  "dir_ok env n s w \<Longrightarrow> n \<le> length (ctx_buf s) \<Longrightarrow>
   dir_ok env n s (fold (\<lambda>e w. snd (bm_readdir_cb env req flags n e w)) es w)"
  by (induction es arbitrary: w) (simp_all add: bm_readdir_cb_ok)

lemma bm_readdir_reply:
  assumes B: "backend_ok B" and inv: "fs_inv env s" and n: "n \<le> length (ctx_buf s)"
    and step: "bm_readdir env B req ino n off flags cookie s b = Some (st, s', b')"
  shows "\<exists>len s1. dir_ok env n s (Some (len, s1)) \<and>
    (st < 0 \<and> s' = s1 \<or> st = 0 \<and> s' = send_reply req (Reply_buf (take len (ctx_buf s1))) s1)"
proof -
  define fl where "fl = (if BOOKMARK_IS_TYPE flags TYPE_TAG \<and> INODE_SUBSYS_ID ino \<noteq> tags_root_id s
    then flags AND NOT TYPE_TAG else flags)"
  obtain r c w b1 where l: "bookmark_list B b (INODE_SUBSYS_ID ino) off flags
      (Some (bm_readdir_cb env req fl n)) (Some (0, s)) cookie = (r, c, w, b1)"
    by (metis prod_cases4)
  have "dir_ok env n s (Some (0, s))" using quiet_refl [OF inv] by (auto simp: dir_ok_def intro: exI [of _ "ctx_buf s"])
  then have "dir_ok env n s w"
    using backend_list [OF B l] fold_dir_ok [OF _ n] by auto
  moreover obtain len s1 where "w = Some (len, s1)"
    "st < 0 \<and> s' = s1 \<or> st = 0 \<and> s' = send_reply req (Reply_buf (take len (ctx_buf s1))) s1"
    using step l unfolding bm_readdir_def Let_def fl_def by (auto split: bind_splits if_splits)
  ultimately show ?thesis by blast
qed

lemma bm_readdir_answers:
  assumes "backend_ok B" "fs_inv env s" "n \<le> length (ctx_buf s)"
    "bm_readdir env B req ino n off flags cookie s b = Some (st, s', b')"
  shows "answers env req st s s'"
proof -
  obtain len s1 where "dir_ok env n s (Some (len, s1))"
    "st < 0 \<and> s' = s1 \<or> st = 0 \<and> s' = send_reply req (Reply_buf (take len (ctx_buf s1))) s1"
    using bm_readdir_reply [OF assms] by blast
  then show ?thesis using quiet_fail quiet_reply by (auto simp: dir_ok_def)
qed

section \<open>The internal directories\<close>

lemma intfs_create_quiet:
  assumes "fs_inv env s" "intfs_create env B parent name flags attr fi s b = Some (st, attr', fi', s', b')"
  shows "quiet env s s'"
  using assms(2) quiet_refl [OF assms(1)] bm_open_quiet [OF assms(1)]
  unfolding intfs_create_def by (auto split: if_splits bind_splits)

lemma intfs_freedir_quiet:
  assumes "fs_inv env s" "intfs_freedir env B ino cookie s b = Some (st, s', b')"
  shows "quiet env s s'"
  using assms(2) quiet_refl [OF assms(1)] bm_freedir_quiet [OF assms(1)]
  unfolding intfs_freedir_def by (auto split: if_splits)

lemma intfs_ioctl_answers:
  assumes "fs_inv env s" "intfs_ioctl env B req ino cmd ibuf n cookie s b = Some (st, s', b')"
  shows "answers env req st s s'"
  using assms(2) quiet_fail [OF quiet_refl [OF assms(1)], of st] bm_ioctl_answers [OF assms(1)]
  unfolding intfs_ioctl_def by (auto simp: ENOTTY_def split: if_splits)

lemma intfs_opendir_quiet:
  assumes "fs_inv env s" "intfs_opendir env B ino fi s b = Some (st, fi', s', b')"
  shows "quiet env s s'"
  using assms(2) quiet_refl [OF assms(1)] bm_opendir_quiet [OF assms(1)]
  unfolding intfs_opendir_def by (auto simp: Let_def split: if_splits)

lemma intfs_readdir_loop_ok:
  assumes "intfs_readdir_loop env B is_plus dents idx n len s b = Some (st, len', s', b')"
    "dir_ok env N s0 (Some (len, s))" "n = N - len" "N \<le> length (ctx_buf s0)"
  shows "dir_ok env N s0 (Some (len', s')) \<and> st \<le> 0"
  using assms
proof (induction env B is_plus dents idx n len s b rule: intfs_readdir_loop.induct)
  case (2 env B is_plus dent dents idx n len s b)
  show ?case
  proof (cases "de_name dent")
    case None
    then show ?thesis using 2 by simp
  next
    case (Some name)
    obtain st1 attr b1 where look:
      "(if de_is_root dent then Some (0, (ep_attr (ENTRY_PARAM_INIT s))\<lparr>st_mode := FS_FILEMODE_ROOT s\<rparr>, b)
        else if is_plus then intfs_lookup env B (de_id dent) None (ep_attr (ENTRY_PARAM_INIT s)) s b
        else Some (0, (ep_attr (ENTRY_PARAM_INIT s))\<lparr>st_mode := FS_FILEMODE_DIR s\<rparr>, b)) = Some (st1, attr, b1)"
      using "2.prems"(1) Some by (auto simp: Let_def split: bind_splits)
    let ?ep = "(ENTRY_PARAM_INIT s)\<lparr>ep_ino := de_id dent, ep_attr := attr\<lparr>st_ino := de_id dent\<rparr>\<rparr>"
    let ?ent = "if is_plus then dirent_plus env name ?ep (idx + 1)
                else dirent env name (ep_attr ?ep) (idx + 1)"
    have eq: "intfs_readdir_loop env B is_plus (dent # dents) idx n len s b =
      (if st1 < 0 then Some (st1, len, s, b1)
       else if n < length ?ent then Some (0, len, s, b1)
       else intfs_readdir_loop env B is_plus dents (idx + 1) (n - length ?ent) (len + length ?ent)
              (s\<lparr>ctx_buf := blit (ctx_buf s) len ?ent\<rparr>) b1)"
      using look unfolding intfs_readdir_loop.simps Some Let_def by simp
    show ?thesis
    proof (cases "st1 < 0 \<or> n < length ?ent")
      case True
      then show ?thesis using "2.prems"(1,2) unfolding eq by (auto split: if_splits)
    next
      case False
      have "dir_ok env N s0 (Some (len + length ?ent, s\<lparr>ctx_buf := blit (ctx_buf s) len ?ent\<rparr>))"
        using dir_ok_add [OF "2.prems"(2) _ "2.prems"(4), of ?ent] False "2.prems"(3) by simp
      then show ?thesis
        using "2.IH"(2) [OF Some refl refl look refl refl _ refl refl] False "2.prems" unfolding eq by simp
    qed
  qed
qed (use assms in simp)

lemma intfs_readdir_answers:
  assumes B: "backend_ok B" and inv: "fs_inv env s" and n: "n \<le> length (ctx_buf s)"
    and step: "intfs_readdir env B req ino n off flags cookie s b = Some (st, s', b')"
  shows "answers env req st s s'"
proof (cases "ino = INTFS_ID_ROOT")
  case False
  then show ?thesis
    using step bm_readdir_answers [OF B inv n] unfolding intfs_readdir_def by (auto split: if_splits)
next
  case True
  have "ino \<noteq> INTFS_ID_BOOKMARKS" "ino \<noteq> INTFS_ID_TAGS" "ino \<noteq> INTFS_ID_KEYWORDS"
    using True by (simp_all add: intfs_defs)
  then obtain st1 len s1 b1 where loop:
    "intfs_readdir_loop env B (has_flag flags LIST_WITHSTAT) (drop off (intfs_dents s)) off n 0 s b =
       Some (st1, len, s1, b1)"
    and res: "st1 < 0 \<and> st = st1 \<and> s' = s1 \<or> \<not> st1 < 0 \<and> st = 0 \<and>
       s' = send_reply req (Reply_buf (take len (ctx_buf s1))) s1"
    using step True unfolding intfs_readdir_def by (auto split: bind_splits if_splits)
  have "dir_ok env n s (Some (0, s))"
    using quiet_refl [OF inv] by (auto simp: dir_ok_def intro: exI [of _ "ctx_buf s"])
  from intfs_readdir_loop_ok [OF loop this _ n] have "quiet env s s1" by (simp add: dir_ok_def)
  then show ?thesis using res quiet_fail quiet_reply by fastforce
qed

section \<open>Requests\<close>

definition replied :: "env \<Rightarrow> fuse_req \<Rightarrow> fs_ctx \<Rightarrow> fs_ctx \<Rightarrow> bool" where
  "replied env req s s' \<longleftrightarrow> fs_inv env s' \<and> opts s' = opts s \<and>
     length (ctx_buf s) \<le> length (ctx_buf s') \<and> (\<exists>r. replies s' = replies s @ [(req, r)])"

lemma replied_err [intro]: "quiet env s s' \<Longrightarrow> replied env req s (reply_err req st s')"
  by (simp add: quiet_def replied_def)

lemma replied_send [intro]: "quiet env s s' \<Longrightarrow> replied env req s (send_reply req r s')"
  by (simp add: quiet_def replied_def)

lemma replied_if:
  "quiet env s s' \<Longrightarrow> replied env req s (if c then reply_err req st s' else send_reply req r s')"
  by auto

lemma answers_replied:
  "answers env req st s s' \<Longrightarrow> replied env req s (if st < 0 then reply_err req st s' else s')"
  by (auto simp: answers_def replied_def)

lemma fs_op_create_replied:
  assumes "fs_inv env s" "fs_op_create env B req parent name fi s b = Some (s', b')"
  shows "replied env req s s'"
proof -
  have q: "quiet env s s" by (rule quiet_refl [OF assms(1)])
  have "\<exists>s1 st ep fi1. quiet env s s1 \<and>
      s' = (if st < 0 then reply_err req st s1 else send_reply req (Reply_create ep fi1) s1)"
    using assms(2) q bm_open_quiet [OF assms(1)] intfs_create_quiet [OF assms(1)]
    unfolding fs_op_create_def Let_def by (fastforce split: if_splits bind_splits)
  then show ?thesis by auto
qed

lemma lookups_replied:
  assumes "fs_inv env s"
  shows "fs_op_getattr env B req ino s b = Some (s', b') \<Longrightarrow> replied env req s s'"
    "fs_op_lookup env B req parent name s b = Some (s', b') \<Longrightarrow> replied env req s s'"
    "fs_op_link env B req ino new_parent new_name s b = Some (s', b') \<Longrightarrow> replied env req s s'"
    "fs_op_mkdir env B req parent name s b = Some (s', b') \<Longrightarrow> replied env req s s'"
  using quiet_refl [OF assms]
  unfolding fs_op_getattr_def fs_op_lookup_def fs_op_link_def fs_op_mkdir_def Let_def
  by (auto split: bind_splits prod.splits if_splits)

lemma fs_op_fsync_replied:
  assumes "fs_inv env s" "fs_op_fsync B req ino fi s b = Some (s', b')"
  shows "replied env req s s'"
  using assms(2) quiet_refl [OF assms(1)]
  unfolding fs_op_fsync_def
  by (auto simp: Let_def split: if_splits bind_splits prod.splits dest: bm_do_write_quiet [OF assms(1)])

lemma fs_op_fsyncdir_replied:
  assumes "fs_inv env s" "fs_op_fsyncdir env B req ino s b = Some (s', b')"
  shows "replied env req s s'"
  using assms(2) quiet_refl [OF assms(1)]
  unfolding fs_op_fsyncdir_def
  by (auto simp: Let_def split: if_splits bind_splits prod.splits
      dest: bm_syncdir_quiet [OF assms(1)] intfs_syncdir_quiet [OF assms(1)])

lemma fs_op_getxattr_replied:
  assumes "backend_ok B" "fs_inv env s" "fs_op_getxattr B req ino name n s b = Some (s', b')"
  shows "replied env req s s'"
proof -
  obtain st s1 b1 where r: "(if INODE_SUBSYS_TYPE ino = SUBSYS_TYPE_BOOKMARK
        then bm_getxattr B req ino name n s b else Some (- ENOATTR, s, b)) = Some (st, s1, b1)"
    and s': "s' = (if st < 0 then reply_err req st s1 else s1)"
    using assms(3) unfolding fs_op_getxattr_def by (auto split: bind_splits)
  have "answers env req st s s1"
    using r bm_getxattr_answers [OF assms(1,2)] quiet_fail [OF quiet_refl [OF assms(2)], of st]
    by (auto simp: ENOATTR_def ENODATA_def split: if_splits)
  then show ?thesis using answers_replied s' by simp
qed

lemma fs_op_ioctl_replied:
  assumes "fs_inv env s" "fs_op_ioctl env B req ino cmd fi flags ibuf n s b = Some (s', b')"
  shows "replied env req s s'"
proof -
  obtain st s1 b1 where r:
    "(if flags AND FUSE_IOCTL_DIR = 0 then Some (- ENOTTY, s, b)
        else if INODE_SUBSYS_TYPE ino = SUBSYS_TYPE_INTERNAL then
          intfs_ioctl env B req ino cmd ibuf n (fi_fh fi) s b
        else if INODE_SUBSYS_TYPE ino = SUBSYS_TYPE_BOOKMARK then
          bm_ioctl env B req ino cmd 0 ibuf n (fi_fh fi) s b
        else Some (- ENOTTY, s, b)) = Some (st, s1, b1)"
    and s': "s' = (if st < 0 then reply_err req st s1 else s1)"
    using assms(2) unfolding fs_op_ioctl_def by (auto split: bind_splits)
  have "answers env req st s s1"
    using r bm_ioctl_answers [OF assms(1)] intfs_ioctl_answers [OF assms(1)]
      quiet_fail [OF quiet_refl [OF assms(1)], of st]
    by (auto simp: ENOTTY_def split: if_splits)
  then show ?thesis using answers_replied s' by simp
qed

lemma bm_lsxattr_quiet: "fs_inv env s \<Longrightarrow> bm_lsxattr n s = (st, len, s') \<Longrightarrow> quiet env s s'"
proof -
  assume inv: "fs_inv env s" and step: "bm_lsxattr n s = (st, len, s')"
  have "length buf \<le> length (snd (snd (lsxattr_loop names m k buf)))" for names m k buf
  proof (induction names m k buf rule: lsxattr_loop.induct)
    case (2 xattr rest m k buf)
    let ?buf = "blit (blit buf k BOOKMARKFS_XATTR_PREFIX) (k + length BOOKMARKFS_XATTR_PREFIX) (xattr @ [0])"
    have "length buf \<le> length ?buf" by (rule order_trans [OF length_blit_ge length_blit_ge])
    then show ?case using 2 by (auto simp: Let_def intro: order_trans)
  qed simp
  from this [of "ctx_buf s" "xattr_foreach (xattr_names s)" n 0] show ?thesis
    using step quiet_buf [OF quiet_refl [OF inv]] by (auto simp: bm_lsxattr_def split: prod.splits)
qed

lemma fs_op_listxattr_replied:
  assumes "fs_inv env s" "fs_op_listxattr req ino n s b = Some (s', b')"
  shows "replied env req s s'"
  using assms(2) quiet_refl [OF assms(1)]
  unfolding fs_op_listxattr_def intfs_lsxattr_def
  by (auto simp: Let_def split: if_splits prod.splits dest: bm_lsxattr_quiet [OF assms(1)])

lemma fs_op_open_replied:
  assumes "fs_inv env s" "fs_op_open env req ino fi s b = Some (s', b')"
  shows "replied env req s s'"
  using assms(2) quiet_refl [OF assms(1)]
  unfolding fs_op_open_def by (auto split: if_splits bind_splits dest: bm_open_quiet [OF assms(1)])

lemma fs_op_opendir_replied:
  assumes "fs_inv env s" "fs_op_opendir env B req ino fi s b = Some (s', b')"
  shows "replied env req s s'"
proof -
  obtain st fi1 s1 where r:
    "(if INODE_SUBSYS_TYPE ino = SUBSYS_TYPE_INTERNAL then intfs_opendir env B ino fi s b
        else if INODE_SUBSYS_TYPE ino = SUBSYS_TYPE_TAG then bm_opendir env B ino TYPE_TAG fi s b
        else if INODE_SUBSYS_TYPE ino = SUBSYS_TYPE_BOOKMARK then bm_opendir env B ino 0 fi s b
        else Some (- EIO, fi, s, b)) = Some (st, fi1, s1, b')"
    and s': "s' = (if st < 0 then reply_err req st s1 else send_reply req (Reply_open fi1) s1)"
    using assms(2) unfolding fs_op_opendir_def by (auto split: bind_splits)
  have "quiet env s s1"
    using r bm_opendir_quiet [OF assms(1)] intfs_opendir_quiet [OF assms(1)] quiet_refl [OF assms(1)]
    by (auto split: if_splits)
  then show ?thesis using s' by auto
qed

lemma fs_op_read_replied:
  assumes "backend_ok B" "fs_inv env s" "fs_op_read env B req ino n off fi s b = Some (s', b')"
  shows "replied env req s s'"
proof -
  obtain st s1 b1 where r: "(if INODE_SUBSYS_TYPE ino = SUBSYS_TYPE_BOOKMARK then
          bm_read env B req ino n off (fi_fh fi) s b else Some (- EIO, s, b)) = Some (st, s1, b1)"
    and s': "s' = (if st < 0 then reply_err req st s1 else s1)"
    using assms(3) unfolding fs_op_read_def by (auto split: bind_splits)
  have "answers env req st s s1"
    using r bm_read_answers [OF assms(1,2)] quiet_fail [OF quiet_refl [OF assms(2)], of st]
    by (auto simp: EIO_def split: if_splits)
  then show ?thesis using answers_replied s' by simp
qed

lemma do_readdir_replied:
  assumes B: "backend_ok B" and inv: "fs_inv env s"
    and step: "do_readdir env B req ino n off flags fi s b = Some (s', b')"
  shows "replied env req s s'"
proof -
  define s0 where "s0 = (if length (ctx_buf s) < n then s\<lparr>ctx_buf := realloc_bytes env (ctx_buf s) n\<rparr> else s)"
  have q: "quiet env s s0" and n: "n \<le> length (ctx_buf s0)"
    using quiet_buf [OF quiet_refl [OF inv]] quiet_refl [OF inv] by (auto simp: s0_def)
  obtain st s1 b1 where r:
    "(if INODE_SUBSYS_TYPE ino = SUBSYS_TYPE_INTERNAL then
             intfs_readdir env B req ino n off flags (fi_fh fi) s0 b
           else if INODE_SUBSYS_TYPE ino = SUBSYS_TYPE_TAG then
             bm_readdir env B req ino n off (flags OR TYPE_TAG) (fi_fh fi) s0 b
           else if INODE_SUBSYS_TYPE ino = SUBSYS_TYPE_BOOKMARK then
             bm_readdir env B req ino n off flags (fi_fh fi) s0 b
           else Some (- EIO, s0, b)) = Some (st, s1, b1)"
    and s': "s' = (if st < 0 then reply_err req st s1 else s1)"
    using step unfolding do_readdir_def Let_def s0_def [symmetric] by (auto split: bind_splits)
  have "answers env req st s0 s1"
    using r bm_readdir_answers [OF B quiet_inv [OF q] n] intfs_readdir_answers [OF B quiet_inv [OF q] n]
      quiet_fail [OF quiet_refl [OF quiet_inv [OF q]], of st]
    by (auto simp: EIO_def split: if_splits)
  then show ?thesis using answers_replied quiet_answers [OF q] s' by simp
qed

lemma fs_op_release_replied:
  assumes "fs_inv env s" "fs_op_release env B req ino fi s b = Some (s', b')"
  shows "replied env req s s'"
  using assms(2) quiet_refl [OF assms(1)]
  unfolding fs_op_release_def by (auto split: if_splits bind_splits dest: bm_free_quiet [OF assms(1)])

lemma fs_op_releasedir_replied:
  assumes "fs_inv env s" "fs_op_releasedir env B req ino fi s b = Some (s', b')"
  shows "replied env req s s'"
  using assms(2) quiet_refl [OF assms(1)]
  unfolding fs_op_releasedir_def
  by (auto split: if_splits bind_splits
      dest: bm_freedir_quiet [OF assms(1)] intfs_freedir_quiet [OF assms(1)])

lemma plain_replied:
  assumes "fs_inv env s"
  shows "do_delete B req parent name flags s b = Some (s', b') \<Longrightarrow> replied env req s s'"
    "fs_op_rename B req parent name np nn fl s b = Some (s', b') \<Longrightarrow> replied env req s s'"
    "fs_op_removexattr req ino name s b = Some (s', b') \<Longrightarrow> replied env req s s'"
    "fs_op_setxattr B req ino name val fl s b = Some (s', b') \<Longrightarrow> replied env req s s'"
  using quiet_refl [OF assms]
  unfolding do_delete_def fs_op_rename_def fs_op_removexattr_def fs_op_setxattr_def Let_def
  by (auto split: prod.splits)

lemma fs_op_setattr_replied:
  assumes "fs_inv env s" "file_max s \<le> 2 ^ 31"
    "fs_op_setattr env B req ino stat_buf m fi s b = Some (s', b')"
  shows "replied env req s s'"
proof -
  obtain st attr s1 where r:
    "(if INODE_SUBSYS_TYPE ino = SUBSYS_TYPE_TAG then bm_setattr env B ino m True fi stat_buf s b
        else if INODE_SUBSYS_TYPE ino = SUBSYS_TYPE_BOOKMARK then
          bm_setattr env B ino m False fi stat_buf s b
        else Some (- EPERM, stat_buf, s, b)) = Some (st, attr, s1, b')"
    and s': "s' = (if st < 0 then reply_err req st s1
      else send_reply req (Reply_attr attr (FS_ENTRY_TIMEOUT s1)) s1)"
    using assms(3) unfolding fs_op_setattr_def by (auto split: bind_splits)
  have "quiet env s s1"
    using r bm_setattr_quiet [OF assms(1,2)] quiet_refl [OF assms(1)] by (auto split: if_splits)
  then show ?thesis using s' by auto
qed

lemma fs_op_write_replied:
  assumes "fs_inv env s" "file_max s \<le> 2 ^ 31" "buf \<noteq> []"
    "fs_op_write env req ino buf off fi s b = Some (s', b')"
  shows "replied env req s s'"
proof -
  obtain st s1 where r: "(if INODE_SUBSYS_TYPE ino = SUBSYS_TYPE_BOOKMARK then
          bm_write env req (fi_flags fi) buf off (fi_fh fi) s else Some (- EIO, s)) = Some (st, s1)"
    and s': "s' = (if st < 0 then reply_err req st s1 else s1)"
    using assms(4) unfolding fs_op_write_def by (auto split: bind_splits)
  have "answers env req st s s1"
    using r bm_write_answers [OF assms(1-3)] quiet_fail [OF quiet_refl [OF assms(1)], of st]
    by (auto simp: EIO_def split: if_splits)
  then show ?thesis using answers_replied s' by simp
qed

fun zero_write :: "request \<Rightarrow> bool" where
  "zero_write (Op_write ino buf off fi) = (buf = [])"
| "zero_write _ = False"

lemma fs_step_replied:
  assumes "backend_ok B" "fs_inv env s" "file_max s \<le> 2 ^ 31" "\<not> zero_write rq"
    "fs_step env B req rq s b = Some (s', b')"
  shows "replied env req s s'"
  using assms
  by (cases rq)
    (auto simp: fs_op_readdir_def fs_op_readdirplus_def fs_op_rmdir_def fs_op_unlink_def
      intro: fs_op_create_replied fs_op_fsync_replied fs_op_fsyncdir_replied lookups_replied
        fs_op_getxattr_replied fs_op_ioctl_replied fs_op_listxattr_replied fs_op_open_replied
        fs_op_opendir_replied fs_op_read_replied do_readdir_replied fs_op_release_replied
        fs_op_releasedir_replied plain_replied fs_op_setattr_replied fs_op_write_replied)

end
