(* ===== verification/Fs_Demo.thy ===== *)
theory Fs_Demo
  imports Fs_Step
begin

text \<open>
  A freshly mounted file system satisfies the invariant, and a small concrete environment,
  backend and state on which the properties' hypotheses hold.  The backend keeps a map from ids
  to contents; every folder lists the same two entries.
\<close>

section \<open>Mounting\<close>

text \<open>\<open>static struct fs_ctx ctx\<close> before the first operation; the fields of the model that have no
  counterpart there start empty.\<close>

definition fs_ctx_static :: fs_ctx where
  "fs_ctx_static = \<lparr>fh_map = hashmap_create, fh_heap = Map.empty, next_ptr = 1, live_bufs = 0,
     ctx_uid = 0, ctx_gid = 0,
     ctx_flags = \<lparr>accmode = 0, ctime = False, eol = False, exclusive = False, has_keyword = False,
       readonly = False\<rparr>,
     bookmarks_root_id = 0, tags_root_id = -1, file_max = 0, xattr_names = [], ctx_buf = [],
     replies = [], invals = [], ticks = 0\<rparr>"

definition mounted :: "env \<Rightarrow> fs_flags \<Rightarrow> nat \<Rightarrow> u64 \<Rightarrow> u64 \<Rightarrow> bytes \<Rightarrow> fs_ctx option" where
  "mounted env flags size_max root tags names =
     fs_op_init env (fs_init_opts flags size_max (fs_init_metadata root tags (Some names) fs_ctx_static))"

lemma mounted_inv:
  assumes "mounted env flags size_max root tags names = Some s"
  shows "fs_inv env s \<and> ctx_flags s = flags \<and> file_max s = size_max \<and> fh_heap s = Map.empty \<and>
    replies s = [] \<and> live_bufs s = 0"
proof -
  have "fh_map s = hashmap_create" "fh_heap s = Map.empty" "next_ptr s = 1" "ctx_flags s = flags"
    "file_max s = size_max" "replies s = []" "live_bufs s = 0"
    using assms
    by (auto simp: mounted_def fs_op_init_def fs_init_opts_def fs_init_metadata_def fs_ctx_static_def
        Let_def split: if_splits)
  then show ?thesis
    by (simp add: fs_inv_def table_ok_def hashmap_create_ok NULL_def)
qed

section \<open>A concrete instance\<close>

definition demo_env :: env where
  "demo_env = \<lparr>clock = (\<lambda>n. \<lparr>tv_sec = 1000 + int n, tv_nsec = 0\<rparr>), inval_status = (\<lambda>n. 0),
     hash64 = (\<lambda>i. i * 0x9e3779b97f4a7c15), dirent = (\<lambda>name st off. name @ [0]),
     dirent_plus = (\<lambda>name ep off. name @ [0, 0]), junk = (\<lambda>n. 0xaa), page_size = 4096,
     euid = 1000, egid = 1000\<rparr>"

type_synonym demo_store = "u64 \<Rightarrow> bytes option"

definition demo_stat :: "u64 \<Rightarrow> demo_store \<Rightarrow> bookmark_stat" where
  "demo_stat i b = \<lparr>bs_id = i, value_len = (case b i of None \<Rightarrow> -1 | Some v \<Rightarrow> int (length v)),
     bs_atime = timespec_zero, bs_mtime = timespec_zero\<rparr>"

definition demo_entries :: "demo_store \<Rightarrow> bookmark_entry list" where
  "demo_entries b = [\<lparr>be_name = str ''foo'', be_off = 1, be_stat = demo_stat 5 b\<rparr>,
     \<lparr>be_name = str ''bar'', be_off = 2, be_stat = demo_stat 6 b\<rparr>]"

definition demo_get :: "demo_store \<Rightarrow> u64 \<Rightarrow> bytes option \<Rightarrow> get_cb \<Rightarrow> fs_ctx option \<Rightarrow> ptr option \<Rightarrow>
    int \<times> ptr \<times> fs_ctx option \<times> demo_store" where
  "demo_get b i x cb w c =
     (case b i of
        None \<Rightarrow> (- ENOENT, 0, w, b)
      | Some v \<Rightarrow> (if length v < 2 ^ 31 then (case cb v w of (r, w') \<Rightarrow> (r, 0, w', b)) else (- EIO, 0, w, b)))"

definition demo_backend :: "demo_store backend" where
  "demo_backend = \<lparr>
     bookmark_check = Some (\<lambda>b i d flags cb w c. (- EIO, w, b)),
     bookmark_get = demo_get,
     bookmark_list = (\<lambda>b i off flags cb w c.
       (0, 7, case cb of None \<Rightarrow> w | Some f \<Rightarrow> fold (\<lambda>e w. snd (f e w)) (drop off (demo_entries b)) w, b)),
     bookmark_lookup = (\<lambda>b i name flags. (0, demo_stat i b, b)),
     bookmark_create = (\<lambda>b i name flags st. (0, demo_stat 9 b, b(9 \<mapsto> []))),
     bookmark_delete = (\<lambda>b i name flags. (- ENOENT, b)),
     bookmark_permute = (\<lambda>b i p n1 n2 flags. (0, b)),
     bookmark_rename = (\<lambda>b i n j m flags. (0, b)),
     bookmark_set = (\<lambda>b i x flags v. (case v of Content c \<Rightarrow> (0, b(i \<mapsto> c)) | Times t u \<Rightarrow> (0, b))),
     bookmark_sync = (\<lambda>b. (0, b)),
     cookie_free = (\<lambda>b c l. b)\<rparr>"

lemma demo_backend_ok: "backend_ok demo_backend"
  unfolding backend_ok_def
proof (intro conjI allI impI)
  fix b i x cb w c r c' w' b'
  assume "bookmark_get demo_backend b i x cb w c = (r, c', w', b')"
  then show "(\<exists>v. length v < 2 ^ 31 \<and> (r, w') = cb v w) \<or> r < 0 \<and> w' = w"
    by (auto simp: demo_backend_def demo_get_def ENOENT_def EIO_def split: option.splits if_splits prod.splits)
next
  fix b i off flags cb w c r c' w' b'
  assume "bookmark_list demo_backend b i off flags (Some cb) w c = (r, c', w', b')"
  then show "\<exists>es. w' = fold (\<lambda>e w. snd (cb e w)) es w"
    by (auto simp: demo_backend_def)
qed

definition demo_flags :: "bool \<Rightarrow> bool \<Rightarrow> fs_flags" where
  "demo_flags ro nl = \<lparr>accmode = 0x1c0, ctime = False, eol = nl, exclusive = False, has_keyword = True,
     readonly = ro\<rparr>"

definition demo_fs :: "bool \<Rightarrow> bool \<Rightarrow> fs_ctx" where
  "demo_fs ro nl = the (mounted demo_env (demo_flags ro nl) 65536 0 (-1) [])"

definition demo_req :: fuse_req where
  "demo_req = \<lparr>req_id = 1, req_uid = 1000, req_gid = 1000\<rparr>"

definition demo_fi :: "u32 \<Rightarrow> fuse_file_info" where
  "demo_fi flags = \<lparr>fi_flags = flags, fi_fh = 0, direct_io = False, keep_cache = False,
     cache_readdir = False, noflush = False\<rparr>"

definition demo_ino :: u64 where "demo_ino = SUBSYS_NODEID 5 SUBSYS_TYPE_BOOKMARK"

definition demo_data :: demo_store where "demo_data = [5 \<mapsto> str ''hello'']"

lemma demo_ino_type: "INODE_SUBSYS_TYPE demo_ino = SUBSYS_TYPE_BOOKMARK"
  by (simp add: demo_ino_def INODE_SUBSYS_TYPE_def SUBSYS_NODEID_def SUBSYS_ID_BITS_def
      BOOKMARKFS_BOOKMARK_TYPE_BITS_def SUBSYS_TYPE_BOOKMARK_def)

lemma demo_ino_id: "INODE_SUBSYS_ID demo_ino = 5"
  by (simp add: demo_ino_def INODE_SUBSYS_ID_def SUBSYS_NODEID_def SUBSYS_ID_BITS_def SUBSYS_ID_MASK_def
      BOOKMARKFS_BOOKMARK_TYPE_BITS_def SUBSYS_TYPE_BOOKMARK_def)

lemma demo_mounted: "mounted demo_env (demo_flags ro nl) 65536 0 (-1) [] = Some (demo_fs ro nl)"
  by (simp add: demo_fs_def mounted_def fs_op_init_def demo_env_def PERMD_DATA_SIZE_def)

lemma demo_fs_facts:
  "fs_inv demo_env (demo_fs ro nl)" "ctx_flags (demo_fs ro nl) = demo_flags ro nl"
  "file_max (demo_fs ro nl) = 65536" "fh_heap (demo_fs ro nl) = Map.empty" "replies (demo_fs ro nl) = []"
  "live_bufs (demo_fs ro nl) = 0" "fh_map (demo_fs ro nl) = hashmap_create"
  using mounted_inv [OF demo_mounted]
  by (auto simp: demo_fs_def mounted_def fs_op_init_def demo_env_def PERMD_DATA_SIZE_def
      fs_init_opts_def fs_init_metadata_def fs_ctx_static_def)

text \<open>In an empty table a handle can always be made.\<close>

lemma bm_fh_new_empty:
  assumes "fs_inv env s" "fh_map s = hashmap_create" "fh_heap s = Map.empty"
  shows "\<exists>p s'. bm_fh_new env ino s = Some (p, s')"
proof -
  have none: "bm_fh_get env ino s = Some None"
    using bm_fh_get_cases [of env s ino] assms by (auto simp: fs_inv_def handle_at_def)
  let ?s = "(fh_put (next_ptr s) \<lparr>fh_ino = ino, fh_hashcode = hash64 env ino, refcount = 1, fh_flags = 0,
      fh_buf = None, fh_buf_len = 0, fh_data_len = 0, fh_cookie = NULL, fh_mtime = timespec_zero\<rparr> s)
      \<lparr>next_ptr := next_ptr s + 1\<rparr>"
  obtain m where m: "hashmap_insert (fh_entry_hash ?s) (fh_map s) (hash64 env ino) (next_ptr s) = Some m"
    using hashmap_insert_create [of "fh_entry_hash ?s" "hash64 env ino" "next_ptr s"] unfolding assms(2) by blast
  have "bm_fh_new env ino s = Some (next_ptr s, ?s\<lparr>fh_map := m\<rparr>)"
    unfolding bm_fh_new_def none Let_def bind.bind_lunit option.case using m by simp
  then show ?thesis by blast
qed

text \<open>A file just opened: an empty clean handle.\<close>

lemma demo_opened:
  assumes "flags AND O_TRUNC = 0"
  shows "\<exists>fi s h. bm_open demo_env demo_ino (demo_fi flags) (demo_fs ro nl) = Some (fi, s) \<and>
    fi_flags fi = flags \<and> quiet demo_env (demo_fs ro nl) s \<and> fh_heap s (fi_fh fi) = Some h \<and>
    fh_ino h = demo_ino \<and> content h = [] \<and> fh_flags h = 0 \<and> fh_buf h = None \<and> fh_data_len h = 0 \<and>
    refcount h = 1 \<and> fh_cookie h = NULL \<and> ctx_flags s = demo_flags ro nl \<and> file_max s = 65536 \<and> live_bufs s = 0"
proof -
  obtain p s where new: "bm_fh_new demo_env demo_ino (demo_fs ro nl) = Some (p, s)"
    using bm_fh_new_empty demo_fs_facts by metis
  note ok = bm_fh_new_ok [OF demo_fs_facts(1) new]
  have q: "quiet demo_env (demo_fs ro nl) s" and at: "handle_at s demo_ino p"
    using bm_fh_new_quiet [OF demo_fs_facts(1) new] by simp_all
  then obtain h where h: "fh_heap s p = Some h" "fh_ino h = demo_ino" by (auto simp: handle_at_def)
  have h': "refcount h = 1" "fh_flags h = 0" "fh_buf h = None" "fh_data_len h = 0" "fh_cookie h = NULL"
    using ok h by (simp_all add: handle_at_def demo_fs_facts(4) split: if_splits)
  have "\<exists>fi. bm_open demo_env demo_ino (demo_fi flags) (demo_fs ro nl) = Some (fi, s) \<and> fi_fh fi = p \<and>
      fi_flags fi = flags"
    using new h assms by (simp add: bm_open_def demo_fi_def Let_def)
  moreover have "live_bufs s = 0"
    using new demo_fs_facts
    by (auto simp: bm_fh_new_def Let_def split: bind_splits option.splits)
  moreover have "content h = []" by (simp add: content_def h')
  ultimately show ?thesis using q h h' quiet_flags [OF q] demo_fs_facts(2,3) by auto
qed

lemma demo_open:
  obtains fi s h where "bm_open demo_env demo_ino (demo_fi 2) (demo_fs ro nl) = Some (fi, s)"
    "fi_flags fi = 2" "fs_inv demo_env s" "fh_heap s (fi_fh fi) = Some h" "fh_ino h = demo_ino"
    "content h = []" "fh_flags h = 0" "fh_buf h = None" "fh_data_len h = 0" "refcount h = 1"
    "fh_cookie h = NULL" "ctx_flags s = demo_flags ro nl" "file_max s = 65536" "live_bufs s = 0" "replies s = []"
proof -
  have "2 AND O_TRUNC = 0" by (simp add: O_TRUNC_def)
  from demo_opened [OF this, of ro nl] obtain fi s h where
    o: "bm_open demo_env demo_ino (demo_fi 2) (demo_fs ro nl) = Some (fi, s)"
    "fi_flags fi = 2" "quiet demo_env (demo_fs ro nl) s" "fh_heap s (fi_fh fi) = Some h" "fh_ino h = demo_ino"
    "content h = []" "fh_flags h = 0" "fh_buf h = None" "fh_data_len h = 0" "refcount h = 1"
    "fh_cookie h = NULL" "ctx_flags s = demo_flags ro nl" "file_max s = 65536" "live_bufs s = 0" by blast
  have "replies s = []" using o(3) demo_fs_facts(5) by (simp add: quiet_def)
  then show thesis using that o(1,2) quiet_inv [OF o(3)] o(4-) by blast
qed

text \<open>A file opened and written to.\<close>

lemma demo_written:
  fixes data :: bytes
  assumes "data \<noteq> []" "length data \<le> 1000"
  obtains fi s0 s h where "bm_open demo_env demo_ino (demo_fi 2) (demo_fs ro nl) = Some (fi, s0)"
    "fs_op_write demo_env demo_req demo_ino data 0 fi s0 demo_data = Some (s, demo_data)"
    "fs_inv demo_env s" "fh_heap s (fi_fh fi) = Some h" "fh_ino h = demo_ino" "content h = data"
    "has_flag (fh_flags h) FH_FLAG_DIRTY" "has_flag (fh_flags h) FH_FLAG_MTIME"
    "\<not> has_flag (fh_flags h) FH_FLAG_ISDIR" "refcount h = 1" "fh_cookie h = NULL" "ctx_flags s = demo_flags ro nl"
    "file_max s = 65536" "replies s = [(demo_req, Reply_write (length data))]"
proof -
  obtain fi s h where o: "bm_open demo_env demo_ino (demo_fi 2) (demo_fs ro nl) = Some (fi, s)"
    "fi_flags fi = 2" "fs_inv demo_env s" "fh_heap s (fi_fh fi) = Some h" "fh_ino h = demo_ino" "content h = []"
    "fh_flags h = 0" "fh_buf h = None" "fh_data_len h = 0" "refcount h = 1"
    "fh_cookie h = NULL" "ctx_flags s = demo_flags ro nl" "file_max s = 65536" "live_bufs s = 0" "replies s = []"
    by (rule demo_open)
  have app: "\<not> (2 AND O_APPEND \<noteq> 0)" by (simp add: O_APPEND_def)
  have len: "length data + 0 \<le> file_max s" "file_max s \<le> 2 ^ 31" using assms o(13) by simp_all
  obtain h' k where 1: "bm_write demo_env demo_req 2 data 0 (fi_fh fi) s = Some (0, send_reply demo_req
      (Reply_write (length data)) (fh_put (fi_fh fi) h' (s\<lparr>live_bufs := k, ticks := ticks s + 1\<rparr>)))"
    "buf_ok h'" "fh_ino h' = fh_ino h" "fh_hashcode h' = fh_hashcode h" "refcount h' = refcount h" "fh_cookie h' = fh_cookie h"
    "fh_flags h' = fh_flags h OR (FH_FLAG_DIRTY OR FH_FLAG_MTIME)" "content h' = file_write (content h) 0 data"
    using bm_write_ok [OF o(3,4) assms(1) _ len(2), of 2 0 demo_req] len(1) app by auto
  let ?s = "send_reply demo_req (Reply_write (length data))
      (fh_put (fi_fh fi) h' (s\<lparr>live_bufs := k, ticks := ticks s + 1\<rparr>))"
  note fl = 1(7)
  have "fs_inv demo_env (s\<lparr>live_bufs := k, ticks := ticks s + 1\<rparr>)" using o(3) by simp
  then have inv: "fs_inv demo_env ?s"
    using fs_inv_fh_put [of demo_env "s\<lparr>live_bufs := k, ticks := ticks s + 1\<rparr>" "fi_fh fi" h h'] o(4) 1(2-4)
    by simp
  have "fs_op_write demo_env demo_req demo_ino data 0 fi s demo_data = Some (?s, demo_data)"
    using 1(1) o(2) demo_ino_type by (simp add: fs_op_write_def)
  moreover have "has_flag (fh_flags h') FH_FLAG_DIRTY" unfolding fl by (rule dirty_flags)
  moreover have "has_flag (fh_flags h') FH_FLAG_MTIME" unfolding fl by (rule dirty_flags)
  moreover have "\<not> has_flag (fh_flags h') FH_FLAG_ISDIR"
    unfolding fl dirty_flags(3) using o(7) by (simp add: has_flag_def)
  moreover have "content h' = data" using 1(8) o(6) by (simp add: file_write_def)
  ultimately show thesis
    using that [of fi s ?s h'] o 1 inv by (simp add: send_reply_def fh_put_def)
qed

end
