(* ===== verification/Fs_Props.thy ===== *)
theory Fs_Props
  imports Fs_Demo
begin

text \<open>
  Properties of requests on files: every request is answered and keeps the invariant; reads, writes
  and truncations refine a byte file; write-back and the end-of-line option; the life of a handle.
\<close>

section \<open>Runs\<close>

inductive fs_run ::
  "env \<Rightarrow> 'b backend \<Rightarrow> fs_ctx \<Rightarrow> 'b \<Rightarrow> (fuse_req \<times> request) list \<Rightarrow> fs_ctx \<Rightarrow> 'b \<Rightarrow> bool"
  for env :: env and B :: "'b backend" where
  run_nil: "fs_run env B s b [] s b"
| run_cons: "fs_step env B req rq s b = Some (s1, b1) \<Longrightarrow> fs_run env B s1 b1 rqs s2 b2 \<Longrightarrow>
    fs_run env B s b ((req, rq) # rqs) s2 b2"

inductive_cases fs_run_consE: "fs_run env B s b (x # rqs) s2 b2"

lemma fs_run_ok:
  assumes "fs_run env B s b rqs s' b'" "backend_ok B" "fs_inv env s" "file_max s \<le> 2 ^ 31"
    "\<forall>(req, rq) \<in> set rqs. \<not> zero_write rq"
  shows "fs_inv env s' \<and> opts s' = opts s \<and> map fst (replies s') = map fst (replies s) @ map fst rqs"
  using assms
proof (induction rule: fs_run.induct)
  case (run_cons req rq s b s1 b1 rqs s2 b2)
  have "\<not> zero_write rq" using run_cons.prems(4) by simp
  note one = fs_step_replied [OF run_cons.prems(1-3) this run_cons.hyps(1), unfolded replied_def]
  then have "file_max s1 \<le> 2 ^ 31" using run_cons.prems(3) by (simp add: opts_def)
  then show ?case using run_cons.IH run_cons.prems one by fastforce
qed simp





section \<open>Write, truncate, read\<close>

text \<open>
  C2: a write refines the abstract one: it overwrites the bytes at the offset (at the end of the
  file with \<open>O_APPEND\<close>), fills a hole with zero bytes, marks the handle dirty with the time of the
  write, and replies with the number of bytes; other handles and the backend are untouched.
\<close>

theorem fs_write_refines:
  assumes "fs_inv env s" "INODE_SUBSYS_TYPE ino = SUBSYS_TYPE_BOOKMARK"
    "fh_heap s (fi_fh fi) = Some h" "buf \<noteq> []"
    "off' = (if fi_flags fi AND O_APPEND \<noteq> 0 then fh_data_len h else off)"
    "length buf + off' \<le> file_max s" "file_max s \<le> 2 ^ 31"
  shows "\<exists>s' h'. fs_op_write env req ino buf off fi s b = Some (s', b) \<and> fs_inv env s' \<and>
    fh_heap s' = (fh_heap s)(fi_fh fi \<mapsto> h') \<and> content h' = file_write (content h) off' buf \<and>
    has_flag (fh_flags h') FH_FLAG_DIRTY \<and> fh_mtime h' = clock env (ticks s) \<and>
    refcount h' = refcount h \<and> replies s' = replies s @ [(req, Reply_write (length buf))]"
proof -
  obtain h' k where 1: "bm_write env req (fi_flags fi) buf off (fi_fh fi) s = Some (0, send_reply req
      (Reply_write (length buf)) (fh_put (fi_fh fi) h' (s\<lparr>live_bufs := k, ticks := ticks s + 1\<rparr>)))"
    "buf_ok h'" "fh_ino h' = fh_ino h" "fh_hashcode h' = fh_hashcode h" "refcount h' = refcount h"
    "fh_flags h' = fh_flags h OR (FH_FLAG_DIRTY OR FH_FLAG_MTIME)" "fh_mtime h' = clock env (ticks s)"
    "content h' = file_write (content h) off' buf"
    using bm_write_ok [OF assms(1,3,4) _ assms(7), where flags = "fi_flags fi" and off = off and req = req]
      assms(6) unfolding assms(5) [symmetric] by blast
  have "quiet env s (fh_put (fi_fh fi) h' (s\<lparr>live_bufs := k, ticks := ticks s + 1\<rparr>))"
    using quiet_put [of env s "s\<lparr>live_bufs := k, ticks := ticks s + 1\<rparr>" "fi_fh fi" h h'] assms(1,3) 1
    by (simp add: quiet_refl)
  then show ?thesis
    using 1 assms(2)
    by (intro exI [of _ "send_reply req (Reply_write (length buf))
          (fh_put (fi_fh fi) h' (s\<lparr>live_bufs := k, ticks := ticks s + 1\<rparr>))"] exI [of _ h'])
      (simp add: fs_op_write_def dirty_flags quiet_inv)
qed

theorem fs_write_refines_witness:
  "\<exists>fi s s' h'. bm_open demo_env demo_ino (demo_fi 2) (demo_fs False False) = Some (fi, s) \<and>
     fs_op_write demo_env demo_req demo_ino [1, 2] 3 fi s demo_data = Some (s', demo_data) \<and>
     fh_heap s' (fi_fh fi) = Some h' \<and> content h' = [0, 0, 0, 1, 2]"
proof -
  obtain fi s h where o: "bm_open demo_env demo_ino (demo_fi 2) (demo_fs False False) = Some (fi, s)"
    "fi_flags fi = 2" "fs_inv demo_env s" "fh_heap s (fi_fh fi) = Some h" "content h = []" "file_max s = 65536"
    by (rule demo_open)
  have "\<exists>s' h'. fs_op_write demo_env demo_req demo_ino [1, 2] 3 fi s demo_data = Some (s', demo_data) \<and>
      fh_heap s' (fi_fh fi) = Some h' \<and> content h' = file_write [] 3 [1, 2]"
    using fs_write_refines [OF o(3) demo_ino_type o(4), of "[1, 2]" 3 3 demo_req demo_data] o
    by (auto simp: O_APPEND_def)
  moreover have "file_write [] 3 [1, 2] = [0, 0, 0, 1, 2 :: u8]"
    by (simp add: file_write_def numeral_3_eq_3)
  ultimately show ?thesis using o(1) by auto
qed

text \<open>a write past \<open>file_max\<close> is refused with \<open>EFBIG\<close>, and nothing else happens.\<close>

theorem fs_write_too_big:
  assumes "INODE_SUBSYS_TYPE ino = SUBSYS_TYPE_BOOKMARK" "fh_heap s (fi_fh fi) = Some h" "buf \<noteq> []"
    "file_max s < length buf + (if fi_flags fi AND O_APPEND \<noteq> 0 then fh_data_len h else off)"
  shows "fs_op_write env req ino buf off fi s b =
    Some (s\<lparr>replies := replies s @ [(req, Reply_err EFBIG)]\<rparr>, b)"
  using bm_write_too_big [OF assms(2-4)] assms(1)
  by (simp add: fs_op_write_def reply_err_def send_reply_def EFBIG_def)

theorem fs_write_too_big_witness:
  "\<exists>fi s. bm_open demo_env demo_ino (demo_fi 2) (demo_fs False False) = Some (fi, s) \<and>
     fs_op_write demo_env demo_req demo_ino [1] 65536 fi s demo_data =
       Some (s\<lparr>replies := replies s @ [(demo_req, Reply_err EFBIG)]\<rparr>, demo_data)"
proof -
  obtain fi s h where "bm_open demo_env demo_ino (demo_fi 2) (demo_fs False False) = Some (fi, s)"
    "fi_flags fi = 2" "fh_heap s (fi_fh fi) = Some h" "file_max s = 65536"
    by (rule demo_open)
  then show ?thesis
    using fs_write_too_big [OF demo_ino_type, of s fi h "[1]" 65536] by (auto simp: O_APPEND_def)
qed

lemma quiet_put_ticks:
  assumes "fs_inv env s" "fh_heap s p = Some h" "buf_ok h'" "fh_ino h' = fh_ino h" "fh_hashcode h' = fh_hashcode h"
  shows "quiet env s (fh_put p h' (s\<lparr>live_bufs := k, ticks := t\<rparr>))"
  using quiet_put [of env s "s\<lparr>live_bufs := k, ticks := t\<rparr>" p h h'] assms by (simp add: quiet_refl)

text \<open>
  C3: setting the size of an open file cuts its contents or extends them with zero bytes; when the
  backend still knows the bookmark, the attributes in the reply give the new size and the time of
  the change.
\<close>

theorem fs_truncate_refines:
  assumes "fs_inv env s" "INODE_SUBSYS_TYPE ino = SUBSYS_TYPE_BOOKMARK"
    "fh_heap s (fi_fh fi) = Some h" "fh_ino h = ino" "\<not> has_flag (fh_flags h) FH_FLAG_ISDIR"
    "sa_mask AND FUSE_SET_ATTR_SIZE \<noteq> 0" "st_size st = int n" "n \<le> file_max s" "file_max s \<le> 2 ^ 31"
    "bookmark_lookup B b (INODE_SUBSYS_ID ino) None 0 = (status, bs, b')" "0 \<le> status"
    "SUBSYS_NODEID (bs_id bs) SUBSYS_TYPE_BOOKMARK = ino" "0 \<le> value_len bs" "\<not> ctime (ctx_flags s)"
  shows "\<exists>s' h' attr t. fs_op_setattr env B req ino st sa_mask (Some fi) s b = Some (s', b') \<and>
    fs_inv env s' \<and> fh_heap s' = (fh_heap s)(fi_fh fi \<mapsto> h') \<and>
    content h' = file_truncate (content h) n \<and> has_flag (fh_flags h') FH_FLAG_DIRTY \<and>
    replies s' = replies s @ [(req, Reply_attr attr t)] \<and> st_size attr = int n \<and>
    st_mtim attr = clock env (ticks s)"
proof -
  obtain h' k where 1: "bm_truncate env (fh_ino h) (fi_fh fi) n s =
      Some (0, fh_put (fi_fh fi) h' (s\<lparr>live_bufs := k, ticks := ticks s + 1\<rparr>))"
    "buf_ok h'" "fh_ino h' = fh_ino h" "fh_hashcode h' = fh_hashcode h"
    "fh_flags h' = fh_flags h OR (FH_FLAG_DIRTY OR FH_FLAG_MTIME)" "fh_mtime h' = clock env (ticks s)"
    "content h' = file_truncate (content h) n"
    using bm_truncate_ok [OF assms(1,3,5,8,9)] by blast
  let ?s = "fh_put (fi_fh fi) h' (s\<lparr>live_bufs := k, ticks := ticks s + 1\<rparr>)"
  have q: "quiet env s ?s" using quiet_put_ticks [OF assms(1,3) 1(2-4)] .
  have "handle_at ?s ino (fi_fh fi)" using 1(3) assms(4) by (simp add: handle_at_def)
  then obtain i where get: "bm_fh_get env ino ?s = Some (Some (fi_fh fi, i))"
    using bm_fh_get_found quiet_inv [OF q] unfolding fs_inv_def by blast
  have len: "fh_data_len h' = n" using length_content [OF 1(2)] 1(7) by simp
  have bound: "int n mod 2 ^ 64 = int n"
  proof -
    have "n < 2 ^ 64" using assms(8,9) by simp
    then have "int n < 2 ^ 64" by simp
    then show ?thesis by simp
  qed
  define attr where "attr = (STAT_INIT ?s)\<lparr>st_ino := ino, st_atim := bs_atime bs,
    st_mtim := clock env (ticks s), st_ctim := clock env (ticks s), st_mode := FS_FILEMODE_REG ?s,
    st_size := int n\<rparr>"
  have fill: "bm_fillstat env bs SUBSYS_TYPE_BOOKMARK True (STAT_INIT ?s) ?s = Some attr"
    unfolding bm_fillstat_def Let_def assms(12) get
    using assms(13,14) 1(5,6) len by (simp add: dirty_flags attr_def)
  have not_tag: "\<not> BOOKMARK_IS_TYPE 0 TYPE_TAG"
    by (simp add: BOOKMARK_IS_TYPE_def TYPE_TAG_def BOOKMARK_TYPE_def BOOKMARKFS_BOOKMARK_TYPE_SHIFT_def
        BOOKMARKFS_BOOKMARK_TYPE_BITS_def)
  have look: "bm_lookup env B ino None 0 (STAT_INIT ?s) ?s b = Some (0, attr, b')"
    using assms(10,11) not_tag fill by (simp add: bm_lookup_def)
  have set: "bm_setattr env B ino sa_mask False (Some fi) st s b = Some (0, attr, ?s, b')"
    unfolding bm_setattr_def using assms(4,6,7) 1(1) bound look by simp
  have "INODE_SUBSYS_TYPE ino \<noteq> SUBSYS_TYPE_TAG" using assms(2) by (simp add: subsys_defs)
  then have "fs_op_setattr env B req ino st sa_mask (Some fi) s b =
      Some (send_reply req (Reply_attr attr (FS_ENTRY_TIMEOUT ?s)) ?s, b')"
    unfolding fs_op_setattr_def using assms(2) set by simp
  then show ?thesis
    using 1 quiet_inv [OF q]
    by (intro exI [of _ "send_reply req (Reply_attr attr (FS_ENTRY_TIMEOUT ?s)) ?s"] exI [of _ h']
        exI [of _ attr] exI [of _ "FS_ENTRY_TIMEOUT ?s"]) (simp add: dirty_flags attr_def)
qed

theorem fs_truncate_refines_witness:
  "\<exists>fi s s' h'. bm_open demo_env demo_ino (demo_fi 2) (demo_fs False False) = Some (fi, s) \<and>
     fs_op_setattr demo_env demo_backend demo_req demo_ino (STAT_INIT s\<lparr>st_size := 3\<rparr>) FUSE_SET_ATTR_SIZE
       (Some fi) s demo_data = Some (s', demo_data) \<and>
     fh_heap s' (fi_fh fi) = Some h' \<and> content h' = [0, 0, 0]"
proof -
  obtain fi s h where o: "bm_open demo_env demo_ino (demo_fi 2) (demo_fs False False) = Some (fi, s)"
    "fi_flags fi = 2" "fs_inv demo_env s" "fh_heap s (fi_fh fi) = Some h" "fh_ino h = demo_ino" "content h = []"
    "fh_flags h = 0" "fh_buf h = None" "fh_data_len h = 0" "refcount h = 1"
    "fh_cookie h = NULL" "ctx_flags s = demo_flags False False" "file_max s = 65536" by (rule demo_open)
  have l: "bookmark_lookup demo_backend demo_data (INODE_SUBSYS_ID demo_ino) None 0 = (0, demo_stat 5 demo_data, demo_data)"
    by (simp add: demo_backend_def demo_ino_id)
  have f: "file_truncate [] 3 = [0, 0, 0 :: u8]" by (simp add: file_truncate_def numeral_3_eq_3)
  have g: "fh_data_len h = 0" by (rule o)
  have pre: "FUSE_SET_ATTR_SIZE AND FUSE_SET_ATTR_SIZE \<noteq> 0" "\<not> has_flag (fh_flags h) FH_FLAG_ISDIR"
    "3 \<le> file_max s" "file_max s \<le> 2 ^ 31" "st_size (STAT_INIT s\<lparr>st_size := 3\<rparr>) = int 3"
    "SUBSYS_NODEID (bs_id (demo_stat 5 demo_data)) SUBSYS_TYPE_BOOKMARK = demo_ino"
    "0 \<le> value_len (demo_stat 5 demo_data)" "\<not> ctime (ctx_flags s)"
    using o by (simp_all add: has_flag_def FUSE_SET_ATTR_SIZE_def demo_stat_def demo_data_def demo_ino_def demo_flags_def)
  show ?thesis
    using fs_truncate_refines [OF o(3) demo_ino_type o(4,5) pre(2,1,5,3,4) l _ pre(6-8), of demo_req] o(1,6) f
    by auto
qed

text \<open>
  C4: reading a handle with local changes, or with a buffer in exclusive mode, needs no backend: the
  reply holds exactly the requested range of the contents, cut at the end of the file.
\<close>

theorem fs_read_cached:
  assumes "fs_inv env s" "INODE_SUBSYS_TYPE ino = SUBSYS_TYPE_BOOKMARK" "fh_heap s (fi_fh fi) = Some h"
    "has_flag (fh_flags h) FH_FLAG_DIRTY \<or> exclusive (ctx_flags s) \<and> fh_buf h \<noteq> None"
  shows "fs_op_read env B req ino n off fi s b =
    Some (s\<lparr>replies := replies s @ [(req, Reply_buf (file_read (content h) off n))]\<rparr>, b)"
proof -
  have "bm_read_reply req n off (fi_fh fi) s = Some (send_reply req (Reply_buf (file_read (content h) off n)) s)"
    using bm_read_reply_ok [OF assms(3) fs_inv_buf_ok [OF assms(1,3)]] .
  then show ?thesis using assms(2-4) by (auto simp: fs_op_read_def bm_read_def send_reply_def)
qed

theorem fs_read_cached_witness:
  "\<exists>fi s s' h'. fs_op_write demo_env demo_req demo_ino [1, 2] 3 fi s demo_data = Some (s', demo_data) \<and>
     fs_op_read demo_env demo_backend demo_req demo_ino 2 2 fi s' demo_data =
       Some (s'\<lparr>replies := replies s' @ [(demo_req, Reply_buf [0, 1])]\<rparr>, demo_data)"
proof -
  obtain fi s h where o: "bm_open demo_env demo_ino (demo_fi 2) (demo_fs False False) = Some (fi, s)"
    "fi_flags fi = 2" "fs_inv demo_env s" "fh_heap s (fi_fh fi) = Some h" "fh_ino h = demo_ino" "content h = []"
    "fh_flags h = 0" "fh_buf h = None" "fh_data_len h = 0" "refcount h = 1"
    "fh_cookie h = NULL" "ctx_flags s = demo_flags False False" "file_max s = 65536" by (rule demo_open)
  obtain h' k where 1: "bm_write demo_env demo_req 0 [1, 2] 3 (fi_fh fi) s = Some (0, send_reply demo_req
      (Reply_write (length [1, 2 :: u8])) (fh_put (fi_fh fi) h' (s\<lparr>live_bufs := k, ticks := ticks s + 1\<rparr>)))"
    "buf_ok h'" "fh_ino h' = fh_ino h" "fh_hashcode h' = fh_hashcode h"
    "fh_flags h' = fh_flags h OR (FH_FLAG_DIRTY OR FH_FLAG_MTIME)" "content h' = file_write (content h) 3 [1, 2]"
    using bm_write_ok [OF o(3,4), of "[1, 2]" 0 3 demo_req] o by auto
  let ?s = "send_reply demo_req (Reply_write (length [1, 2 :: u8]))
      (fh_put (fi_fh fi) h' (s\<lparr>live_bufs := k, ticks := ticks s + 1\<rparr>))"
  have inv: "fs_inv demo_env ?s" using quiet_inv [OF quiet_put_ticks [OF o(3,4) 1(2-4)]] by simp
  have "file_read (content h') 2 2 = [0, 1]"
    using 1(6) o(6) by (simp add: file_write_def file_read_def numeral_2_eq_2 numeral_3_eq_3)
  moreover have "fs_op_write demo_env demo_req demo_ino [1, 2] 3 (fi\<lparr>fi_flags := 0\<rparr>) s demo_data = Some (?s, demo_data)"
    using 1(1) demo_ino_type by (simp add: fs_op_write_def)
  ultimately show ?thesis
    using fs_read_cached [OF inv demo_ino_type, of "fi\<lparr>fi_flags := 0\<rparr>" h' demo_backend demo_req 2 2 demo_data]
      1(5) dirty_flags(1) by fastforce
qed

end
