(* ===== verification/Fs_Handle.thy ===== *)
theory Fs_Handle
  imports Fs_Demo
begin

text \<open>
  The life of a file handle: sharing between opens, reads that fetch the backend's value,
  write-back with the end-of-line option, release, and the places where the code cannot go on.
\<close>

section \<open>Reading through the backend\<close>

text \<open>\<open>delivers B b ino v b'\<close>: asked for the contents of the bookmark, the backend hands \<open>v\<close> to the callback.\<close>

definition delivers :: "'b backend \<Rightarrow> 'b \<Rightarrow> u64 \<Rightarrow> bytes \<Rightarrow> 'b \<Rightarrow> bool" where
  "delivers B b ino v b' \<longleftrightarrow> (\<forall>cb w c. \<exists>c'.
     bookmark_get B b (INODE_SUBSYS_ID ino) None cb w c = (fst (cb v w), c', snd (cb v w), b'))"

lemma demo_delivers:
  "b (INODE_SUBSYS_ID ino) = Some v \<Longrightarrow> length v < 2 ^ 31 \<Longrightarrow> delivers demo_backend b ino v b"
  by (simp add: delivers_def demo_backend_def demo_get_def split: prod.splits)

lemma bm_read_fetch:
  assumes inv: "fs_inv env s" and h: "fh_heap s p = Some h"
    and clean: "\<not> has_flag (fh_flags h) FH_FLAG_DIRTY" "\<not> (exclusive (ctx_flags s) \<and> fh_buf h \<noteq> None)"
    and get: "delivers B b ino v b'" and len: "length v < 2 ^ 31"
  shows "\<exists>h' k. bm_read env B req ino n off p s b =
      Some (0, send_reply req (Reply_buf (file_read (with_eol s v) off n)) (fh_put p h' (s\<lparr>live_bufs := k\<rparr>)), b') \<and>
    buf_ok h' \<and> fh_ino h' = fh_ino h \<and> fh_hashcode h' = fh_hashcode h \<and> refcount h' = refcount h \<and>
    fh_flags h' = fh_flags h \<and> content h' = with_eol s v \<and>
    k = live_bufs s + of_bool (fh_buf h = None \<and> fh_buf h' \<noteq> None)"
proof -
  let ?c = "if exclusive (ctx_flags s) then None else Some (fh_cookie h)"
  obtain h' k where cb: "bm_read_cb env p v (Some s) = (0, Some (fh_put p h' (s\<lparr>live_bufs := k\<rparr>)))"
    and h': "buf_ok h'" "fh_ino h' = fh_ino h" "fh_hashcode h' = fh_hashcode h" "refcount h' = refcount h"
      "fh_flags h' = fh_flags h" "content h' = with_eol s v"
      "k = live_bufs s + of_bool (fh_buf h = None \<and> fh_buf h' \<noteq> None)"
    using bm_read_cb_ok [OF inv h len] by blast
  obtain c' where get': "bookmark_get B b (INODE_SUBSYS_ID ino) None (bm_read_cb env p) (Some s) ?c =
      (0, c', Some (fh_put p h' (s\<lparr>live_bufs := k\<rparr>)), b')"
    using get cb unfolding delivers_def by (metis fst_conv snd_conv)
  define h2 where "h2 = (if exclusive (ctx_flags s) then h' else h'\<lparr>fh_cookie := c'\<rparr>)"
  have s2: "(if ?c = None then fh_put p h' (s\<lparr>live_bufs := k\<rparr>)
      else fh_put p (h'\<lparr>fh_cookie := c'\<rparr>) (fh_put p h' (s\<lparr>live_bufs := k\<rparr>))) = fh_put p h2 (s\<lparr>live_bufs := k\<rparr>)"
    by (simp add: h2_def fh_put_def)
  have not_cached: "\<not> (has_flag (fh_flags h) FH_FLAG_DIRTY \<or> exclusive (ctx_flags s) \<and> fh_buf h \<noteq> None)"
    using clean by blast
  have ok: "buf_ok h2" "content h2 = with_eol s v" using h' by (simp_all add: h2_def)
  have "bm_read_reply req n off p (fh_put p h2 (s\<lparr>live_bufs := k\<rparr>)) =
      Some (send_reply req (Reply_buf (file_read (with_eol s v) off n)) (fh_put p h2 (s\<lparr>live_bufs := k\<rparr>)))"
    using bm_read_reply_ok [of "fh_put p h2 (s\<lparr>live_bufs := k\<rparr>)" p h2] ok by simp
  then have "bm_read env B req ino n off p s b =
      Some (0, send_reply req (Reply_buf (file_read (with_eol s v) off n)) (fh_put p h2 (s\<lparr>live_bufs := k\<rparr>)), b')"
    unfolding bm_read_def h bind.bind_lunit if_not_P [OF not_cached] get' Let_def prod.case
    using s2 by simp
  then show ?thesis
    using ok h' by (intro exI [of _ h2] exI [of _ k]) (simp add: h2_def)
qed

text \<open>
  C26: reading an unmodified handle fetches the bookmark from the backend: the reply is the requested
  range of its value, with the newline that the \<open>eol\<close> option adds, and the handle then holds it.
\<close>

theorem fs_read_fetches:
  assumes "fs_inv env s" "INODE_SUBSYS_TYPE ino = SUBSYS_TYPE_BOOKMARK" "fh_heap s (fi_fh fi) = Some h"
    "\<not> has_flag (fh_flags h) FH_FLAG_DIRTY" "\<not> exclusive (ctx_flags s) \<or> fh_buf h = None"
    "delivers B b ino v b'" "length v < 2 ^ 31"
  shows "\<exists>s' h'. fs_op_read env B req ino n off fi s b = Some (s', b') \<and> fs_inv env s' \<and>
    replies s' = replies s @ [(req, Reply_buf (file_read (with_eol s v) off n))] \<and>
    fh_heap s' = (fh_heap s)(fi_fh fi \<mapsto> h') \<and> content h' = with_eol s v \<and> refcount h' = refcount h"
proof -
  have not_cached: "\<not> (exclusive (ctx_flags s) \<and> fh_buf h \<noteq> None)" using assms(5) by auto
  obtain h' k where 1: "bm_read env B req ino n off (fi_fh fi) s b =
      Some (0, send_reply req (Reply_buf (file_read (with_eol s v) off n))
        (fh_put (fi_fh fi) h' (s\<lparr>live_bufs := k\<rparr>)), b')"
    and h': "buf_ok h'" "fh_ino h' = fh_ino h" "fh_hashcode h' = fh_hashcode h" "refcount h' = refcount h"
      "content h' = with_eol s v"
    using bm_read_fetch [OF assms(1,3,4) not_cached assms(6,7), of req n off] by blast
  have "quiet env s (fh_put (fi_fh fi) h' (s\<lparr>live_bufs := k\<rparr>))"
    using quiet_put [of env s "s\<lparr>live_bufs := k\<rparr>" "fi_fh fi" h h'] assms(1,3) h' by (simp add: quiet_refl)
  then show ?thesis
    using 1 h' assms(2) by (auto simp: fs_op_read_def quiet_inv intro!: exI [of _ h'])
qed

theorem fs_read_fetches_witness:
  "\<exists>fi s s'. bm_open demo_env demo_ino (demo_fi 2) (demo_fs False True) = Some (fi, s) \<and>
     fs_op_read demo_env demo_backend demo_req demo_ino 4 3 fi s demo_data = Some (s', demo_data) \<and>
     replies s' = [(demo_req, Reply_buf (str ''lo'' @ [10]))]"
proof -
  obtain fi s h where o: "bm_open demo_env demo_ino (demo_fi 2) (demo_fs False True) = Some (fi, s)"
    "fi_flags fi = 2" "fs_inv demo_env s" "fh_heap s (fi_fh fi) = Some h" "fh_ino h = demo_ino" "content h = []"
    "fh_flags h = 0" "fh_buf h = None" "fh_data_len h = 0" "refcount h = 1"
    "fh_cookie h = NULL" "ctx_flags s = demo_flags False True" "file_max s = 65536" "live_bufs s = 0" "replies s = []" by (rule demo_open)
  have d: "delivers demo_backend demo_data demo_ino (str ''hello'') demo_data"
    by (rule demo_delivers) (simp_all add: demo_ino_id demo_data_def str_def)
  have r: "file_read (with_eol s (str ''hello'')) 3 4 = str ''lo'' @ [10]"
    using o(12) by (simp add: file_read_def with_eol_def demo_flags_def str_def)
  have c: "\<not> has_flag (fh_flags h) FH_FLAG_DIRTY" using o(7) by (simp add: has_flag_def)
  show ?thesis
    using fs_read_fetches [OF o(3) demo_ino_type o(4) c _ d, of demo_req 4 3] o(1,8,15) r
    by (auto simp: str_def)
qed

text \<open>
  when the backend reports that its value has not changed (\<open>-ESTALE\<close>), a read is served from
  what the handle already holds.
\<close>

theorem fs_read_unchanged:
  assumes "fs_inv env s" "INODE_SUBSYS_TYPE ino = SUBSYS_TYPE_BOOKMARK" "fh_heap s (fi_fh fi) = Some h"
    "\<not> has_flag (fh_flags h) FH_FLAG_DIRTY" "\<not> exclusive (ctx_flags s)"
    "bookmark_get B b (INODE_SUBSYS_ID ino) None (bm_read_cb env (fi_fh fi)) (Some s) (Some (fh_cookie h)) =
      (- ESTALE, c, Some s, b')"
  shows "fs_op_read env B req ino n off fi s b =
    Some (send_reply req (Reply_buf (file_read (content h) off n))
      (fh_put (fi_fh fi) (h\<lparr>fh_cookie := c\<rparr>) s), b')"
proof -
  have "bm_read_reply req n off (fi_fh fi) (fh_put (fi_fh fi) (h\<lparr>fh_cookie := c\<rparr>) s) =
      Some (send_reply req (Reply_buf (file_read (content h) off n)) (fh_put (fi_fh fi) (h\<lparr>fh_cookie := c\<rparr>) s))"
    using bm_read_reply_ok [of "fh_put (fi_fh fi) (h\<lparr>fh_cookie := c\<rparr>) s" "fi_fh fi" "h\<lparr>fh_cookie := c\<rparr>"]
      fs_inv_buf_ok [OF assms(1,3)] by simp
  then show ?thesis
    using assms(2-6) by (simp add: fs_op_read_def bm_read_def)
qed

text \<open>A backend that never has news, over the same store.\<close>

definition stale_backend :: "demo_store backend" where
  "stale_backend = demo_backend\<lparr>bookmark_get := (\<lambda>b i x cb w c. (- ESTALE, 8, w, b))\<rparr>"

theorem fs_read_unchanged_witness:
  "\<exists>fi s. bm_open demo_env demo_ino (demo_fi 2) (demo_fs False True) = Some (fi, s) \<and>
     (\<exists>s'. fs_op_read demo_env stale_backend demo_req demo_ino 4 3 fi s demo_data = Some (s', demo_data) \<and>
       replies s' = [(demo_req, Reply_buf [])])"
proof -
  obtain fi s h where o: "bm_open demo_env demo_ino (demo_fi 2) (demo_fs False True) = Some (fi, s)"
    "fi_flags fi = 2" "fs_inv demo_env s" "fh_heap s (fi_fh fi) = Some h" "fh_ino h = demo_ino" "content h = []"
    "fh_flags h = 0" "fh_buf h = None" "fh_data_len h = 0" "refcount h = 1"
    "fh_cookie h = NULL" "ctx_flags s = demo_flags False True" "file_max s = 65536" "live_bufs s = 0" "replies s = []" by (rule demo_open)
  have c: "\<not> has_flag (fh_flags h) FH_FLAG_DIRTY" "\<not> exclusive (ctx_flags s)"
    using o(7,12) by (simp_all add: has_flag_def demo_flags_def)
  have "bookmark_get stale_backend demo_data i x cb w c = (- ESTALE, 8, w, demo_data)" for i x cb w c
    by (simp add: stale_backend_def)
  from fs_read_unchanged [OF o(3) demo_ino_type o(4) c this, of demo_req 4 3] show ?thesis
    using o(1,6,15) by (simp add: file_read_def)
qed

section \<open>Write-back\<close>

text \<open>What \<open>bm_do_write\<close> leaves when the backend accepts the value (and the time).\<close>

definition accepts :: "'b backend \<Rightarrow> 'b \<Rightarrow> u64 \<Rightarrow> fs_ctx \<Rightarrow> fs_file_handle \<Rightarrow> 'b \<Rightarrow> bool" where
  "accepts B b ino s h b' \<longleftrightarrow> (\<exists>b1.
     bookmark_set B b (INODE_SUBSYS_ID ino) None 0 (Content (without_eol s (content h))) = (0, b1) \<and>
     (if has_flag (fh_flags h) FH_FLAG_MTIME
      then bookmark_set B b1 (INODE_SUBSYS_ID ino) None SET_MTIME (Times timespec_zero (fh_mtime h)) = (0, b')
      else b' = b1))"

lemma bm_do_write_accepted:
  assumes "fh_heap s p = Some h" "buf_ok h" "has_flag (fh_flags h) FH_FLAG_DIRTY"
    "\<not> has_flag (fh_flags h) FH_FLAG_ISDIR" "eol (ctx_flags s) \<Longrightarrow> content h \<noteq> []" "accepts B b ino s h b'"
  shows "bm_do_write B ino (Some p) s b =
    Some (0, fh_put p (clear_flag (FH_FLAG_DIRTY OR FH_FLAG_MTIME) h) s, b')"
proof -
  obtain b1 where b1:
    "bookmark_set B b (INODE_SUBSYS_ID ino) None 0 (Content (without_eol s (content h))) = (0, b1)"
    "if has_flag (fh_flags h) FH_FLAG_MTIME
     then bookmark_set B b1 (INODE_SUBSYS_ID ino) None SET_MTIME (Times timespec_zero (fh_mtime h)) = (0, b')
     else b' = b1"
    using assms(6) unfolding accepts_def by blast
  show ?thesis
    using bm_do_write_dirty [OF assms(1-5), of B ino b] b1 by (auto split: if_splits)
qed

text \<open>
  C25: \<open>fsync\<close> of a modified file stores its contents, less the one newline at the end that \<open>eol\<close>
  stands for, marks the handle clean and replies with success; if the backend then returns what it
  was given, the next read gives the contents back, with a newline at the end under \<open>eol\<close>.
\<close>

theorem fs_fsync_roundtrip:
  assumes "fs_inv env s" "INODE_SUBSYS_TYPE ino = SUBSYS_TYPE_BOOKMARK" "fh_heap s (fi_fh fi) = Some h"
    "has_flag (fh_flags h) FH_FLAG_DIRTY" "\<not> has_flag (fh_flags h) FH_FLAG_ISDIR"
    "\<not> readonly (ctx_flags s)" "\<not> exclusive (ctx_flags s)" "content h \<noteq> []" "length (content h) < 2 ^ 31"
    "accepts B b ino s h b1" "bookmark_sync B b1 = (0, b2)"
    "delivers B b2 ino (without_eol s (content h)) b3"
  shows "\<exists>s1 s2. fs_op_fsync B req ino fi s b = Some (s1, b2) \<and>
    replies s1 = replies s @ [(req, Reply_err 0)] \<and> fs_inv env s1 \<and>
    fh_heap s1 (fi_fh fi) = Some (clear_flag (FH_FLAG_DIRTY OR FH_FLAG_MTIME) h) \<and>
    fs_op_read env B req ino n off fi s1 b2 = Some (s2, b3) \<and>
    replies s2 = replies s1 @ [(req, Reply_buf (file_read (with_eol s (without_eol s (content h))) off n))]"
proof -
  let ?h = "clear_flag (FH_FLAG_DIRTY OR FH_FLAG_MTIME) h"
  let ?s = "fh_put (fi_fh fi) ?h s"
  have ok: "buf_ok h" and nn: "fi_fh fi \<noteq> NULL"
    using assms(1,3) unfolding fs_inv_def table_ok_def by blast+
  have "bm_do_write B ino (Some (fi_fh fi)) s b = Some (0, ?s, b1)"
    using bm_do_write_accepted [OF assms(3) ok assms(4,5) _ assms(10)] assms(8) by blast
  then have 1: "fs_op_fsync B req ino fi s b = Some (reply_err req 0 ?s, b2)"
    using assms(2,6,11) nn by (simp add: fs_op_fsync_def)
  have inv: "fs_inv env (reply_err req 0 ?s)"
    using quiet_inv [OF quiet_put_same [OF quiet_refl [OF assms(1)] assms(3), of ?h]] by simp
  have len: "length (without_eol s (content h)) < 2 ^ 31"
    using assms(9) unfolding without_eol_def by (simp add: less_imp_diff_less)
  have w: "with_eol (reply_err req 0 ?s) v = with_eol s v" for v by (simp add: with_eol_def)
  obtain s2 h' where "fs_op_read env B req ino n off fi (reply_err req 0 ?s) b2 = Some (s2, b3)"
    "replies s2 = replies (reply_err req 0 ?s) @
       [(req, Reply_buf (file_read (with_eol s (without_eol s (content h))) off n))]"
    using fs_read_fetches [OF inv assms(2) _ clean_flags [of h] _ assms(12) len, of fi req n off] assms(7) w
    by (auto simp: reply_err_def)
  then show ?thesis using 1 inv by (auto simp: reply_err_def)
qed

lemma demo_accepts: "\<exists>b'. accepts demo_backend b ino s h b' \<and> b' = b(INODE_SUBSYS_ID ino \<mapsto> without_eol s (content h))"
  by (auto simp: accepts_def demo_backend_def)

theorem fs_fsync_roundtrip_witness:
  "\<exists>fi s h s1 s2 b. fh_heap s (fi_fh fi) = Some h \<and> content h = [104, 105, 10] \<and>
     fs_op_fsync demo_backend demo_req demo_ino fi s demo_data = Some (s1, b) \<and> b 5 = Some [104, 105] \<and>
     fs_op_read demo_env demo_backend demo_req demo_ino 9 1 fi s1 b = Some (s2, b) \<and>
     replies s2 = replies s @ [(demo_req, Reply_err 0), (demo_req, Reply_buf [105, 10])]"
proof -
  obtain fi s0 s h where o: "bm_open demo_env demo_ino (demo_fi 2) (demo_fs False True) = Some (fi, s0)"
    "fs_op_write demo_env demo_req demo_ino [104, 105, 10] 0 fi s0 demo_data = Some (s, demo_data)"
    "fs_inv demo_env s" "fh_heap s (fi_fh fi) = Some h" "fh_ino h = demo_ino" "content h = [104, 105, 10]"
    "has_flag (fh_flags h) FH_FLAG_DIRTY" "has_flag (fh_flags h) FH_FLAG_MTIME"
    "\<not> has_flag (fh_flags h) FH_FLAG_ISDIR" "refcount h = 1" "ctx_flags s = demo_flags False True"
    "file_max s = 65536" "replies s = [(demo_req, Reply_write (length [104, 105, 10 :: u8]))]"
    by (rule demo_written [of "[104, 105, 10]" False True]) simp_all
  have wo: "without_eol s (content h) = [104, 105]" "with_eol s [104, 105] = [104, 105, 10]"
    using o(6,11) by (simp_all add: without_eol_def with_eol_def demo_flags_def)
  let ?b = "demo_data(5 \<mapsto> [104, 105 :: u8])"
  have a: "accepts demo_backend demo_data demo_ino s h ?b"
    using demo_accepts [of demo_data demo_ino s h] wo by (simp add: demo_ino_id)
  have d: "delivers demo_backend ?b demo_ino (without_eol s (content h)) ?b"
    by (rule demo_delivers) (simp_all add: demo_ino_id wo)
  have sync: "bookmark_sync demo_backend ?b = (0, ?b)" by (simp add: demo_backend_def)
  have fl: "\<not> readonly (ctx_flags s)" "\<not> exclusive (ctx_flags s)" "content h \<noteq> []"
    "length (content h) < 2 ^ 31"
    using o(6,11) by (simp_all add: demo_flags_def)
  have r: "file_read [104, 105, 10 :: u8] 1 9 = [105, 10]" by (simp add: file_read_def)
  from fs_fsync_roundtrip [OF o(3) demo_ino_type o(4,7,9) fl a sync d, of demo_req 9 1]
  obtain s1 s2 where "fs_op_fsync demo_backend demo_req demo_ino fi s demo_data = Some (s1, ?b)"
    "replies s1 = replies s @ [(demo_req, Reply_err 0)]"
    "fs_op_read demo_env demo_backend demo_req demo_ino 9 1 fi s1 ?b = Some (s2, ?b)"
    "replies s2 = replies s1 @ [(demo_req, Reply_buf [105, 10])]"
    unfolding wo r by blast
  then show ?thesis
    using o(4,6) by (intro exI [of _ fi] exI [of _ s] exI [of _ h] exI [of _ s1] exI [of _ s2] exI [of _ ?b]) simp
qed

section \<open>The end-of-line option and empty files\<close>

text \<open>
  C27: with the \<open>eol\<close> option, opening a file for writing with \<open>O_TRUNC\<close> and then syncing it before
  anything is written makes \<open>bm_do_write\<close> look at the byte before the buffer: the request never ends
  well.  The same happens when the only user of the handle closes it.
\<close>

theorem fs_truncated_open_stuck:
  assumes "fs_inv env s" "INODE_SUBSYS_TYPE ino = SUBSYS_TYPE_BOOKMARK"
    "bm_open env ino fi s = Some (fi', s')" "fi_flags fi AND O_TRUNC \<noteq> 0" "fi_flags fi AND O_ACCMODE \<noteq> O_RDONLY"
    "eol (ctx_flags s)" "\<not> readonly (ctx_flags s)"
  shows "fs_op_fsync B req ino fi' s' b = None \<and>
    (\<not> (\<exists>p. handle_at s ino p) \<longrightarrow> fs_op_release env B req ino fi' s' b = None)"
proof -
  obtain p s1 h where 1: "bm_fh_new env ino s = Some (p, s1)" "fh_heap s1 p = Some h"
    using assms(3) by (auto simp: bm_open_def split: bind_splits)
  note new = bm_fh_new_ok [OF assms(1) 1(1)]
  let ?h = "h\<lparr>fh_data_len := 0, fh_mtime := clock env (ticks s1),
    fh_flags := fh_flags h OR (FH_FLAG_DIRTY OR FH_FLAG_MTIME)\<rparr>"
  have s': "fi_fh fi' = p" "s' = fh_put p ?h (s1\<lparr>ticks := ticks s1 + 1\<rparr>)"
    using assms(3-5) 1 by (auto simp: bm_open_def xgetrealtime_def)
  have heap: "fh_heap s' p = Some ?h" and fl: "ctx_flags s' = ctx_flags s"
    using s' new by simp_all
  have dirty: "has_flag (fh_flags (?h\<lparr>refcount := r\<rparr>)) FH_FLAG_DIRTY" for r
    by (simp add: dirty_flags)
  have stuck: "bm_do_write B ino (Some p) (fh_put p (?h\<lparr>refcount := r\<rparr>) s') b = None" for r
    by (rule bm_do_write_empty_eol [of _ _ "?h\<lparr>refcount := r\<rparr>"])
      (use dirty assms(6) fl in simp_all)
  have same: "fh_put p (?h\<lparr>refcount := refcount h\<rparr>) s' = s'"
    by (simp add: s' fh_put_def)
  have "bm_do_write B ino (Some p) s' b = None" using stuck [of "refcount h"] unfolding same .
  moreover have "p \<noteq> NULL" using new 1(2) unfolding fs_inv_def table_ok_def by blast
  ultimately have f: "fs_op_fsync B req ino fi' s' b = None"
    using assms(2,7) fl s'(1) by (simp add: fs_op_fsync_def)
  moreover have "fs_op_release env B req ino fi' s' b = None" if "\<not> (\<exists>p. handle_at s ino p)"
  proof -
    have "refcount h = 1" using new 1(2) that by simp
    then show ?thesis
      using assms(2) heap s'(1) stuck [of 0] by (simp add: fs_op_release_def bm_free_def)
  qed
  ultimately show ?thesis by blast
qed

lemma bm_open_total: "bm_fh_new env ino s = Some (p, s') \<Longrightarrow> fh_heap s' p = Some h \<Longrightarrow> \<exists>r. bm_open env ino fi s = Some r"
  by (simp add: bm_open_def Let_def)

theorem fs_truncated_open_stuck_witness:
  "\<exists>fi s. bm_open demo_env demo_ino (demo_fi 0x201) (demo_fs False True) = Some (fi, s) \<and>
     fs_op_fsync demo_backend demo_req demo_ino fi s demo_data = None \<and>
     fs_op_release demo_env demo_backend demo_req demo_ino fi s demo_data = None"
proof -
  obtain p s1 where new: "bm_fh_new demo_env demo_ino (demo_fs False True) = Some (p, s1)"
    using bm_fh_new_empty demo_fs_facts by metis
  then obtain h where "fh_heap s1 p = Some h"
    using bm_fh_new_ok [OF demo_fs_facts(1) new] by (auto simp: handle_at_def)
  then obtain fi s where o: "bm_open demo_env demo_ino (demo_fi 0x201) (demo_fs False True) = Some (fi, s)"
    using bm_open_total [OF new] by (metis surj_pair)
  have "\<not> (\<exists>p. handle_at (demo_fs False True) demo_ino p)"
    by (simp add: handle_at_def demo_fs_facts)
  then show ?thesis
    using fs_truncated_open_stuck [OF demo_fs_facts(1) demo_ino_type o, of demo_backend demo_req demo_data] o
    by (auto simp: demo_fs_facts demo_flags_def demo_fi_def O_TRUNC_def O_ACCMODE_def O_RDONLY_def)
qed

section \<open>Sharing and release\<close>

lemma bm_open_keep:
  "fi_flags fi AND O_TRUNC = 0 \<Longrightarrow> bm_fh_new env ino s = Some (p, s') \<Longrightarrow> fh_heap s' p = Some h \<Longrightarrow>
   \<exists>fi'. bm_open env ino fi s = Some (fi', s') \<and> fi_fh fi' = p"
  by (simp add: bm_open_def Let_def)

text \<open>
  a second open of a file that is open already gives the same handle, with its contents and one
  user more.
\<close>

theorem fs_open_shares:
  assumes "fs_inv env s" "INODE_SUBSYS_TYPE ino = SUBSYS_TYPE_BOOKMARK" "fh_heap s p = Some h" "fh_ino h = ino"
    "fi_flags fi AND O_TRUNC = 0"
  shows "\<exists>s' fi'. fs_op_open env req ino fi s b = Some (s', b) \<and> fs_inv env s' \<and> fi_fh fi' = p \<and>
    replies s' = replies s @ [(req, Reply_open fi')] \<and>
    fh_heap s' = (fh_heap s)(p \<mapsto> h\<lparr>refcount := refcount h + 1\<rparr>)"
proof -
  have at: "handle_at s ino p" using assms(3,4) by (simp add: handle_at_def)
  then obtain n where "bm_fh_get env ino s = Some (Some (p, n))"
    using bm_fh_get_found assms(1) unfolding fs_inv_def by blast
  then have new: "bm_fh_new env ino s = Some (p, fh_put p (h\<lparr>refcount := refcount h + 1\<rparr>) s)"
    using assms(3) by (simp add: bm_fh_new_def)
  have inv: "fs_inv env (fh_put p (h\<lparr>refcount := refcount h + 1\<rparr>) s)"
    using quiet_inv [OF quiet_put_same [OF quiet_refl [OF assms(1)] assms(3), of "h\<lparr>refcount := refcount h + 1\<rparr>"]]
    by simp
  have "\<exists>fi'. fs_op_open env req ino fi s b =
      Some (send_reply req (Reply_open fi') (fh_put p (h\<lparr>refcount := refcount h + 1\<rparr>) s), b) \<and> fi_fh fi' = p"
    using bm_open_keep [OF assms(5) new] assms(2) by (auto simp: fs_op_open_def)
  then show ?thesis using inv by auto
qed

theorem fs_open_shares_witness:
  "\<exists>fi fi' s s' h. fh_heap s (fi_fh (fi :: fuse_file_info)) = Some h \<and> content h = [1] \<and>
     fs_op_open demo_env demo_req demo_ino (demo_fi 0) s demo_data = Some (s', demo_data) \<and>
     fi_fh fi' = fi_fh fi \<and> replies s' = replies s @ [(demo_req, Reply_open fi')]"
proof -
  obtain fi s0 s h where o: "bm_open demo_env demo_ino (demo_fi 2) (demo_fs False False) = Some (fi, s0)"
    "fs_op_write demo_env demo_req demo_ino [1] 0 fi s0 demo_data = Some (s, demo_data)"
    "fs_inv demo_env s" "fh_heap s (fi_fh fi) = Some h" "fh_ino h = demo_ino" "content h = [1]"
    by (rule demo_written [of "[1]" False False]) simp_all
  have "fi_flags (demo_fi 0) AND O_TRUNC = 0" by (simp add: demo_fi_def)
  from fs_open_shares [OF o(3) demo_ino_type o(4,5) this, of demo_req demo_data]
  obtain s' fi' where "fs_op_open demo_env demo_req demo_ino (demo_fi 0) s demo_data = Some (s', demo_data)"
    "fi_fh fi' = fi_fh fi" "replies s' = replies s @ [(demo_req, Reply_open fi')]" by blast
  then show ?thesis
    using o(4,6) by (intro exI [of _ fi] exI [of _ fi'] exI [of _ s] exI [of _ s'] exI [of _ h]) simp
qed

lemma bm_free_last:
  assumes inv: "fs_inv env s" and h: "fh_heap s (fi_fh fi) = Some h" "refcount h = 1"
    and w: "bm_do_write B ino (Some (fi_fh fi)) (fh_put (fi_fh fi) (h\<lparr>refcount := 0\<rparr>) s) b = Some (st, s1, b1)"
  shows "\<exists>s'. bm_free env B ino fi s b =
      Some (if st \<noteq> 0 \<and> inval_status env (length (invals s1)) \<noteq> 0 then - EIO else st, s',
        if fh_cookie h \<noteq> NULL then cookie_free B b1 (fh_cookie h) False else b1) \<and>
    fs_inv env s' \<and> fh_heap s' = (fh_heap s1)(fi_fh fi := None) \<and> replies s' = replies s \<and>
    invals s' = (if st \<noteq> 0 then invals s1 @ [ino] else invals s1) \<and>
    live_bufs s' = live_bufs s1 - of_bool (\<not> readonly (ctx_flags s) \<and> fh_buf h \<noteq> None)"
proof -
  let ?p = "fi_fh fi" and ?h = "h\<lparr>refcount := 0\<rparr>"
  have q0: "quiet env s (fh_put ?p ?h s)"
    using quiet_put_same [OF quiet_refl [OF inv] h(1), of ?h] by simp
  have q1: "quiet env s s1" and live: "fh_heap s1 ?p \<noteq> None"
    using bm_do_write_quiet [OF quiet_inv [OF q0] w] quiet_trans [OF q0] by auto
  define s2 where "s2 = (if st \<noteq> 0 then s1\<lparr>invals := invals s1 @ [ino]\<rparr> else s1)
    \<lparr>live_bufs := live_bufs s1 - of_bool (\<not> readonly (ctx_flags s) \<and> fh_buf h \<noteq> None)\<rparr>"
  have q2: "quiet env s s2" and e: "fh_heap s2 = fh_heap s1" "replies s2 = replies s"
    "invals s2 = (if st \<noteq> 0 then invals s1 @ [ino] else invals s1)"
    "live_bufs s2 = live_bufs s1 - of_bool (\<not> readonly (ctx_flags s) \<and> fh_buf h \<noteq> None)"
    using q1 by (auto simp: s2_def quiet_def)
  obtain h2 where "fh_heap s2 ?p = Some h2" using live e(1) by auto
  from bm_fh_free_ok [OF quiet_inv [OF q2] this, of "-1"] obtain s' where
    free: "bm_fh_free ?p (-1) s2 = Some s'" "fs_inv env s'" "fh_heap s' = (fh_heap s2)(?p := None)"
      "replies s' = replies s2" "live_bufs s' = live_bufs s2" "invals s' = invals s2" by auto
  have fl: "ctx_flags s1 = ctx_flags s" using quiet_flags [OF q1] by simp
  have same: "s1\<lparr>live_bufs := live_bufs s1\<rparr> = s1" "\<And>x. s1\<lparr>live_bufs := live_bufs s1, invals := x\<rparr> = s1\<lparr>invals := x\<rparr>"
    by simp_all
  have "bm_free env B ino fi s b =
      Some (if st \<noteq> 0 \<and> inval_status env (length (invals s1)) \<noteq> 0 then - EIO else st, s',
        if fh_cookie h \<noteq> NULL then cookie_free B b1 (fh_cookie h) False else b1)"
    using h w free(1) fl
    by (cases "st = 0"; cases "readonly (ctx_flags s)"; cases "fh_buf h")
      (simp_all add: bm_free_def inval_inode_def s2_def same)
  then show ?thesis using free(2-) e by simp
qed

text \<open>
  C28: closing a file that others have open still only counts down its users; the last close stores a
  modified file's contents, frees the handle and replies with success, so that the next open starts
  from the backend again.
\<close>

theorem fs_release_stores:
  assumes "fs_inv env s" "INODE_SUBSYS_TYPE ino = SUBSYS_TYPE_BOOKMARK" "fh_heap s (fi_fh fi) = Some h"
    "fh_ino h = ino" "1 \<le> refcount h" "has_flag (fh_flags h) FH_FLAG_DIRTY"
    "\<not> has_flag (fh_flags h) FH_FLAG_ISDIR" "content h \<noteq> []" "fh_cookie h = NULL" "accepts B b ino s h b1"
  shows "\<exists>s'. fs_op_release env B req ino fi s b = Some (s', if refcount h = 1 then b1 else b) \<and> fs_inv env s' \<and>
    replies s' = replies s @ [(req, Reply_err 0)] \<and>
    fh_heap s' = (fh_heap s)(fi_fh fi := if refcount h = 1 then None else Some (h\<lparr>refcount := refcount h - 1\<rparr>))"
proof (cases "refcount h = 1")
  case False
  let ?h = "h\<lparr>refcount := refcount h - 1\<rparr>"
  have "refcount h \<noteq> 0" using assms(5) by (auto simp: word_le_nat_alt)
  then have "0 < refcount h - 1" using False by (simp add: word_gt_0)
  then have "fs_op_release env B req ino fi s b = Some (reply_err req 0 (fh_put (fi_fh fi) ?h s), b)"
    using assms(2,3) by (simp add: fs_op_release_def bm_free_def)
  moreover have "fs_inv env (fh_put (fi_fh fi) ?h s)"
    using quiet_inv [OF quiet_put_same [OF quiet_refl [OF assms(1)] assms(3), of ?h]] by simp
  ultimately show ?thesis using False by auto
next
  case True
  let ?h = "h\<lparr>refcount := 0\<rparr>" and ?s = "fh_put (fi_fh fi) (h\<lparr>refcount := 0\<rparr>) s"
  have heap: "fh_heap ?s (fi_fh fi) = Some ?h" by simp
  have ok: "buf_ok ?h" using fs_inv_buf_ok [OF assms(1,3)] by simp
  have "without_eol ?s c = without_eol s c" for c by (simp add: without_eol_def)
  then have "accepts B b ino ?s ?h b1" using assms(10) unfolding accepts_def
    by (cases "has_flag (fh_flags h) FH_FLAG_MTIME") simp_all
  from bm_do_write_accepted [OF heap ok _ _ _ this] assms(6-8)
  have w: "bm_do_write B ino (Some (fi_fh fi)) ?s b =
      Some (0, fh_put (fi_fh fi) (clear_flag (FH_FLAG_DIRTY OR FH_FLAG_MTIME) ?h) ?s, b1)" by simp
  from bm_free_last [OF assms(1,3) True w] obtain s' where
    "bm_free env B ino fi s b = Some (0, s', b1)" "fs_inv env s'"
    "fh_heap s' = (fh_heap s)(fi_fh fi := None)" "replies s' = replies s"
    using assms(9) by auto
  then show ?thesis using True assms(2) by (simp add: fs_op_release_def reply_err_def send_reply_def)
qed

theorem fs_release_stores_witness:
  "\<exists>fi s s' h b. fh_heap s (fi_fh (fi :: fuse_file_info)) = Some h \<and> content h = [1, 2] \<and>
     fs_op_release demo_env demo_backend demo_req demo_ino fi s demo_data = Some (s', b) \<and>
     b 5 = Some [1, 2] \<and> fh_heap s' (fi_fh fi) = None"
proof -
  obtain fi s0 s h where o: "bm_open demo_env demo_ino (demo_fi 2) (demo_fs False False) = Some (fi, s0)"
    "fs_op_write demo_env demo_req demo_ino [1, 2] 0 fi s0 demo_data = Some (s, demo_data)"
    "fs_inv demo_env s" "fh_heap s (fi_fh fi) = Some h" "fh_ino h = demo_ino" "content h = [1, 2]"
    "has_flag (fh_flags h) FH_FLAG_DIRTY" "has_flag (fh_flags h) FH_FLAG_MTIME"
    "\<not> has_flag (fh_flags h) FH_FLAG_ISDIR" "refcount h = 1" "fh_cookie h = NULL" "ctx_flags s = demo_flags False False"
    by (rule demo_written [of "[1, 2]" False False]) simp_all
  have wo: "without_eol s (content h) = [1, 2]" using o(6,12) by (simp add: without_eol_def demo_flags_def)
  have a: "accepts demo_backend demo_data demo_ino s h (demo_data(5 \<mapsto> [1, 2]))"
    using demo_accepts [of demo_data demo_ino s h] wo by (simp add: demo_ino_id)
  have "1 \<le> refcount h" "content h \<noteq> []" using o(6,10) by simp_all
  from fs_release_stores [OF o(3) demo_ino_type o(4,5) this(1) o(7,9) this(2) o(11) a, of demo_req]
  obtain s' where "fs_op_release demo_env demo_backend demo_req demo_ino fi s demo_data =
      Some (s', demo_data(5 \<mapsto> [1, 2]))" "fh_heap s' (fi_fh fi) = None"
    unfolding o(10) by auto
  then show ?thesis
    using o(4,6) by (intro exI [of _ fi] exI [of _ s] exI [of _ s'] exI [of _ h]
        exI [of _ "demo_data(5 \<mapsto> [1, 2])"]) simp
qed

text \<open>
  C29: when the last close cannot store a modified file, the kernel is told to drop what it cached of
  the inode and gets the error; the handle, and the contents with it, are gone.
\<close>

theorem fs_release_fails:
  assumes "fs_inv env s" "INODE_SUBSYS_TYPE ino = SUBSYS_TYPE_BOOKMARK" "fh_heap s (fi_fh fi) = Some h"
    "refcount h = 1" "has_flag (fh_flags h) FH_FLAG_DIRTY"
    "\<not> has_flag (fh_flags h) FH_FLAG_ISDIR" "content h \<noteq> []" "fh_cookie h = NULL"
    "bookmark_set B b (INODE_SUBSYS_ID ino) None 0 (Content (without_eol s (content h))) = (st, b1)" "st < 0"
  shows "\<exists>s'. fs_op_release env B req ino fi s b = Some (s', b1) \<and> fs_inv env s' \<and>
    replies s' = replies s @ [(req, Reply_err (if inval_status env (length (invals s)) = 0 then - st else EIO))] \<and>
    invals s' = invals s @ [ino] \<and> fh_heap s' = (fh_heap s)(fi_fh fi := None)"
proof -
  let ?h = "h\<lparr>refcount := 0\<rparr>" and ?s = "fh_put (fi_fh fi) (h\<lparr>refcount := 0\<rparr>) s"
  have heap: "fh_heap ?s (fi_fh fi) = Some ?h" by simp
  have ok: "buf_ok ?h" using fs_inv_buf_ok [OF assms(1,3)] by simp
  have wo: "without_eol ?s c = without_eol s c" for c by (simp add: without_eol_def)
  from bm_do_write_dirty [OF heap ok, of B ino b] assms(5-7,9,10)
  have w: "bm_do_write B ino (Some (fi_fh fi)) ?s b = Some (st, ?s, b1)" by (simp add: wo)
  from bm_free_last [OF assms(1,3,4) w] obtain s' where
    "bm_free env B ino fi s b =
      Some (if inval_status env (length (invals s)) \<noteq> 0 then - EIO else st, s', b1)" "fs_inv env s'"
    "fh_heap s' = (fh_heap s)(fi_fh fi := None)" "replies s' = replies s" "invals s' = invals s @ [ino]"
    using assms(8,10) by auto
  then show ?thesis using assms(2) by (auto simp: fs_op_release_def reply_err_def send_reply_def)
qed

text \<open>A backend that refuses every change.\<close>

definition full_backend :: "demo_store backend" where
  "full_backend = demo_backend\<lparr>bookmark_set := (\<lambda>b i x flags v. (- EPERM, b))\<rparr>"

theorem fs_release_fails_witness:
  "\<exists>fi s s' h. fh_heap s (fi_fh (fi :: fuse_file_info)) = Some h \<and> content h = [1, 2] \<and>
     fs_op_release demo_env full_backend demo_req demo_ino fi s demo_data = Some (s', demo_data) \<and>
     replies s' = replies s @ [(demo_req, Reply_err EPERM)] \<and> invals s' = invals s @ [demo_ino] \<and>
     fh_heap s' (fi_fh fi) = None"
proof -
  obtain fi s0 s h where o: "bm_open demo_env demo_ino (demo_fi 2) (demo_fs False False) = Some (fi, s0)"
    "fs_op_write demo_env demo_req demo_ino [1, 2] 0 fi s0 demo_data = Some (s, demo_data)"
    "fs_inv demo_env s" "fh_heap s (fi_fh fi) = Some h" "fh_ino h = demo_ino" "content h = [1, 2]"
    "has_flag (fh_flags h) FH_FLAG_DIRTY" "has_flag (fh_flags h) FH_FLAG_MTIME"
    "\<not> has_flag (fh_flags h) FH_FLAG_ISDIR" "refcount h = 1" "fh_cookie h = NULL" "ctx_flags s = demo_flags False False"
    by (rule demo_written [of "[1, 2]" False False]) simp_all
  have "content h \<noteq> []" using o(6) by simp
  moreover have "bookmark_set full_backend demo_data i x f v = (- EPERM, demo_data)" for i x f v
    by (simp add: full_backend_def)
  moreover have "- EPERM < 0" by (simp add: EPERM_def)
  ultimately obtain s' where
    "fs_op_release demo_env full_backend demo_req demo_ino fi s demo_data = Some (s', demo_data)"
    "replies s' = replies s @ [(demo_req, Reply_err EPERM)]" "invals s' = invals s @ [demo_ino]"
    "fh_heap s' (fi_fh fi) = None"
    using fs_release_fails [OF o(3) demo_ino_type o(4,10,7,9) _ o(11), of full_backend demo_data "- EPERM" demo_data demo_req]
    by (auto simp: demo_env_def)
  then show ?thesis
    using o(4,6) by (intro exI [of _ fi] exI [of _ s] exI [of _ s'] exI [of _ h]) simp
qed

text \<open>
  on a read-only mount a file that was read and is closed leaves its buffer allocated: the
  handle is gone, but one buffer more than before is live.
\<close>

theorem fs_release_readonly_leaks:
  assumes "fs_inv env s" "INODE_SUBSYS_TYPE ino = SUBSYS_TYPE_BOOKMARK" "fh_heap s (fi_fh fi) = Some h"
    "readonly (ctx_flags s)" "refcount h = 1" "\<not> has_flag (fh_flags h) FH_FLAG_DIRTY" "fh_buf h = None"
    "delivers B b ino v b1" "length v < 2 ^ 31" "with_eol s v \<noteq> []"
  shows "\<exists>s1 s2 b2. fs_op_read env B req ino n off fi s b = Some (s1, b1) \<and>
    fs_op_release env B req ino fi s1 b1 = Some (s2, b2) \<and>
    fh_heap s2 = (fh_heap s)(fi_fh fi := None) \<and> live_bufs s2 = live_bufs s + 1"
proof -
  have nc: "\<not> (exclusive (ctx_flags s) \<and> fh_buf h \<noteq> None)" using assms(7) by simp
  obtain h' k where 1: "bm_read env B req ino n off (fi_fh fi) s b =
      Some (0, send_reply req (Reply_buf (file_read (with_eol s v) off n))
        (fh_put (fi_fh fi) h' (s\<lparr>live_bufs := k\<rparr>)), b1)"
    and h': "buf_ok h'" "fh_ino h' = fh_ino h" "fh_hashcode h' = fh_hashcode h" "refcount h' = refcount h"
      "fh_flags h' = fh_flags h" "content h' = with_eol s v"
      "k = live_bufs s + of_bool (fh_buf h = None \<and> fh_buf h' \<noteq> None)"
    using bm_read_fetch [OF assms(1,3,6) nc assms(8,9), of req n off] by blast
  let ?s1 = "send_reply req (Reply_buf (file_read (with_eol s v) off n))
    (fh_put (fi_fh fi) h' (s\<lparr>live_bufs := k\<rparr>))"
  have "fh_buf h' \<noteq> None" using h'(6) assms(10) by (auto simp: content_def split: option.splits)
  then have k: "k = live_bufs s + 1" using h'(7) assms(7) by simp
  have "quiet env s (fh_put (fi_fh fi) h' (s\<lparr>live_bufs := k\<rparr>))"
    using quiet_put [of env s "s\<lparr>live_bufs := k\<rparr>" "fi_fh fi" h h'] assms(1,3) h' by (simp add: quiet_refl)
  then have inv: "fs_inv env ?s1" using quiet_inv by simp
  have heap: "fh_heap ?s1 (fi_fh fi) = Some h'" "refcount h' = 1" using h'(4) assms(5) by simp_all
  have "bm_do_write B ino (Some (fi_fh fi)) (fh_put (fi_fh fi) (h'\<lparr>refcount := 0\<rparr>) ?s1) b1 =
      Some (0, fh_put (fi_fh fi) (h'\<lparr>refcount := 0\<rparr>) ?s1, b1)"
    by (rule bm_do_write_clean [of _ _ "h'\<lparr>refcount := 0\<rparr>"]) (use h'(5) assms(6) in simp_all)
  from bm_free_last [OF inv heap this] obtain s2 b2 where
    "bm_free env B ino fi ?s1 b1 = Some (0, s2, b2)" "fh_heap s2 = (fh_heap s)(fi_fh fi := None)"
    "live_bufs s2 = live_bufs s + 1"
    using assms(4) k by auto
  then show ?thesis
    using 1 assms(2) by (auto simp: fs_op_read_def fs_op_release_def)
qed

theorem fs_release_readonly_leaks_witness:
  "\<exists>fi s s1 s2 b2. bm_open demo_env demo_ino (demo_fi 2) (demo_fs True False) = Some (fi, s) \<and> live_bufs s = 0 \<and>
     fs_op_read demo_env demo_backend demo_req demo_ino 9 0 fi s demo_data = Some (s1, demo_data) \<and>
     fs_op_release demo_env demo_backend demo_req demo_ino fi s1 demo_data = Some (s2, b2) \<and>
     fh_heap s2 (fi_fh fi) = None \<and> live_bufs s2 = 1"
proof -
  obtain fi s h where o: "bm_open demo_env demo_ino (demo_fi 2) (demo_fs True False) = Some (fi, s)"
    "fs_inv demo_env s" "fh_heap s (fi_fh fi) = Some h" "fh_flags h = 0" "fh_buf h = None" "refcount h = 1"
    "ctx_flags s = demo_flags True False" "live_bufs s = 0" by (rule demo_open)
  have d: "delivers demo_backend demo_data demo_ino (str ''hello'') demo_data"
    by (rule demo_delivers) (simp_all add: demo_ino_id demo_data_def str_def)
  have w: "with_eol s (str ''hello'') \<noteq> []" "length (str ''hello'') < 2 ^ 31" "readonly (ctx_flags s)"
    "\<not> has_flag (fh_flags h) FH_FLAG_DIRTY"
    using o(4,7) by (simp_all add: with_eol_def str_def demo_flags_def has_flag_def)
  from fs_release_readonly_leaks [OF o(2) demo_ino_type o(3) w(3) o(6) w(4) o(5) d w(2,1), of demo_req 9 0]
  obtain s1 s2 b2 where
    "fs_op_read demo_env demo_backend demo_req demo_ino 9 0 fi s demo_data = Some (s1, demo_data)"
    "fs_op_release demo_env demo_backend demo_req demo_ino fi s1 demo_data = Some (s2, b2)"
    "fh_heap s2 = (fh_heap s)(fi_fh fi := None)" "live_bufs s2 = live_bufs s + 1" by blast
  then show ?thesis
    using o(1,8) by (intro exI [of _ fi] exI [of _ s] exI [of _ s1] exI [of _ s2] exI [of _ b2]) simp
qed

section \<open>Changing the size without a handle\<close>

lemma bm_fillstat_total:
  assumes "fs_inv env s"
  shows "\<exists>d. bm_fillstat env src t wl dest s = Some d"
proof -
  have t: "table_ok env s" using assms by (simp add: fs_inv_def)
  show ?thesis
    using bm_fh_get_cases [OF t, of "SUBSYS_NODEID (bs_id src) t"]
    by (auto simp: bm_fillstat_def Let_def handle_at_def)
qed

lemma bm_lookup_total: "fs_inv env s \<Longrightarrow> \<exists>r. bm_lookup env B parent name flags st s b = Some r"
  using bm_fillstat_total [of env s]
  by (auto simp: bm_lookup_def Let_def split: prod.splits) (metis bind.bind_lunit)+

text \<open>
  the kernel's request to change a file's size carries a file handle only if the caller has the
  file open; with the handle the request is always carried through and answered, without it
  \<open>bm_setattr\<close> dereferences a null \<open>fi\<close>.
\<close>

theorem fs_setattr_size_needs_handle:
  assumes "fs_inv env s" "INODE_SUBSYS_TYPE ino = SUBSYS_TYPE_BOOKMARK" "sa_mask AND FUSE_SET_ATTR_SIZE \<noteq> 0"
    "file_max s \<le> 2 ^ 31" "0 \<le> st_size st"
    "\<And>f. fi = Some f \<Longrightarrow> \<exists>h. fh_heap s (fi_fh f) = Some h \<and> fh_ino h = ino \<and> \<not> has_flag (fh_flags h) FH_FLAG_ISDIR"
  shows "(\<exists>s' b'. fs_op_setattr env B req ino st sa_mask fi s b = Some (s', b') \<and> length (replies s') = Suc (length (replies s))) \<longleftrightarrow>
    fi \<noteq> None"
proof (cases fi)
  case None
  then show ?thesis
    using assms(2,3) by (simp add: fs_op_setattr_def bm_setattr_def subsys_defs)
next
  case (Some f)
  then obtain h where h: "fh_heap s (fi_fh f) = Some h" "fh_ino h = ino" "\<not> has_flag (fh_flags h) FH_FLAG_ISDIR"
    using assms(6) by blast
  then have "handle_at s ino (fi_fh f)" by (simp add: handle_at_def)
  then obtain i where get: "bm_fh_get env ino s = Some (Some (fi_fh f, i))"
    using bm_fh_get_found assms(1) unfolding fs_inv_def by blast
  define n where "n = nat (st_size st mod 2 ^ 64)"
  obtain st1 s1 where t: "bm_truncate env ino (fi_fh f) n s = Some (st1, s1)"
  proof (cases "n \<le> file_max s")
    case True
    then show thesis
      using bm_truncate_ok [OF assms(1) h(1,3) True assms(4)] h(2) that by blast
  next
    case False
    then show thesis using that h get by (simp add: bm_truncate_def)
  qed
  note q = bm_truncate_quiet [OF assms(1,4) t]
  obtain r where r: "bm_lookup env B ino None 0 (STAT_INIT s1) s1 b = Some r"
    using bm_lookup_total [OF quiet_inv [OF q], of B ino None 0 "STAT_INIT s1" b] by auto
  have "\<exists>st2 a b'. bm_setattr env B ino sa_mask False (Some f) st s b = Some (st2, a, s1, b')"
    unfolding bm_setattr_def using assms(3) t r unfolding n_def
    by (cases r) (auto split: if_splits)
  then obtain st2 a b' where "bm_setattr env B ino sa_mask False (Some f) st s b = Some (st2, a, s1, b')" by blast
  then show ?thesis
    using assms(2) Some q by (auto simp: fs_op_setattr_def subsys_defs quiet_def)
qed

theorem fs_setattr_size_needs_handle_witness:
  "\<exists>fi s s' b'. bm_open demo_env demo_ino (demo_fi 2) (demo_fs False False) = Some (fi, s) \<and>
     fs_op_setattr demo_env demo_backend demo_req demo_ino (STAT_INIT s) FUSE_SET_ATTR_SIZE (Some fi) s demo_data =
       Some (s', b') \<and>
     \<not> (\<exists>s' b'. fs_op_setattr demo_env demo_backend demo_req demo_ino (STAT_INIT s) FUSE_SET_ATTR_SIZE None s
          demo_data = Some (s', b') \<and> length (replies s') = Suc (length (replies s)))"
proof -
  obtain fi s h where o: "bm_open demo_env demo_ino (demo_fi 2) (demo_fs False False) = Some (fi, s)"
    "fs_inv demo_env s" "fh_heap s (fi_fh fi) = Some h" "fh_ino h = demo_ino" "fh_flags h = 0" "file_max s = 65536"
    by (rule demo_open)
  have m: "FUSE_SET_ATTR_SIZE AND FUSE_SET_ATTR_SIZE \<noteq> 0" "file_max s \<le> 2 ^ 31" "0 \<le> st_size (STAT_INIT s)"
    using o(6) by (simp_all add: FUSE_SET_ATTR_SIZE_def STAT_INIT_def)
  have h: "\<exists>h. fh_heap s (fi_fh f) = Some h \<and> fh_ino h = demo_ino \<and> \<not> has_flag (fh_flags h) FH_FLAG_ISDIR"
    if "Some fi = Some f" for f using o(3-5) that by (simp add: has_flag_def)
  note some = fs_setattr_size_needs_handle [OF o(2) demo_ino_type m, of "Some fi" demo_backend demo_req demo_data, OF h]
  note none = fs_setattr_size_needs_handle [OF o(2) demo_ino_type m, of None demo_backend demo_req demo_data]
  show ?thesis using o(1) some none by auto
qed

end
