(* ===== verification/Fs_Props_Dir.thy ===== *)
theory Fs_Props_Dir
  imports Fs_Handle
begin

text \<open>
  Properties of requests on directories and attributes: listings, extended attributes, access
  checks of the ioctls, routing by subsystem, inode numbers.
\<close>

section \<open>Listings\<close>

text \<open>How a backend walks over its entries: until the callback returns something other than 0.\<close>

fun list_until :: "list_cb \<Rightarrow> bookmark_entry list \<Rightarrow> (nat \<times> fs_ctx) option \<Rightarrow> (nat \<times> fs_ctx) option" where
  "list_until cb [] w = w"
| "list_until cb (e # es) w = (case cb e w of (r, w') \<Rightarrow> if r \<noteq> 0 then w' else list_until cb es w')"

text \<open>The records of the longest prefix that fits.\<close>

fun packed :: "nat \<Rightarrow> bytes list \<Rightarrow> bytes" where
  "packed n [] = []"
| "packed n (x # xs) = (if n < length x then [] else x @ packed (n - length x) xs)"

lemma length_packed: "length (packed n xs) \<le> n"
  by (induction n xs rule: packed.induct) auto

lemma packed_all: "sum_list (map length xs) \<le> n \<Longrightarrow> packed n xs = concat xs"
  by (induction n xs rule: packed.induct) auto

definition dir_stat :: "env \<Rightarrow> fs_ctx \<Rightarrow> bookmark_entry \<Rightarrow> stat" where
  "dir_stat env s e = the (bm_fillstat env (be_stat e) SUBSYS_TYPE_BOOKMARK False (STAT_INIT s) s)"

definition dir_ent :: "env \<Rightarrow> fs_ctx \<Rightarrow> bookmark_entry \<Rightarrow> bytes" where
  "dir_ent env s e = dirent env (be_name e) (dir_stat env s e) (be_off e)"

lemma fillstat_no_local:
  "bm_fillstat env src t False dest (s\<lparr>ctx_buf := bs\<rparr>) = bm_fillstat env src t False dest s"
  "\<exists>d. bm_fillstat env src t False dest s = Some d"
  by (simp_all add: bm_fillstat_def Let_def FS_FILEMODE_DIR_def FS_FILEMODE_REG_def)

lemma not_tag_0: "\<not> BOOKMARK_IS_TYPE 0 TYPE_TAG" "\<not> has_flag 0 m"
  by (simp_all add: BOOKMARK_IS_TYPE_def TYPE_TAG_def BOOKMARK_TYPE_def has_flag_def
      BOOKMARKFS_BOOKMARK_TYPE_SHIFT_def BOOKMARKFS_BOOKMARK_TYPE_BITS_def)

lemma readdir_cb_step:
  "bm_readdir_cb env req 0 n e (Some (len, s\<lparr>ctx_buf := bs\<rparr>)) =
    (let ent = dir_ent env s e
     in if n - len < length ent then (1, Some (len, s\<lparr>ctx_buf := bs\<rparr>))
        else (0, Some (len + length ent, s\<lparr>ctx_buf := blit bs len ent\<rparr>)))"
proof -
  obtain d where d: "bm_fillstat env (be_stat e) SUBSYS_TYPE_BOOKMARK False (STAT_INIT s) s = Some d"
    using fillstat_no_local(2) by blast
  have "ep_attr (ENTRY_PARAM_INIT (s\<lparr>ctx_buf := bs\<rparr>)) = STAT_INIT s"
    by (simp add: ENTRY_PARAM_INIT_def STAT_INIT_def)
  then show ?thesis
    by (simp add: bm_readdir_cb_def not_tag_0 fillstat_no_local(1) d dir_ent_def dir_stat_def Let_def)
qed

lemma list_until_packed:
  assumes "len \<le> n" "n \<le> length bs"
  shows "\<exists>bs'. list_until (bm_readdir_cb env req 0 n) es (Some (len, s\<lparr>ctx_buf := bs\<rparr>)) =
      Some (len + length (packed (n - len) (map (dir_ent env s) es)), s\<lparr>ctx_buf := bs'\<rparr>) \<and>
    take (len + length (packed (n - len) (map (dir_ent env s) es))) bs' =
      take len bs @ packed (n - len) (map (dir_ent env s) es)"
  using assms
proof (induction es arbitrary: len bs)
  case (Cons e es)
  let ?ent = "dir_ent env s e"
  show ?case
  proof (cases "n - len < length ?ent")
    case True
    then show ?thesis by (simp add: readdir_cb_step) (intro exI [of _ bs], simp)
  next
    case False
    let ?bs = "blit bs len ?ent"
    have 1: "len + length ?ent \<le> n" "n \<le> length ?bs" using False Cons.prems by (simp_all add: length_blit)
    have "take (len + length ?ent) ?bs = take len bs @ ?ent"
      using Cons.prems 1 by (simp add: blit_def)
    then show ?thesis
      using Cons.IH [OF 1] False Cons.prems by (simp add: readdir_cb_step Let_def add.assoc diff_diff_left)
  qed
qed (intro exI, simp)



section \<open>Extended attributes\<close>

lemma xattr_foreach_nonempty: "x \<in> set (xattr_foreach names) \<Longrightarrow> x \<noteq> []"
proof (induction names rule: xattr_foreach.induct)
  case (1 names)
  then show ?case by (subst (asm) (2) xattr_foreach.simps) (auto simp: Let_def split: if_splits)
qed

lemma is_xattr_name_iff:
  "is_xattr_name name s \<longleftrightarrow> (\<exists>x \<in> set (xattr_foreach (xattr_names s)). name = BOOKMARKFS_XATTR_PREFIX @ x)"
proof
  assume "is_xattr_name name s"
  then have t: "take (length BOOKMARKFS_XATTR_PREFIX) name = BOOKMARKFS_XATTR_PREFIX"
    and d: "drop (length BOOKMARKFS_XATTR_PREFIX) name \<in> set (xattr_foreach (xattr_names s))"
    by (auto simp: is_xattr_name_def Let_def list_ex_iff split: if_splits)
  have "name = BOOKMARKFS_XATTR_PREFIX @ drop (length BOOKMARKFS_XATTR_PREFIX) name"
    using t by (metis append_take_drop_id)
  then show "\<exists>x \<in> set (xattr_foreach (xattr_names s)). name = BOOKMARKFS_XATTR_PREFIX @ x" using d by blast
next
  assume "\<exists>x \<in> set (xattr_foreach (xattr_names s)). name = BOOKMARKFS_XATTR_PREFIX @ x"
  then obtain x where "x \<in> set (xattr_foreach (xattr_names s))" "name = BOOKMARKFS_XATTR_PREFIX @ x" by blast
  then show "is_xattr_name name s"
    using xattr_foreach_nonempty [of x "xattr_names s"] by (auto simp: is_xattr_name_def Let_def list_ex_iff)
qed

text \<open>The list of names as \<open>listxattr(2)\<close> returns it: each with its prefix and a final NUL.\<close>

definition xattr_block :: "bytes list \<Rightarrow> bytes" where
  "xattr_block xs = concat (map (\<lambda>x. BOOKMARKFS_XATTR_PREFIX @ x @ [0]) xs)"

lemma xattr_block_Cons [simp]: "xattr_block (x # xs) = BOOKMARKFS_XATTR_PREFIX @ x @ [0] @ xattr_block xs"
  by (simp add: xattr_block_def)

lemma lsxattr_loop_size: "lsxattr_loop xs 0 k buf = (0, k + length (xattr_block xs), buf)"
  by (induction xs arbitrary: k) (simp_all add: xattr_block_def)

lemma lsxattr_loop_ok:
  assumes "0 < m" "k + length (xattr_block xs) \<le> m" "m \<le> length buf"
  shows "\<exists>buf'. lsxattr_loop xs m k buf = (0, k + length (xattr_block xs), buf') \<and>
    take (k + length (xattr_block xs)) buf' = take k buf @ xattr_block xs"
  using assms
proof (induction xs arbitrary: k buf)
  case (Cons x xs)
  let ?p = "BOOKMARKFS_XATTR_PREFIX"
  define l where "l = length x + (length ?p + 1)"
  define buf2 where "buf2 = blit (blit buf k ?p) (k + length ?p) (x @ [0])"
  have fit: "k + l + length (xattr_block xs) \<le> m" using Cons.prems by (simp add: l_def)
  have len: "length buf2 = length buf" using fit Cons.prems by (simp add: buf2_def l_def length_blit)
  have t: "take (k + l) buf2 = take k buf @ ?p @ x @ [0]"
  proof -
    have "length (take (k + length ?p) (blit buf k ?p)) = k + length ?p"
      using fit Cons.prems by (simp add: l_def length_blit)
    moreover have "take (k + length ?p) (blit buf k ?p) = take k buf @ ?p"
      using fit Cons.prems by (simp add: l_def blit_def)
    ultimately show ?thesis by (simp add: buf2_def blit_def l_def)
  qed
  obtain buf' where "lsxattr_loop xs m (k + l) buf2 = (0, k + l + length (xattr_block xs), buf')"
    "take (k + l + length (xattr_block xs)) buf' = take (k + l) buf2 @ xattr_block xs"
    using Cons.IH [of "k + l" buf2] fit len Cons.prems by auto
  then show ?case
    using Cons.prems fit t by (simp add: Let_def l_def buf2_def add.assoc add.left_commute)
qed (simp add: xattr_block_def)

lemma lsxattr_loop_range:
  assumes "0 < m" "m < k + length (xattr_block xs)" "k \<le> m"
  shows "\<exists>k' buf'. lsxattr_loop xs m k buf = (- ERANGE, k', buf')"
  using assms
proof (induction xs arbitrary: k buf)
  case (Cons x xs)
  then show ?case
    by (cases "m < k + (length x + (length BOOKMARKFS_XATTR_PREFIX + 1))")
      (simp_all add: Let_def add.assoc add.left_commute)
qed (simp add: xattr_block_def)

text \<open>
  C31: listing the extended attributes of a bookmark: the size query gives the exact length of the
  list, a buffer of at least that length gets the list, a smaller one \<open>ERANGE\<close>, and one larger
  than the shared buffer \<open>E2BIG\<close>.
\<close>

theorem fs_listxattr_exact:
  fixes s :: fs_ctx
  assumes "INODE_SUBSYS_TYPE ino = SUBSYS_TYPE_BOOKMARK"
  defines "names \<equiv> xattr_block (xattr_foreach (xattr_names s))"
  shows "\<exists>bs. fs_op_listxattr req ino n s b = Some (s\<lparr>ctx_buf := bs, replies := replies s @ [(req,
    if length (ctx_buf s) < n then Reply_err E2BIG
    else if n = 0 then Reply_xattr (length names)
    else if length names \<le> n then Reply_buf names
    else Reply_err ERANGE)]\<rparr>, b)"
proof -
  let ?xs = "xattr_foreach (xattr_names s)"
  consider "length (ctx_buf s) < n" | "n = 0" | "0 < n" "n \<le> length (ctx_buf s)" "length names \<le> n"
    | "0 < n" "n \<le> length (ctx_buf s)" "n < length names" by linarith
  then show ?thesis
  proof cases
    case 1
    then show ?thesis
      by (intro exI [of _ "ctx_buf s"]) (simp add: fs_op_listxattr_def reply_err_def send_reply_def E2BIG_def)
  next
    case 2
    then show ?thesis
      using assms(1) unfolding names_def
      by (intro exI [of _ "ctx_buf s"])
        (simp add: fs_op_listxattr_def bm_lsxattr_def lsxattr_loop_size subsys_defs send_reply_def)
  next
    case 3
    then obtain buf' where "lsxattr_loop ?xs n 0 (ctx_buf s) = (0, length names, buf')" "take (length names) buf' = names"
      using lsxattr_loop_ok [of n 0 ?xs "ctx_buf s"] unfolding names_def by auto
    then show ?thesis
      using assms(1) 3 by (intro exI [of _ buf']) (simp add: fs_op_listxattr_def bm_lsxattr_def subsys_defs send_reply_def)
  next
    case 4
    then obtain k' buf' where "lsxattr_loop ?xs n 0 (ctx_buf s) = (- ERANGE, k', buf')"
      using lsxattr_loop_range [of n 0 ?xs "ctx_buf s"] unfolding names_def by auto
    then show ?thesis
      using assms(1) 4 by (intro exI [of _ buf'])
        (simp add: fs_op_listxattr_def bm_lsxattr_def subsys_defs reply_err_def send_reply_def ERANGE_def)
  qed
qed

lemma xattr_foreach_one:
  "x \<noteq> [] \<Longrightarrow> 0 \<notin> set x \<Longrightarrow> xattr_foreach (x @ 0 # rest) = x # xattr_foreach rest"
proof -
  assume x: "x \<noteq> []" "0 \<notin> set x"
  then have "takeWhile (\<lambda>c. c \<noteq> 0) (x @ 0 # rest) = x"
    by (metis (mono_tags, lifting) takeWhile_tail takeWhile_eq_all_conv append.right_neutral)
  then show ?thesis using x by (subst xattr_foreach.simps) simp
qed

lemma xattr_foreach_end: "xattr_foreach [0] = []" by (subst xattr_foreach.simps) simp

text \<open>A mounted file system whose bookmarks have the attribute \<open>guid\<close>.\<close>

definition demo_xfs :: fs_ctx where
  "demo_xfs = (demo_fs False False)\<lparr>xattr_names := str ''guid'' @ [0, 0]\<rparr>"

lemma demo_xfs_names: "xattr_foreach (xattr_names demo_xfs) = [str ''guid'']"
  using xattr_foreach_one [of "str ''guid''" "[0]"] by (simp add: demo_xfs_def str_def xattr_foreach_end)

lemma length_demo_buf: "length (ctx_buf (demo_fs ro nl)) = 4096"
  by (simp add: demo_fs_def mounted_def fs_op_init_def demo_env_def PERMD_DATA_SIZE_def)

theorem fs_listxattr_exact_witness:
  "\<exists>s. fs_op_listxattr demo_req demo_ino 100 demo_xfs demo_data = Some (s, demo_data) \<and>
     replies s = [(demo_req, Reply_buf (str ''user.bookmarkfs.guid'' @ [0]))]"
proof -
  have "length (ctx_buf demo_xfs) = 4096" "replies demo_xfs = []"
    by (simp_all add: demo_xfs_def length_demo_buf demo_fs_facts)
  moreover have "xattr_block [str ''guid''] = str ''user.bookmarkfs.guid'' @ [0]"
    by (simp add: xattr_block_def BOOKMARKFS_XATTR_PREFIX_def str_def)
  ultimately show ?thesis
    using fs_listxattr_exact [OF demo_ino_type, of demo_req 100 demo_xfs demo_data]
    unfolding demo_xfs_names by (auto simp: str_def)
qed


definition guid_backend :: "demo_store backend" where
  "guid_backend = demo_backend\<lparr>bookmark_get := (\<lambda>b i x cb w c. case cb (case x of None \<Rightarrow> [] | Some n \<Rightarrow> n @ n) w of
     (r, w) \<Rightarrow> (r, 0, w, b))\<rparr>"


section \<open>Access checks of the ioctls\<close>

text \<open>The permission bits that a check of \<open>mode\<close> by a caller asks for, owner, group and others.\<close>

definition wanted_bits :: "fuse_req \<Rightarrow> nat \<Rightarrow> fs_ctx \<Rightarrow> u32" where
  "wanted_bits req mode s =
     ((if mode AND R_OK \<noteq> 0 then 0x124 else 0) OR (if mode AND W_OK \<noteq> 0 then 0x92 else 0) OR
      (if mode AND X_OK \<noteq> 0 then 0x49 else 0)) AND
     NOT (if req_uid req \<noteq> ctx_uid s then 0x1c0 else 0) AND NOT (if req_gid req \<noteq> ctx_gid s then 0x38 else 0)"

lemma has_access_wanted: "has_access req mode s \<longleftrightarrow> wanted_bits req mode s AND NOT (accmode (ctx_flags s)) \<noteq> 0"
  by (auto simp: has_access_def wanted_bits_def Let_def)

lemma bm_ioctl_permd:
  assumes "fs_inv env s" "fh_heap s p = Some h" "fh_ino h = ino" "length ibuf = PERMD_DATA_SIZE"
    "\<not> readonly (ctx_flags s)"
  shows "bm_ioctl env B req ino IOC_PERMD flags ibuf n cookie s b =
    (if \<not> has_access req (W_OK OR X_OK) s then Some (- EACCES, s, b)
     else (let (result, b) = bookmark_permute B b (INODE_SUBSYS_ID ino) (pd_op (permd_decode ibuf))
                 (pd_name1 (permd_decode ibuf)) (pd_name2 (permd_decode ibuf)) flags
           in if result < 0 then Some (result, s, b)
              else ioctl_reply req result n (fh_put p (set_flag FH_FLAG_DIRTY h) s) b))"
proof -
  have "handle_at s ino p" using assms(2,3) by (simp add: handle_at_def)
  then obtain i where get: "bm_fh_get env ino s = Some (Some (p, i))"
    using bm_fh_get_found assms(1) unfolding fs_inv_def by blast
  have c: "IOC_PERMD \<noteq> IOC_FSCK_REWIND" "IOC_PERMD \<noteq> IOC_FSCK_NEXT" "IOC_PERMD \<noteq> IOC_FSCK_APPLY"
    by (simp_all add: IOC_PERMD_def IOC_FSCK_REWIND_def IOC_FSCK_NEXT_def IOC_FSCK_APPLY_def IOC_def
        FSCK_DATA_SIZE_def PERMD_DATA_SIZE_def)
  show ?thesis
    using assms c get
    by (auto simp: bm_ioctl_def bm_permute_def fh_update_def Let_def split: prod.splits)
qed


definition stranger :: fuse_req where
  "stranger = \<lparr>req_id = 2, req_uid = 7, req_gid = 7\<rparr>"

lemma demo_ids: "ctx_uid (demo_fs ro nl) = 1000" "ctx_gid (demo_fs ro nl) = 1000"
  by (simp_all add: demo_fs_def mounted_def fs_op_init_def demo_env_def PERMD_DATA_SIZE_def
      fs_init_opts_def fs_init_metadata_def fs_ctx_static_def)


text \<open>
  C34: on a read-only mount the ioctls that change a folder are refused with \<open>EROFS\<close>, and syncing a
  file or a folder succeeds without a call to the backend.
\<close>

theorem fs_readonly_untouched:
  assumes "fs_inv env s" "INODE_SUBSYS_TYPE ino = SUBSYS_TYPE_BOOKMARK" "readonly (ctx_flags s)"
    "flags AND FUSE_IOCTL_DIR \<noteq> 0"
  shows "(length ibuf = PERMD_DATA_SIZE \<longrightarrow>
      fs_op_ioctl env B req ino IOC_PERMD fi flags ibuf n s b = Some (send_reply req (Reply_err EROFS) s, b)) \<and>
    (length ibuf = FSCK_DATA_SIZE \<and> n = FSCK_DATA_SIZE \<longrightarrow>
      fs_op_ioctl env B req ino IOC_FSCK_APPLY fi flags ibuf n s b = Some (send_reply req (Reply_err EROFS) s, b)) \<and>
    fs_op_fsync B req ino fi s b = Some (send_reply req (Reply_err 0) s, b) \<and>
    fs_op_fsyncdir env B req ino s b = Some (send_reply req (Reply_err 0) s, b)"
proof -
  have c: "IOC_PERMD \<noteq> IOC_FSCK_REWIND" "IOC_PERMD \<noteq> IOC_FSCK_NEXT" "IOC_PERMD \<noteq> IOC_FSCK_APPLY"
    "IOC_FSCK_APPLY \<noteq> IOC_FSCK_REWIND" "IOC_FSCK_APPLY \<noteq> IOC_FSCK_NEXT"
    by (simp_all add: IOC_PERMD_def IOC_FSCK_REWIND_def IOC_FSCK_NEXT_def IOC_FSCK_APPLY_def IOC_def
        FSCK_DATA_SIZE_def PERMD_DATA_SIZE_def)
  have t: "table_ok env s" using assms(1) by (simp add: fs_inv_def)
  obtain r where "bm_fh_get env ino s = Some r" using bm_fh_get_cases [OF t, of ino] by blast
  then show ?thesis
    using assms c
    by (simp add: fs_op_ioctl_def bm_ioctl_def subsys_defs reply_err_def fs_op_fsync_def fs_op_fsyncdir_def EROFS_def)
qed

theorem fs_readonly_untouched_witness:
  "fs_op_ioctl demo_env demo_backend demo_req demo_ino IOC_PERMD (demo_fi 0) FUSE_IOCTL_DIR
     (replicate PERMD_DATA_SIZE 0) 0 (demo_fs True False) demo_data =
   Some (send_reply demo_req (Reply_err EROFS) (demo_fs True False), demo_data)"
  using fs_readonly_untouched [OF demo_fs_facts(1) [where ro = True and nl = False] demo_ino_type, where
      flags = FUSE_IOCTL_DIR and ibuf = "replicate PERMD_DATA_SIZE 0" and B = demo_backend and req = demo_req
      and fi = "demo_fi 0" and n = 0 and b = demo_data]
  by (simp add: demo_fs_facts demo_flags_def FUSE_IOCTL_DIR_def)

section \<open>Consistency checks\<close>

text \<open>
  C35: a folder is checked through one descriptor at a time: while one has a check under way, the next
  step through another is refused with \<open>EBUSY\<close> without a call to the backend, and closing the
  descriptor that has it ends the check.
\<close>

theorem fs_fsck_exclusive:
  assumes "fs_inv env s" "INODE_SUBSYS_TYPE ino = SUBSYS_TYPE_BOOKMARK" "fh_heap s p = Some h" "fh_ino h = ino"
    "has_flag (fh_flags h) FH_FLAG_FSCK" "has_access req R_OK s" "flags AND FUSE_IOCTL_DIR \<noteq> 0" "1 < refcount h"
  shows "(fi_fh fi \<noteq> fh_cookie h \<longrightarrow>
      fs_op_ioctl env B req ino IOC_FSCK_NEXT fi flags ibuf FSCK_DATA_SIZE s b =
        Some (send_reply req (Reply_err EBUSY) s, b)) \<and>
    (fi_fh fi = fh_cookie h \<longrightarrow>
      (\<exists>s' h'. fs_op_releasedir env B req ino fi s b = Some (s', cookie_free B b (fi_fh fi) True) \<and>
        fh_heap s' p = Some h' \<and> \<not> has_flag (fh_flags h') FH_FLAG_FSCK \<and> refcount h' = refcount h - 1))"
proof -
  have c: "IOC_FSCK_NEXT \<noteq> IOC_FSCK_REWIND"
    by (simp add: IOC_FSCK_REWIND_def IOC_FSCK_NEXT_def IOC_def FSCK_DATA_SIZE_def)
  have "handle_at s ino p" using assms(3,4) by (simp add: handle_at_def)
  then obtain i where get: "bm_fh_get env ino s = Some (Some (p, i))"
    using bm_fh_get_found assms(1) unfolding fs_inv_def by blast
  have busy: "fs_op_ioctl env B req ino IOC_FSCK_NEXT fi flags ibuf FSCK_DATA_SIZE s b =
      Some (send_reply req (Reply_err EBUSY) s, b)" if "fi_fh fi \<noteq> fh_cookie h"
    using assms get that c by (simp add: fs_op_ioctl_def bm_ioctl_def subsys_defs reply_err_def EBUSY_def)
  have more: "0 < refcount h - 1"
    using assms(8) by (auto simp: word_gt_0)
  have "\<not> has_flag (fh_flags (clear_flag FH_FLAG_FSCK h)) FH_FLAG_FSCK"
    unfolding fh_flag_powers has_flag_power clear_flag_def by (simp add: bit_simps)
  then have rel: "\<exists>s' h'. fs_op_releasedir env B req ino fi s b = Some (s', cookie_free B b (fi_fh fi) True) \<and>
      fh_heap s' p = Some h' \<and> \<not> has_flag (fh_flags h') FH_FLAG_FSCK \<and> refcount h' = refcount h - 1"
    if "fi_fh fi = fh_cookie h"
    using assms(2,3,5) get that more by (simp add: fs_op_releasedir_def bm_freedir_def subsys_defs Let_def)
  show ?thesis using busy rel by blast
qed

text \<open>A folder whose check was started through cookie 3, opened twice.\<close>

lemma demo_checked:
  obtains s p h where "fs_inv demo_env s" "fh_heap s p = Some h" "fh_ino h = demo_ino"
    "has_flag (fh_flags h) FH_FLAG_FSCK" "fh_cookie h = 3" "refcount h = 2" "ctx_flags s = demo_flags False False"
    "replies s = []" "ctx_buf s = ctx_buf (demo_fs False False)" "ctx_uid s = 1000"
proof -
  have "0 AND O_TRUNC = 0" by simp
  from demo_opened [OF this, of False False] obtain fi s h where
    q: "quiet demo_env (demo_fs False False) s" and
    h: "fh_heap s (fi_fh (fi :: fuse_file_info)) = Some h" "fh_ino h = demo_ino" and
    fl: "ctx_flags s = demo_flags False False" and
    o: "bm_open demo_env demo_ino (demo_fi 0) (demo_fs False False) = Some (fi, s)" by blast
  let ?h = "(set_flag FH_FLAG_FSCK h)\<lparr>fh_cookie := 3, refcount := 2\<rparr>"
  have q2: "quiet demo_env (demo_fs False False) (fh_put (fi_fh fi) ?h s)"
    using quiet_put_same [OF q h(1), of ?h] by simp
  have "has_flag (fh_flags ?h) FH_FLAG_FSCK" using set_flag_has(2) [of h] by simp
  moreover have "replies s = []" "ctx_uid s = 1000" using q by (simp_all add: quiet_def opts_def demo_fs_facts demo_ids)
  moreover have "ctx_buf s = ctx_buf (demo_fs False False)"
    using o bm_fh_new_ok [OF demo_fs_facts(1)] by (auto simp: bm_open_def Let_def demo_fi_def split: bind_splits)
  ultimately show thesis
    using that [of "fh_put (fi_fh fi) ?h s" "fi_fh fi" ?h] quiet_inv [OF q2] h(2) fl by (simp add: fh_put_def)
qed

theorem fs_fsck_exclusive_witness:
  "\<exists>s p h s'. fh_heap (s :: fs_ctx) p = Some h \<and> has_flag (fh_flags h) FH_FLAG_FSCK \<and>
     fs_op_ioctl demo_env demo_backend demo_req demo_ino IOC_FSCK_NEXT (demo_fi 0) FUSE_IOCTL_DIR [] FSCK_DATA_SIZE
       s demo_data = Some (s', demo_data) \<and> replies s' = [(demo_req, Reply_err EBUSY)]"
proof -
  obtain s p h where o: "fs_inv demo_env s" "fh_heap s p = Some h" "fh_ino h = demo_ino"
    "has_flag (fh_flags h) FH_FLAG_FSCK" "fh_cookie h = 3" "refcount h = 2" "ctx_flags s = demo_flags False False"
    "replies s = []" "ctx_buf s = ctx_buf (demo_fs False False)" "ctx_uid s = 1000" by (rule demo_checked)
  have a: "has_access demo_req R_OK s"
    unfolding has_access_wanted wanted_bits_def o(7) o(10)
    by (simp add: R_OK_def W_OK_def X_OK_def demo_flags_def demo_req_def)
  have d: "FUSE_IOCTL_DIR AND FUSE_IOCTL_DIR \<noteq> 0" "1 < refcount h" using o(6) by (simp_all add: FUSE_IOCTL_DIR_def)
  show ?thesis
    using fs_fsck_exclusive [OF o(1) demo_ino_type o(2-4) a d, of "demo_fi 0" demo_backend "[]" demo_data] o(2,4,5,8)
    by (intro exI [of _ s] exI [of _ p] exI [of _ h] exI [of _ "send_reply demo_req (Reply_err EBUSY) s"])
      (simp add: demo_fi_def)
qed

lemma bit_le_word:
  "bit (le_word bs :: 'a::len word) n \<longleftrightarrow> n < LENGTH('a) \<and> n div 8 < length bs \<and> bit (bs ! (n div 8)) (n mod 8)"
proof (induction bs arbitrary: n)
  case (Cons b bs)
  show ?case
  proof (cases "n < 8")
    case True
    then show ?thesis by (auto simp: bit_simps)
  next
    case False
    then obtain m where m: "n = m + 8" by (metis le_add_diff_inverse2 not_less)
    have "(m + 8) div 8 = Suc (m div 8)" "(m + 8) mod 8 = m mod 8" by simp_all
    then show ?thesis
      using Cons.IH [of m] m by (auto simp: bit_simps u8_high_bit simp del: div_add_self2 dest: bit_imp_le_length)
  qed
qed simp

lemma le_bytes_le_word:
  assumes "8 * length bs \<le> LENGTH('a)"
  shows "le_bytes (length bs) (le_word bs :: 'a::len word) = bs"
proof (rule nth_equalityI)
  fix i assume "i < length (le_bytes (length bs) (le_word bs :: 'a word))"
  then have i: "i < length bs" by simp
  have "bit (ucast (drop_bit (8 * i) (le_word bs :: 'a word)) :: u8) k = bit (bs ! i) k" if "k < 8" for k
  proof -
    have "8 * i + k < LENGTH('a)" using assms i that by linarith
    moreover have "(8 * i + k) div 8 = i" "(8 * i + k) mod 8 = k" using that by simp_all
    ultimately show ?thesis using i that by (simp add: bit_simps bit_le_word)
  qed
  then have "ucast (drop_bit (8 * i) (le_word bs :: 'a word)) = bs ! i"
    by (intro bit_word_eqI) simp
  then show "le_bytes (length bs) (le_word bs :: 'a word) ! i = bs ! i"
    using i by (simp add: le_bytes_def)
qed simp

lemma fsck_encode_decode: "FSCK_DATA_SIZE \<le> length bs \<Longrightarrow> fsck_encode (fsck_decode bs) = take FSCK_DATA_SIZE bs"
proof -
  assume l: "FSCK_DATA_SIZE \<le> length bs"
  have a: "le_bytes 8 (le_word (take 8 bs) :: u64) = take 8 bs"
    using le_bytes_le_word [of "take 8 bs", where 'a = 64] l by (simp add: FSCK_DATA_SIZE_def)
  have b: "le_bytes 8 (le_word (take 8 (drop 8 bs)) :: u64) = take 8 (drop 8 bs)"
    using le_bytes_le_word [of "take 8 (drop 8 bs)", where 'a = 64] l by (simp add: FSCK_DATA_SIZE_def)
  have "take 272 bs = take 8 bs @ take 264 (drop 8 bs)"
    using take_add [of 8 264 bs] by simp
  moreover have "take 264 (drop 8 bs) = take 8 (drop 8 bs) @ take 256 (drop 16 bs)"
    using take_add [of 8 256 "drop 8 bs"] by simp
  ultimately show ?thesis by (simp add: fsck_encode_def fsck_decode_def a b FSCK_DATA_SIZE_def)
qed

text \<open>
  C36: when the backend fails a step of a check, the caller of the ioctl still gets 272 bytes: what
  earlier requests, such as listings of other folders, left in the shared buffer.
\<close>

theorem fs_fsck_error_leaks:
  assumes "fs_inv env s" "INODE_SUBSYS_TYPE ino = SUBSYS_TYPE_BOOKMARK" "fh_heap s p = Some h" "fh_ino h = ino"
    "\<not> has_flag (fh_flags h) FH_FLAG_FSCK" "has_access req R_OK s" "flags AND FUSE_IOCTL_DIR \<noteq> 0"
    "FSCK_DATA_SIZE \<le> length (ctx_buf s)" "bookmark_check B = Some check" "st < 0"
    "\<And>w. check b (INODE_SUBSYS_ID ino) None 0 (Some bm_check_cb) w (fi_fh fi) = (st, w, b')"
  shows "fs_op_ioctl env B req ino IOC_FSCK_NEXT fi flags ibuf FSCK_DATA_SIZE s b =
    Some (send_reply req (Reply_ioctl st (take FSCK_DATA_SIZE (ctx_buf s))) s, b')"
proof -
  have c: "IOC_FSCK_NEXT \<noteq> IOC_FSCK_REWIND"
    by (simp add: IOC_FSCK_REWIND_def IOC_FSCK_NEXT_def IOC_def FSCK_DATA_SIZE_def)
  have "handle_at s ino p" using assms(3,4) by (simp add: handle_at_def)
  then obtain i where get: "bm_fh_get env ino s = Some (Some (p, i))"
    using bm_fh_get_found assms(1) unfolding fs_inv_def by blast
  have "blit (ctx_buf s) 0 (take FSCK_DATA_SIZE (ctx_buf s)) = ctx_buf s"
    using assms(8) by (simp add: blit_def)
  then have chk: "bm_check B ino None 0 True (fi_fh fi) s b = (st, s, b')"
    using assms(8-11) by (simp add: bm_check_def fsck_encode_decode)
  show ?thesis
    using assms(2,3,5-7,10) get c chk
    by (simp add: fs_op_ioctl_def bm_ioctl_def subsys_defs ioctl_reply_def)
qed

theorem fs_fsck_error_leaks_witness:
  "\<exists>s p h. fh_heap s p = Some h \<and>
     fs_op_ioctl demo_env demo_backend demo_req demo_ino IOC_FSCK_NEXT (demo_fi 0) FUSE_IOCTL_DIR [] FSCK_DATA_SIZE
       s demo_data = Some (send_reply demo_req (Reply_ioctl (- EIO) (replicate FSCK_DATA_SIZE 0xaa)) s, demo_data)"
proof -
  have "0 AND O_TRUNC = 0" by simp
  from demo_opened [OF this, of False False] obtain fi s h where
    q: "quiet demo_env (demo_fs False False) s" and
    h: "fh_heap s (fi_fh (fi :: fuse_file_info)) = Some h" "fh_ino h = demo_ino" "fh_flags h = 0" and
    fl: "ctx_flags s = demo_flags False False" and
    o: "bm_open demo_env demo_ino (demo_fi 0) (demo_fs False False) = Some (fi, s)" by blast
  have ids: "ctx_uid s = 1000" using q by (simp add: quiet_def opts_def demo_ids)
  have buf: "ctx_buf s = replicate 4096 0xaa"
    using o bm_fh_new_ok [OF demo_fs_facts(1)]
    by (auto simp: bm_open_def Let_def demo_fi_def demo_fs_def mounted_def fs_op_init_def demo_env_def
        PERMD_DATA_SIZE_def junk_bytes_def map_replicate_const split: bind_splits)
  have a: "has_access demo_req R_OK s" "\<not> has_flag (fh_flags h) FH_FLAG_FSCK"
    unfolding has_access_wanted wanted_bits_def fl ids h(3)
    by (simp_all add: R_OK_def W_OK_def X_OK_def demo_flags_def demo_req_def has_flag_def)
  have d: "FUSE_IOCTL_DIR AND FUSE_IOCTL_DIR \<noteq> 0" "FSCK_DATA_SIZE \<le> length (ctx_buf s)" "- EIO < 0"
    by (simp_all add: FUSE_IOCTL_DIR_def FSCK_DATA_SIZE_def EIO_def buf)
  have c: "bookmark_check demo_backend = Some (\<lambda>b i d flags cb w c. (- EIO, w, b))"
    by (simp add: demo_backend_def)
  from fs_fsck_error_leaks [where b = demo_data and b' = demo_data and fi = "demo_fi 0" and ibuf = "[]",
      OF quiet_inv [OF q] demo_ino_type h(1,2) a(2,1) d(1,2) c d(3)]
  show ?thesis
    using h(1) buf by (intro exI [of _ s] exI [of _ "fi_fh fi"] exI [of _ h]) (simp add: FSCK_DATA_SIZE_def)
qed

section \<open>Inode numbers and routing\<close>

lemma word_take_bit_self: "unat (w :: 'a::len word) < 2 ^ n \<Longrightarrow> take_bit n w = w"
  by (rule unsigned_word_eqI [where 'a = nat]) (simp add: unsigned_take_bit_eq take_bit_nat_eq_self)

text \<open>
  an inode number made of an id of at most 61 bits and a subsystem of at most 3 bits gives both
  back, so different objects have different inode numbers.
\<close>

theorem nodeid_roundtrip:
  assumes "i \<le> SUBSYS_ID_MASK" "t < 8"
  shows "INODE_SUBSYS_ID (SUBSYS_NODEID i t) = i \<and> INODE_SUBSYS_TYPE (SUBSYS_NODEID i t) = t"
proof
  have "SUBSYS_ID_MASK = 0x1fffffffffffffff" by (simp add: mask61 mask_eq_exp_minus_1)
  then have "i \<le> 0x1fffffffffffffff" using assms(1) by simp
  then have "unat i < 2 ^ 61" by (simp add: word_le_nat_alt)
  then have i: "take_bit 61 i = i" by (intro word_take_bit_self)
  have "unat t < 2 ^ 3" using assms(2) by (simp add: word_less_nat_alt)
  then have t: "take_bit 3 t = t" by (intro word_take_bit_self)
  have bi: "bit i n \<Longrightarrow> n < 61" for n by (metis bit_take_bit_iff i)
  have bt: "bit t n \<Longrightarrow> n < 3" for n by (metis bit_take_bit_iff t)
  show "INODE_SUBSYS_ID (SUBSYS_NODEID i t) = i"
    by (rule bit_eqI) (auto simp: subsys_id_take bit_simps nodeid_bits dest: bi)
  show "INODE_SUBSYS_TYPE (SUBSYS_NODEID i t) = t"
    by (rule bit_eqI) (auto simp: subsys_type_drop bit_simps nodeid_bits dest: bi bt)
qed

theorem nodeid_roundtrip_witness: "INODE_SUBSYS_TYPE (SUBSYS_NODEID 12345 SUBSYS_TYPE_TAG) = SUBSYS_TYPE_TAG"
  using nodeid_roundtrip [of 12345 SUBSYS_TYPE_TAG]
  by (simp add: mask61 SUBSYS_TYPE_TAG_def mask_eq_exp_minus_1)

lemma root_type: "INODE_SUBSYS_TYPE INTFS_ID_ROOT = SUBSYS_TYPE_INTERNAL"
  by (simp add: subsys_type_drop INTFS_ID_ROOT_def SUBSYS_TYPE_INTERNAL_def)

text \<open>The entries of the root directory.\<close>

definition root_child :: "fs_ctx \<Rightarrow> bytes \<Rightarrow> u64 option" where
  "root_child s name = map_of [(de_name d, de_id d). d \<leftarrow> intfs_dents s] (Some name)"

lemma intfs_names: "INTFS_NAME_BOOKMARKS \<noteq> INTFS_NAME_TAGS" "INTFS_NAME_BOOKMARKS \<noteq> INTFS_NAME_KEYWORDS"
  "INTFS_NAME_TAGS \<noteq> INTFS_NAME_KEYWORDS"
  by (simp_all add: INTFS_NAME_BOOKMARKS_def INTFS_NAME_TAGS_def INTFS_NAME_KEYWORDS_def str_def)


definition dir_backend :: "demo_store backend" where
  "dir_backend = demo_backend\<lparr>bookmark_lookup := (\<lambda>b i name flags.
     (0, \<lparr>bs_id = i, value_len = -1, bs_atime = timespec_zero, bs_mtime = timespec_zero\<rparr>, b))\<rparr>"


text \<open>
  a rename is handed to the backend exactly within one subsystem (within one directory, for the
  internal ones) and with no flag but \<open>RENAME_NOREPLACE\<close>; every other rename is refused and leaves
  the backend alone.
\<close>

theorem fs_rename_guarded:
  assumes "INODE_SUBSYS_TYPE parent = SUBSYS_TYPE_BOOKMARK"
  shows "fs_op_rename B req parent name new_parent new_name flags s b =
    (if flags AND NOT RENAME_NOREPLACE \<noteq> 0 then Some (send_reply req (Reply_err EINVAL) s, b)
     else if INODE_SUBSYS_TYPE new_parent \<noteq> SUBSYS_TYPE_BOOKMARK then Some (send_reply req (Reply_err EPERM) s, b)
     else (case bookmark_rename B b (INODE_SUBSYS_ID parent) name (INODE_SUBSYS_ID new_parent) new_name
                 (if flags AND RENAME_NOREPLACE \<noteq> 0 then BM_RENAME_NOREPLACE else 0) of
             (status, b') \<Rightarrow> Some (send_reply req (Reply_err (- status)) s, b')))"
proof -
  have f: "flags AND NOT RENAME_NOREPLACE = flags" if "flags AND RENAME_NOREPLACE = 0"
  proof (rule bit_eqI)
    fix n
    have "\<not> bit (flags AND RENAME_NOREPLACE) n" unfolding that by simp
    then show "bit (flags AND NOT RENAME_NOREPLACE) n = bit flags n"
      by (auto simp: bit_simps dest: bit_imp_le_length)
  qed
  show ?thesis
  proof (cases "flags AND RENAME_NOREPLACE = 0")
    case True
    then show ?thesis
      using assms f [OF True] by (simp add: fs_op_rename_def bm_rename_def reply_err_def EINVAL_def EPERM_def subsys_defs
          split: prod.splits)
  next
    case False
    then show ?thesis
      using assms by (simp add: fs_op_rename_def bm_rename_def reply_err_def EINVAL_def EPERM_def subsys_defs
          split: prod.splits)
  qed
qed

theorem fs_rename_guarded_witness:
  "fs_op_rename demo_backend demo_req demo_ino [1] demo_ino [2] 2 (demo_fs False False) demo_data =
    Some (send_reply demo_req (Reply_err EINVAL) (demo_fs False False), demo_data)"
  using fs_rename_guarded [OF demo_ino_type, of demo_backend demo_req "[1]" demo_ino "[2]" 2 "demo_fs False False" demo_data]
  by (simp add: RENAME_NOREPLACE_def)

text \<open>
  C38: \<open>getattr\<close> on the folder of a tag answers with the inode number of the bookmark of the same id,
  not with that of the tag.
\<close>

theorem fs_getattr_tag_inode:
  assumes "fs_inv env s" "INODE_SUBSYS_TYPE ino = SUBSYS_TYPE_TAG" "INODE_SUBSYS_ID ino \<noteq> tags_root_id s"
    "bookmark_lookup B b (INODE_SUBSYS_ID ino) None TYPE_TAG = (0, bs, b')" "bs_id bs = INODE_SUBSYS_ID ino"
    "value_len bs < 0"
  shows "\<exists>attr t. fs_op_getattr env B req ino s b = Some (send_reply req (Reply_attr attr t) s, b') \<and>
    st_ino attr = SUBSYS_NODEID (INODE_SUBSYS_ID ino) SUBSYS_TYPE_BOOKMARK \<and> st_ino attr \<noteq> ino"
proof -
  let ?n = "SUBSYS_NODEID (INODE_SUBSYS_ID ino) SUBSYS_TYPE_BOOKMARK"
  have "bit ?n 61 \<and> \<not> bit ino 61"
  proof -
    have "drop_bit 61 ino = 2" using assms(2) by (simp add: subsys_type_drop SUBSYS_TYPE_TAG_def)
    then have "\<not> bit (drop_bit 61 ino) 0" by simp
    then show ?thesis by (simp add: nodeid_bits SUBSYS_TYPE_BOOKMARK_def bit_simps)
  qed
  then have ne: "?n \<noteq> ino" by auto
  show ?thesis
    using assms ne
    by (intro exI [of _ "STAT_INIT s\<lparr>st_ino := ?n, st_atim := bs_atime bs, st_mtim := bs_mtime bs,
          st_ctim := bs_mtime bs, st_mode := FS_FILEMODE_DIR s\<rparr>"] exI [of _ "FS_ENTRY_TIMEOUT s"])
      (simp add: fs_op_getattr_def bm_lookup_def bm_fillstat_def subsys_defs)
qed

theorem fs_getattr_tag_inode_witness:
  "\<exists>attr t. fs_op_getattr demo_env dir_backend demo_req (SUBSYS_NODEID 5 SUBSYS_TYPE_TAG) (demo_fs False False) demo_data =
     Some (send_reply demo_req (Reply_attr attr t) (demo_fs False False), demo_data) \<and>
     st_ino attr = SUBSYS_NODEID 5 SUBSYS_TYPE_BOOKMARK"
proof -
  have i: "INODE_SUBSYS_ID (SUBSYS_NODEID 5 SUBSYS_TYPE_TAG) = 5" "INODE_SUBSYS_TYPE (SUBSYS_NODEID 5 SUBSYS_TYPE_TAG) = SUBSYS_TYPE_TAG"
    by (simp_all add: INODE_SUBSYS_ID_def INODE_SUBSYS_TYPE_def SUBSYS_NODEID_def SUBSYS_ID_BITS_def SUBSYS_ID_MASK_def
        BOOKMARKFS_BOOKMARK_TYPE_BITS_def SUBSYS_TYPE_TAG_def)
  have t: "tags_root_id (demo_fs False False) = -1"
    by (simp add: demo_fs_def mounted_def fs_op_init_def demo_env_def PERMD_DATA_SIZE_def
        fs_init_opts_def fs_init_metadata_def fs_ctx_static_def)
  have l: "bookmark_lookup dir_backend demo_data 5 None TYPE_TAG =
      (0, \<lparr>bs_id = 5, value_len = -1, bs_atime = timespec_zero, bs_mtime = timespec_zero\<rparr>, demo_data)"
    by (simp add: dir_backend_def)
  show ?thesis
    using fs_getattr_tag_inode [OF demo_fs_facts(1) [of False False] i(2), unfolded i t, OF _ l, of demo_req] by auto
qed

end
