(* ===== verification/C_Strings.thy ===== *)
theory C_Strings
  imports Prelude
begin

text \<open>
  The functions of the C library on strings that the program uses.  A string is a list of bytes;
  where the memory around it matters, the list is the memory and the string its part before the
  first NUL.  \<open>char\<close> constants are written with \<open>ch\<close>.
\<close>

definition ch :: "char \<Rightarrow> u8" where "ch c = of_char c"

text \<open>The string at the start of a piece of memory, and its length (\<open>strnlen\<close> of the whole piece).\<close>

definition cstr :: "bytes \<Rightarrow> bytes" where
  "cstr m = takeWhile (\<lambda>b. b \<noteq> 0) m"

definition strnlen :: "bytes \<Rightarrow> nat" where
  "strnlen m = length (cstr m)"

primrec find_byte :: "u8 \<Rightarrow> bytes \<Rightarrow> nat option" where
  "find_byte c [] = None"
| "find_byte c (b # bs) = (if b = c then Some 0 else map_option Suc (find_byte c bs))"

text \<open>\<open>memchr(s, c, n)\<close>, \<open>strchr(s, c)\<close> and \<open>strrchr(s, c)\<close>, as offsets.\<close>

definition memchr :: "bytes \<Rightarrow> u8 \<Rightarrow> nat \<Rightarrow> nat option" where
  "memchr s c n = find_byte c (take n s)"

definition strchr :: "bytes \<Rightarrow> u8 \<Rightarrow> nat option" where
  "strchr s c = find_byte c s"

definition strrchr :: "bytes \<Rightarrow> u8 \<Rightarrow> nat option" where
  "strrchr s c = map_option (\<lambda>i. length s - 1 - i) (find_byte c (rev s))"

text \<open>\<open>strncpy(dst, src, n)\<close>: what the \<open>n\<close> bytes at \<open>dst\<close> are afterwards.\<close>

definition strncpy :: "bytes \<Rightarrow> nat \<Rightarrow> bytes" where
  "strncpy src n = take n (cstr src @ replicate n 0)"

text \<open>\<open>sprintf\<close> and \<open>snprintf\<close> of the text \<open>txt\<close> at offset \<open>off\<close> of a buffer.\<close>

definition sprintf :: "bytes \<Rightarrow> nat \<Rightarrow> bytes \<Rightarrow> bytes" where
  "sprintf buf off txt = blit buf off (txt @ [0])"

definition snprintf :: "bytes \<Rightarrow> nat \<Rightarrow> nat \<Rightarrow> bytes \<Rightarrow> bytes" where
  "snprintf buf off n txt = (if n = 0 then buf else blit buf off (take (n - 1) txt @ [0]))"

text \<open>Decimal digits, as \<open>%u\<close> prints them.\<close>

fun dec :: "nat \<Rightarrow> bytes" where
  "dec n = (if n < 10 then [ch CHR ''0'' + of_nat n]
            else dec (n div 10) @ [ch CHR ''0'' + of_nat (n mod 10)])"

declare dec.simps [simp del]

section \<open>Facts\<close>

lemma ch_simps [simp]:
  "ch CHR ''.'' = 46" "ch CHR ''/'' = 47" "ch CHR ''0'' = 48" "ch CHR '':'' = 58"
  "ch CHR ''-'' = 45" "ch CHR ''_'' = 95" "ch CHR '' '' = 32" "ch CHR ''='' = 61" "ch CHR '','' = 44"
  by (simp_all add: ch_def)

lemma cstr_no_nul: "0 \<notin> set (cstr m)"
  unfolding cstr_def by (auto dest: set_takeWhileD)

lemma cstr_id: "0 \<notin> set s \<Longrightarrow> cstr s = s"
  unfolding cstr_def by (auto simp: takeWhile_eq_all_conv)

lemma cstr_append_nul: "0 \<notin> set s \<Longrightarrow> cstr (s @ 0 # rest) = s"
  unfolding cstr_def by (subst takeWhile_append2) auto

lemma strnlen_le: "strnlen m \<le> length m"
  by (simp add: strnlen_def cstr_def length_takeWhile_le)

lemma take_strnlen: "take (strnlen m) m = cstr m"
  by (simp add: strnlen_def cstr_def takeWhile_eq_take [symmetric])

lemma cstr_split: "strnlen m < length m \<Longrightarrow> m = cstr m @ 0 # drop (Suc (strnlen m)) m"
proof -
  assume *: "strnlen m < length m"
  then have "m ! strnlen m = 0"
    using nth_length_takeWhile [of "\<lambda>b. b \<noteq> 0" m] by (simp add: strnlen_def cstr_def)
  then show ?thesis
    using id_take_nth_drop [OF *] by (simp add: take_strnlen)
qed

lemma find_byte_None: "find_byte c s = None \<longleftrightarrow> c \<notin> set s"
  by (induction s) auto

lemma find_byte_Some:
  "find_byte c s = Some i \<longleftrightarrow> i < length s \<and> s ! i = c \<and> c \<notin> set (take i s)"
proof (induction s arbitrary: i)
  case (Cons b s)
  then show ?case by (cases i) auto
qed simp

lemma find_byte_split: "find_byte c s = Some i \<Longrightarrow> s = take i s @ c # drop (Suc i) s \<and> c \<notin> set (take i s)"
  using id_take_nth_drop [of i s] by (auto simp: find_byte_Some)

lemma length_strncpy [simp]:
  "length (strncpy src n) = n"
  by (simp add: strncpy_def)

lemma length_sprintf: "off + length txt < length buf \<Longrightarrow> length (sprintf buf off txt) = length buf"
  by (simp add: sprintf_def length_blit)

lemma length_snprintf: "off + n \<le> length buf \<Longrightarrow> length (snprintf buf off n txt) = length buf"
  by (simp add: snprintf_def length_blit)

lemma cstr_blit:
  assumes "off \<le> length buf" "0 \<notin> set (take off buf)" "0 \<notin> set txt"
  shows "cstr (blit buf off (txt @ [0])) = take off buf @ txt"
  using assms cstr_append_nul [of "take off buf @ txt" "drop (off + length (txt @ [0])) buf"]
  by (simp add: blit_def)

lemma cstr_sprintf: "0 \<notin> set txt \<Longrightarrow> cstr (sprintf buf 0 txt) = txt"
  using cstr_blit [of 0 buf "txt"] by (simp add: sprintf_def)

lemma cstr_snprintf:
  assumes "n \<noteq> 0" "off \<le> length buf" "0 \<notin> set (take off buf)" "0 \<notin> set txt"
  shows "cstr (snprintf buf off n txt) = take off buf @ take (n - 1) txt"
  using assms cstr_blit [of off buf "take (n - 1) txt"]
  by (auto simp: snprintf_def dest: in_set_takeD)

lemma dec_digits: "set (dec n) \<subseteq> {48..57}"
proof (induction n rule: dec.induct)
  case (1 n)
  have digit: "(48 :: u8) + of_nat k \<in> {48..57}" if "k < 10" for k
  proof -
    have "k \<in> {0,1,2,3,4,5,6,7,8,9}" using that by auto
    then show ?thesis by auto
  qed
  show ?case
    using 1 digit [of n] digit [of "n mod 10"] dec.simps [of n] by auto
qed

lemma dec_no_nul: "0 \<notin> set (dec n)" and dec_no_slash: "47 \<notin> set (dec n)"
  using dec_digits [of n] by auto

lemma dec_nonempty: "dec n \<noteq> []"
  by (subst dec.simps) auto

lemma length_dec: "n < 10 ^ Suc k \<Longrightarrow> length (dec n) \<le> Suc k"
proof (induction k arbitrary: n)
  case 0
  then show ?case by (subst dec.simps) auto
next
  case (Suc k)
  have "n div 10 < 10 ^ Suc k" using Suc.prems by auto
  then have "length (dec (n div 10)) \<le> Suc k" by (rule Suc.IH)
  then show ?case by (subst dec.simps) auto
qed

lemma length_dec_u32: "length (dec (unat (w :: u32))) \<le> 10"
  using length_dec [of "unat w" 9] unsigned_less [of w, where 'a = nat] by simp

lemma length_dec_u64: "length (dec (unat (w :: u64))) \<le> 20"
  using length_dec [of "unat w" 19] unsigned_less [of w, where 'a = nat] by simp

end
