(* ===== verification/Filename.thy ===== *)
theory Filename
  imports C_Strings Backend_Types
begin

text \<open>
  \<open>backend_util.c\<close>: file names.  \<open>validate_filename\<close> and \<open>validate_filename_fsck\<close> decide whether a
  bookmark name can be a path component, \<open>basename_opendir\<close> splits the path of a bookmark store,
  \<open>print_backend_opt_err_\<close> is where the option parsers of the backends end on an error.
\<close>

section \<open>Constants\<close>

definition NAME_MAX :: nat where "NAME_MAX = 255"

definition FILENAME_BADCHAR :: int where "FILENAME_BADCHAR = -1"
definition FILENAME_BADLEN :: int where "FILENAME_BADLEN = -2"
definition FILENAME_DOTDOT :: int where "FILENAME_DOTDOT = -3"

lemmas filename_defs = FILENAME_BADCHAR_def FILENAME_BADLEN_def FILENAME_DOTDOT_def

section \<open>Validation of names\<close>

text \<open>
  \<open>s\<close> is the memory that \<open>str\<close> points to, of at least \<open>n = str_len\<close> bytes; the second component is
  what is stored to \<open>end_ptr\<close>, as an offset.
\<close>

definition validate_filename :: "bytes \<Rightarrow> nat \<Rightarrow> int \<times> nat option" where
  "validate_filename s n =
     (if (n = 1 \<or> n = 2 \<and> s ! 1 = ch CHR ''.'') \<and> s ! 0 = ch CHR ''.'' then (FILENAME_DOTDOT, None)
      else if n = 0 \<or> n > NAME_MAX then (FILENAME_BADLEN, None)
      else (case memchr s (ch CHR ''/'') n of
              Some e \<Rightarrow> (FILENAME_BADCHAR, Some e)
            | None \<Rightarrow> (0, None)))"

text \<open>The second component is what is stored to \<open>result_ptr\<close> and \<open>extra_ptr\<close>, on an error.\<close>

definition validate_filename_fsck :: "bytes \<Rightarrow> nat \<Rightarrow> int \<times> (int \<times> u64) option" where
  "validate_filename_fsck s n =
     (let (status, e) = validate_filename s n in
      if status = FILENAME_BADCHAR then (status, Some (NAME_BADCHAR, of_nat (the e)))
      else if status = FILENAME_BADLEN then (status, Some (NAME_BADLEN, of_nat n))
      else if status = FILENAME_DOTDOT then (status, Some (NAME_DOTDOT, if s ! 1 = 0 then 1 else 0))
      else (0, None))"

section \<open>The directory of a file\<close>

text \<open>
  \<open>open_dir\<close> is \<open>open\<close> with the flags for a directory: a descriptor, or -1.  The result is the
  descriptor and the base name.
\<close>

definition basename_opendir :: "(bytes \<Rightarrow> int) \<Rightarrow> bytes \<Rightarrow> int \<times> bytes" where
  "basename_opendir open_dir path =
     (let (dirname, basename) = (case strrchr path (ch CHR ''/'') of
              Some i \<Rightarrow> (take i path, drop (Suc i) path)
            | None \<Rightarrow> (str ''.'', path));
          fd = open_dir dirname
      in (if fd < 0 then -1 else fd, basename))"

section \<open>Options\<close>

datatype opt_err = BAD_KEY | BAD_VAL | HAS_VAL | NO_VAL

text \<open>The message goes to the log; the parsers return the result.\<close>

definition print_backend_opt_err :: "opt_err \<Rightarrow> bytes \<Rightarrow> bytes option \<Rightarrow> int" where
  "print_backend_opt_err err_type key val = -1"

section \<open>What a valid name is\<close>

text \<open>A path component: what a name must be so that a file can have it.\<close>

definition path_component :: "bytes \<Rightarrow> bool" where
  "path_component s \<longleftrightarrow> s \<noteq> [] \<and> length s \<le> NAME_MAX \<and> 0 \<notin> set s \<and> ch CHR ''/'' \<notin> set s \<and>
     s \<noteq> str ''.'' \<and> s \<noteq> str ''..''"

lemma str_dots: "str ''.'' = [46]" "str ''..'' = [46, 46]"
  by (simp_all add: str_def)

lemma validate_dots:
  "(length s = 1 \<or> length s = 2 \<and> (s @ 0 # r) ! 1 = 46) \<and> (s @ 0 # r) ! 0 = 46 \<longleftrightarrow>
    s = str ''.'' \<or> s = str ''..''"
  by (cases s; cases "tl s") (auto simp: str_dots)

text \<open>The verdict on a NUL-terminated string.\<close>

lemma validate_filename_cases:
  assumes "0 \<notin> set s"
  obtains (dots) "s = str ''.'' \<or> s = str ''..''" "validate_filename (s @ 0 # r) (length s) = (FILENAME_DOTDOT, None)"
  | (badlen) "s = [] \<or> length s > NAME_MAX" "validate_filename (s @ 0 # r) (length s) = (FILENAME_BADLEN, None)"
  | (badchar) i where "s \<noteq> []" "length s \<le> NAME_MAX" "find_byte 47 s = Some i"
      "validate_filename (s @ 0 # r) (length s) = (FILENAME_BADCHAR, Some i)"
  | (ok) "path_component s" "validate_filename (s @ 0 # r) (length s) = (0, None)"
proof (cases "s = str ''.'' \<or> s = str ''..''")
  case True
  then show ?thesis
    using dots validate_dots [of s r] by (auto simp: validate_filename_def)
next
  case False
  then have nodots: "\<not> ((length s = 1 \<or> length s = 2 \<and> (s @ 0 # r) ! 1 = 46) \<and> (s @ 0 # r) ! 0 = 46)"
    using validate_dots [of s r] by blast
  have val: "validate_filename (s @ 0 # r) (length s) =
      (if s = [] \<or> length s > NAME_MAX then (FILENAME_BADLEN, None)
       else (case find_byte 47 s of Some e \<Rightarrow> (FILENAME_BADCHAR, Some e) | None \<Rightarrow> (0, None)))"
    unfolding validate_filename_def ch_simps if_not_P [OF nodots] by (simp add: memchr_def)
  show ?thesis
  proof (cases "find_byte 47 s")
    case None
    then show ?thesis
      using val badlen ok assms False find_byte_None [of 47 s]
      by (cases "s = [] \<or> length s > NAME_MAX") (simp_all add: path_component_def)
  next
    case (Some i)
    then show ?thesis
      using val badlen badchar [of i] by (cases "s = [] \<or> length s > NAME_MAX") auto
  qed
qed

end
