(* ===== verification/Fsck_Handler.thy ===== *)
theory Fsck_Handler
  imports Filename "HOL-Library.Monad_Syntax"
begin

text \<open>
  The built-in handler of \<open>fsck.bookmarkfs\<close> (\<open>fsck_handler_simple.c\<close>, \<open>fsck_util.c\<close>, the interface
  of \<open>fsck_handler.h\<close>), in the build with interactive mode.  The handler is told each bad name, proposes
  a new one and says what to do next; interactively it asks the user.  What it prints to the standard
  output is kept in the context; messages to the log are left out.  A computation that cannot go on
  (a failed assertion, an access outside a buffer, the wrong member of a union) is \<open>None\<close>.
\<close>

section \<open>Interface\<close>

definition HANDLER_INTERACTIVE :: u32 where "HANDLER_INTERACTIVE = 1"
definition HANDLER_READONLY :: u32 where "HANDLER_READONLY = 2"
definition HANDLER_EXPECT_INPUT :: u32 where "HANDLER_EXPECT_INPUT = 0x10000"
definition HANDLER_HAS_ENTRY :: u32 where "HANDLER_HAS_ENTRY = 0x20000"
definition HANDLER_INHIBIT_NEXT :: u32 where "HANDLER_INHIBIT_NEXT = 0x40000"

lemmas handler_flag_defs = HANDLER_INTERACTIVE_def HANDLER_READONLY_def HANDLER_EXPECT_INPUT_def
  HANDLER_HAS_ENTRY_def HANDLER_INHIBIT_NEXT_def

definition FSCK_NEXT :: int where "FSCK_NEXT = 0"
definition FSCK_APPLY :: int where "FSCK_APPLY = 1"
definition FSCK_USER_INPUT :: int where "FSCK_USER_INPUT = 2"
definition FSCK_SAVE :: int where "FSCK_SAVE = 3"
definition FSCK_STOP :: int where "FSCK_STOP = 4"
definition FSCK_REWIND :: int where "FSCK_REWIND = 5"
definition FSCK_SKIP :: int where "FSCK_SKIP = 6"
definition FSCK_SKIP_CHILDREN :: int where "FSCK_SKIP_CHILDREN = 7"
definition FSCK_RESET :: int where "FSCK_RESET = 8"

lemmas control_defs = FSCK_NEXT_def FSCK_APPLY_def FSCK_USER_INPUT_def FSCK_SAVE_def FSCK_STOP_def
  FSCK_REWIND_def FSCK_SKIP_def FSCK_SKIP_CHILDREN_def FSCK_RESET_def

text \<open>
  \<open>union bookmarkfs_fsck_handler_data\<close>: \<open>parent_id\<close> and \<open>str\<close> share the first word, the rest of the
  entry follows it.  \<open>Str m\<close> points to the memory \<open>m\<close>, a string with its NUL.
\<close>

datatype head = Parent u64 | Str bytes

record handler_data =
  hd_head :: head
  hd_data :: fsck_data

record handler_ctx =
  hc_parent_id :: u64
  hc_counter :: u32
  hc_flags :: u32
  hc_prompt :: bytes
  hc_translit :: u8
  hc_data_buf :: fsck_data
  hc_out :: bytes

definition NAME_BUF :: nat where "NAME_BUF = 256"

definition out :: "bytes \<Rightarrow> handler_ctx \<Rightarrow> handler_ctx" where
  "out txt hc = hc\<lparr>hc_out := hc_out hc @ txt\<rparr>"

definition puts :: "bytes \<Rightarrow> handler_ctx \<Rightarrow> handler_ctx" where
  "puts txt = out (txt @ [10])"

section \<open>\<open>fsck_util.c\<close>\<close>

definition iscntrl :: "u8 \<Rightarrow> bool" where
  "iscntrl b \<longleftrightarrow> b < 32 \<or> b = 127"

text \<open>The contents of \<open>dst\<close> and the number of characters replaced.\<close>

definition translit_control_chars :: "nat \<Rightarrow> bytes \<Rightarrow> u8 \<Rightarrow> bytes \<times> nat" where
  "translit_control_chars dst_max src c =
     (let dst = strncpy src dst_max;
          e = strnlen dst
      in (map (\<lambda>b. if iscntrl b then c else b) (take e dst) @ drop e dst,
          length (filter iscntrl (take e dst))))"

definition result_str :: "int \<Rightarrow> bytes option" where
  "result_str why =
     (if why = NAME_DUPLICATE then Some (str ''NAME_DUPLICATE'')
      else if why = NAME_BADCHAR then Some (str ''NAME_BADCHAR'')
      else if why = NAME_BADLEN then Some (str ''NAME_BADLEN'')
      else if why = NAME_DOTDOT then Some (str ''NAME_DOTDOT'')
      else if why = NAME_INVALID then Some (str ''NAME_INVALID'')
      else None)"

definition print_fsck_result :: "int \<Rightarrow> fsck_data \<Rightarrow> handler_ctx \<Rightarrow> int \<times> handler_ctx" where
  "print_fsck_result why d hc =
     (if why = FSCK_RESULT_END then (0, hc)
      else (case result_str why of
         None \<Rightarrow> (-1, hc)
       | Some rs \<Rightarrow>
           (let name_buf = fst (translit_control_chars NAME_BUF (fd_name d) (ch CHR ''?''))
            in (0, out (dec (unat (fd_id d)) @ [9] @ rs @ [9] @ dec (unat (fd_extra d)) @ [9] @
                        cstr name_buf @ [10]) hc))))"

section \<open>Proposing a new name\<close>

text \<open>
  The loop of \<open>fix_name_dup\<close>: the suffix goes where the name ends; if it does not fit there, it is
  written again over the end of the buffer, where it does.
\<close>

function fix_name_dup_loop :: "u32 \<Rightarrow> bytes \<Rightarrow> nat \<Rightarrow> bytes" where
  "fix_name_dup_loop counter name name_len =
     (let suffix = ch CHR ''_'' # dec (unat counter);
          nbytes = length suffix;
          name = snprintf name name_len (NAME_BUF - name_len) suffix
      in if name_len + nbytes < NAME_BUF then name
         else fix_name_dup_loop counter name (NAME_BUF - nbytes - 1))"
  by pat_completeness auto

termination
proof (relation "measure (\<lambda>(c, _, n). if n + Suc (length (dec (unat c))) < NAME_BUF then 0 else 1)")
  fix counter :: u32 and name :: bytes and n suffix nbytes x
  assume "suffix = ch CHR ''_'' # dec (unat counter)" "nbytes = length suffix"
    "\<not> n + nbytes < NAME_BUF"
  then show "((counter, x, NAME_BUF - nbytes - 1), (counter, name, n))
      \<in> measure (\<lambda>(c, _, n). if n + Suc (length (dec (unat c))) < NAME_BUF then 0 else 1)"
    using length_dec_u32 [of counter] by (simp add: NAME_BUF_def)
qed simp

declare fix_name_dup_loop.simps [simp del]

definition fix_name_dup :: "handler_ctx \<Rightarrow> fsck_data \<Rightarrow> handler_ctx \<times> fsck_data" where
  "fix_name_dup hc d =
     (let name_len = strnlen (take NAME_BUF (fd_name d))
      in (hc\<lparr>hc_counter := hc_counter hc + 1\<rparr>,
          d\<lparr>fd_name := fix_name_dup_loop (hc_counter hc) (fd_name d) name_len\<rparr>))"

definition fix_entry :: "handler_ctx \<Rightarrow> int \<Rightarrow> fsck_data \<Rightarrow> (handler_ctx \<times> fsck_data) option" where
  "fix_entry hc why d =
     (if why = NAME_BADCHAR then
        (let d = (if unat (fd_extra d) \<ge> NAME_BUF then d\<lparr>fd_extra := of_nat (NAME_BUF - 1)\<rparr> else d)
         in Some (hc, d\<lparr>fd_name := (fd_name d)[unat (fd_extra d) := hc_translit hc]\<rparr>))
      else if why = NAME_DUPLICATE then Some (fix_name_dup hc d)
      else if why = NAME_BADLEN \<and> fd_extra d > 0 then
        Some (hc, d\<lparr>fd_name := (fd_name d)[NAME_BUF - 1 := 0]\<rparr>)
      else if why = NAME_BADLEN \<or> why = NAME_DOTDOT \<or> why = NAME_INVALID then
        Some (hc, d\<lparr>fd_name := sprintf (fd_name d) 0 (str ''fsck-'' @ dec (unat (fd_id d)))\<rparr>)
      else None)"

section \<open>Interactive mode\<close>

definition expect_input :: "handler_ctx \<Rightarrow> handler_data \<Rightarrow> int \<times> handler_ctx \<times> handler_data" where
  "expect_input hc d =
     (FSCK_USER_INPUT, hc\<lparr>hc_flags := hc_flags hc OR HANDLER_EXPECT_INPUT\<rparr>,
      d\<lparr>hd_head := Str (hc_prompt hc @ [0])\<rparr>)"

definition print_usage :: "handler_ctx \<Rightarrow> handler_ctx" where
  "print_usage = fold (\<lambda>l. puts (str l))
    [''Commands:'',
     ''  p                  Print current entry'',
     ''  a[-]               Apply proposed fix'',
     ''  e[-] <new_name>    Edit proposed fix and then apply'',
     ''  c                  Continue to next entry'',
     ''  s[-]               Skip current directory'',
     ''  S[-]               Skip current directory and its children'',
     ''  r[-]               Rewind current directory'',
     ''  R[-]               Rewind all'',
     ''  w[-]               Save applied changes'',
     ''  q                  Quit'',
     '''',
     ''The '' @ [CHR 0x27] @ ''-'' @ [CHR 0x27] @ '' suffix inhibits the default behavior of continuing to'',
     ''the next entry after the command completes successfully.'',
     '''',
     ''See the user manual for more information.'']"

text \<open>The name is printed with \<open>%s\<close>, so it must have a NUL.\<close>

definition print_entry :: "fsck_data \<Rightarrow> handler_ctx \<Rightarrow> handler_ctx option" where
  "print_entry d hc =
     (let name_buf = fst (translit_control_chars NAME_BUF (fd_name d) (ch CHR ''?''))
      in if strnlen name_buf = NAME_BUF then None
         else Some (out (str ''id:   '' @ dec (unat (fd_id d)) @ [10] @
                         str ''name: '' @ cstr name_buf @ [10]) hc))"

text \<open>\<open>m\<close> is the input line after \<open>strtok\<close>; its second byte is the suffix of the command.\<close>

definition expect_next ::
  "handler_ctx \<Rightarrow> int \<Rightarrow> bytes \<Rightarrow> handler_data \<Rightarrow> int \<times> handler_ctx \<times> handler_data" where
  "expect_next hc control m d =
     (if m ! 1 \<noteq> ch CHR ''-'' \<and> m ! 1 \<noteq> 0 then expect_input (print_usage hc) d
      else (let hc = (if m ! 1 = ch CHR ''-''
                      then hc\<lparr>hc_flags := hc_flags hc OR HANDLER_INHIBIT_NEXT\<rparr> else hc)
            in (control,
                hc\<lparr>hc_flags := hc_flags hc AND NOT (HANDLER_HAS_ENTRY OR HANDLER_EXPECT_INPUT)\<rparr>, d)))"

text \<open>
  \<open>strtok(input, " \t")\<close> on the memory \<open>m\<close> of a string: the first token, and the memory after the
  delimiter behind the token was overwritten.
\<close>

definition is_delim :: "u8 \<Rightarrow> bool" where "is_delim b \<longleftrightarrow> b = 32 \<or> b = 9"

definition strtok :: "bytes \<Rightarrow> bytes option \<times> bytes" where
  "strtok m =
     (let s = cstr m;
          start = length (takeWhile is_delim s);
          token = takeWhile (\<lambda>b. \<not> is_delim b) (drop start s)
      in if start = length s then (None, m)
         else (Some token, m[start + length token := 0]))"

definition cmd :: "char \<Rightarrow> bytes \<Rightarrow> bool" where
  "cmd c m \<longleftrightarrow> m ! 0 = ch c"

definition handle_input ::
  "handler_ctx \<Rightarrow> handler_data \<Rightarrow> (int \<times> handler_ctx \<times> handler_data) option" where
  "handle_input hc d =
     (case hd_head d of
        Parent _ \<Rightarrow> None
      | Str input \<Rightarrow>
          (let (nxt, m) = strtok input;
               no_entry = \<lambda>hc. Some (expect_input (puts (str ''no entry'') hc) d);
               apply_entry = \<lambda>hc.
                 (if has_flag (hc_flags hc) HANDLER_READONLY then Some (expect_input hc d)
                  else if \<not> has_flag (hc_flags hc) HANDLER_HAS_ENTRY then no_entry hc
                  else Some (expect_next hc FSCK_APPLY m (d\<lparr>hd_data := hc_data_buf hc\<rparr>)))
           in if cmd CHR ''p'' m then
                (if \<not> has_flag (hc_flags hc) HANDLER_HAS_ENTRY then no_entry hc
                 else do { hc \<leftarrow> print_entry (hc_data_buf hc) hc; Some (expect_input hc d) })
              else if cmd CHR ''e'' m then
                (case nxt of
                   None \<Rightarrow> Some (expect_input (print_usage hc) d)
                 | Some name \<Rightarrow>
                     apply_entry (hc\<lparr>hc_data_buf := (hc_data_buf hc)\<lparr>fd_name := strncpy name NAME_BUF\<rparr>\<rparr>))
              else if cmd CHR ''a'' m then apply_entry hc
              else if cmd CHR ''c'' m then Some (expect_next hc FSCK_NEXT m d)
              else if cmd CHR ''s'' m then Some (expect_next hc FSCK_SKIP m d)
              else if cmd CHR ''S'' m then Some (expect_next hc FSCK_SKIP_CHILDREN m d)
              else if cmd CHR ''r'' m then Some (expect_next hc FSCK_REWIND m d)
              else if cmd CHR ''R'' m then Some (expect_next hc FSCK_RESET m d)
              else if cmd CHR ''w'' m then Some (expect_next hc FSCK_SAVE m d)
              else if cmd CHR ''q'' m then Some (FSCK_STOP, hc, d)
              else if m ! 0 = 0 then Some (expect_input hc d)
              else Some (expect_input (print_usage hc) d)))"

section \<open>The handler\<close>

definition handle_entry ::
  "handler_ctx \<Rightarrow> int \<Rightarrow> handler_data \<Rightarrow> (int \<times> handler_ctx \<times> handler_data) option" where
  "handle_entry hc why d =
     (case hd_head d of
        Str _ \<Rightarrow> None
      | Parent p \<Rightarrow>
          (let hc = (if p \<noteq> hc_parent_id hc then hc\<lparr>hc_parent_id := p, hc_counter := 0\<rparr> else hc);
               (status, hc) = print_fsck_result why (hd_data d) hc
           in if status \<noteq> 0 then Some (-1, hc, d)
              else do {
                (control, hc, d) \<leftarrow>
                  (if has_flag (hc_flags hc) HANDLER_READONLY then Some (FSCK_NEXT, hc, d)
                   else do {
                     (hc, fixed) \<leftarrow> fix_entry hc why (hd_data d);
                     Some (FSCK_APPLY, hc, d\<lparr>hd_data := fixed\<rparr>)
                   });
                let (control, hc, d) =
                  (if has_flag (hc_flags hc) HANDLER_INTERACTIVE
                   then expect_input (hc\<lparr>hc_data_buf := hd_data d\<rparr>) d
                   else (control, hc, d));
                Some (control, hc\<lparr>hc_flags := hc_flags hc OR HANDLER_HAS_ENTRY\<rparr>, d)
              }))"

text \<open>The options: the prompt and the replacement character.\<close>

fun parse_handler_opts :: "conf_opts \<Rightarrow> bytes \<times> u8 \<Rightarrow> int + bytes \<times> u8" where
  "parse_handler_opts [] res = Inr res"
| "parse_handler_opts ((key, val) # opts) (prompt, translit) =
     (if key = str ''prompt'' then
        (case val of None \<Rightarrow> Inl (print_backend_opt_err NO_VAL key val)
         | Some v \<Rightarrow> parse_handler_opts opts (v, translit))
      else if key = str ''translit'' then
        (case val of None \<Rightarrow> Inl (print_backend_opt_err NO_VAL key val)
         | Some v \<Rightarrow>
             (if length v = 1 \<and> v ! 0 \<noteq> ch CHR ''/'' then parse_handler_opts opts (prompt, v ! 0)
              else Inl (print_backend_opt_err BAD_VAL key val)))
      else Inl (print_backend_opt_err BAD_KEY key val))"

definition fsck_data_zero :: fsck_data where
  "fsck_data_zero = \<lparr>fd_id = 0, fd_extra = 0, fd_name = replicate NAME_BUF 0\<rparr>"

definition fsck_handler_create :: "conf_opts \<Rightarrow> u32 \<Rightarrow> int + handler_ctx" where
  "fsck_handler_create opts flags =
     (case parse_handler_opts opts (str ''% '', ch CHR ''_'') of
        Inl e \<Rightarrow> Inl (-1)
      | Inr (prompt, translit) \<Rightarrow>
          Inr \<lparr>hc_parent_id = -1, hc_counter = 0, hc_flags = flags, hc_prompt = prompt,
               hc_translit = translit, hc_data_buf = fsck_data_zero, hc_out = []\<rparr>)"

definition fsck_handler_run ::
  "handler_ctx \<Rightarrow> int \<Rightarrow> handler_data \<Rightarrow> (int \<times> handler_ctx \<times> handler_data) option" where
  "fsck_handler_run hc why d =
     (if why > 0 then handle_entry hc why d
      else if has_flag (hc_flags hc) HANDLER_EXPECT_INPUT then handle_input hc d
      else if has_flag (hc_flags hc) HANDLER_INHIBIT_NEXT then
        Some (expect_input (hc\<lparr>hc_flags := hc_flags hc AND NOT HANDLER_INHIBIT_NEXT\<rparr>) d)
      else Some (FSCK_NEXT, hc, d))"

end
