(* ===== verification/Fsck_Repair.thy ===== *)
theory Fsck_Repair
  imports Fsck_Handler
begin

text \<open>
  What the handler proposes: a suffixed name for a duplicate, and for a name that cannot be a path
  component a sequence of proposals that ends with one that can.
\<close>

section \<open>Duplicates\<close>

lemma blit_take_drop: "n \<le> off \<Longrightarrow> off \<le> length buf \<Longrightarrow> take n (blit buf off src) = take n buf"
  by (rule take_blit_before)

definition dup_suffix :: "u32 \<Rightarrow> bytes" where
  "dup_suffix counter = ch CHR ''_'' # dec (unat counter)"

lemma length_dup_suffix: "length (dup_suffix c) \<le> 11"
  using length_dec_u32 [of c] by (simp add: dup_suffix_def)

lemma dup_suffix_no_nul: "0 \<notin> set (dup_suffix c)"
  using dec_no_nul [of "unat c"] by (simp add: dup_suffix_def)

lemma fix_name_dup_loop_fits:
  assumes "length name = NAME_BUF" "n + length (dup_suffix c) < NAME_BUF" "0 \<notin> set (take n name)"
  shows "cstr (fix_name_dup_loop c name n) = take n name @ dup_suffix c \<and>
    length (fix_name_dup_loop c name n) = NAME_BUF"
proof -
  have "fix_name_dup_loop c name n = snprintf name n (NAME_BUF - n) (dup_suffix c)"
    using assms(2) by (subst fix_name_dup_loop.simps) (simp add: dup_suffix_def Let_def)
  moreover have "take (NAME_BUF - n - 1) (dup_suffix c) = dup_suffix c"
    using assms(2) by simp
  ultimately show ?thesis
    using assms cstr_snprintf [of "NAME_BUF - n" n name "dup_suffix c"]
    by (simp add: length_snprintf dup_suffix_no_nul)
qed

lemma fix_name_dup_loop_ok:
  assumes len: "length name = NAME_BUF" and n: "n = strnlen name"
  shows "cstr (fix_name_dup_loop c name n) =
      take (NAME_BUF - 1 - length (dup_suffix c)) (cstr name) @ dup_suffix c \<and>
    length (fix_name_dup_loop c name n) = NAME_BUF"
proof -
  define l where "l = length (dup_suffix c)"
  have l: "l \<le> 11" by (simp add: l_def length_dup_suffix)
  have prefix: "take n name = cstr name" and le: "n \<le> NAME_BUF"
    using n len strnlen_le [of name] by (simp_all add: take_strnlen)
  have nul: "0 \<notin> set (take n name)" by (simp add: prefix cstr_no_nul)
  show ?thesis
  proof (cases "n + l < NAME_BUF")
    case True
    then have "take (NAME_BUF - 1 - l) (cstr name) = cstr name"
      using n by (simp add: strnlen_def)
    with True show ?thesis
      using fix_name_dup_loop_fits [OF len _ nul] by (simp add: l_def prefix)
  next
    case False
    define m where "m = NAME_BUF - l - 1"
    have m: "m < n" "m + l < NAME_BUF" using False l by (simp_all add: m_def NAME_BUF_def)
    let ?name = "snprintf name n (NAME_BUF - n) (dup_suffix c)"
    have "fix_name_dup_loop c name n = fix_name_dup_loop c ?name m"
      using False by (subst fix_name_dup_loop.simps) (simp add: dup_suffix_def Let_def l_def m_def)
    moreover have "take m ?name = take m name"
      using m le len by (simp add: snprintf_def take_blit_before)
    moreover have "take m name = take m (cstr name)"
      using m(1) by (simp add: prefix [symmetric])
    moreover have "0 \<notin> set (take m (cstr name))"
      using cstr_no_nul [of name] by (auto dest: in_set_takeD)
    ultimately show ?thesis
      using fix_name_dup_loop_fits [of ?name m c] m(2) le len
      by (simp add: l_def m_def length_snprintf)
  qed
qed

text \<open>C22: the name that the handler proposes for a duplicate is the old name followed by an
  underscore and the counter of the folder, where the old name is cut so that the result has at
  most 255 bytes, whatever the buffer held (also when no NUL ended the name); the suffix is never
  cut, the identity of the entry is kept and the counter moves on.\<close>

theorem fsck_dup_name:
  assumes "length (fd_name d) = NAME_BUF"
  shows "\<exists>hc' d'. fix_entry hc NAME_DUPLICATE d = Some (hc', d') \<and>
    hc' = hc\<lparr>hc_counter := hc_counter hc + 1\<rparr> \<and> fd_id d' = fd_id d \<and>
    length (fd_name d') = NAME_BUF \<and>
    (let suffix = ch CHR ''_'' # dec (unat (hc_counter hc)) in
       cstr (fd_name d') = take (NAME_MAX - length suffix) (cstr (fd_name d)) @ suffix \<and>
       length (cstr (fd_name d')) \<le> NAME_MAX)"
proof -
  have "length (dup_suffix (hc_counter hc)) \<le> 11" by (rule length_dup_suffix)
  then show ?thesis
    using fix_name_dup_loop_ok [OF assms refl, of "hc_counter hc"] assms
    by (simp add: fix_entry_def fix_name_dup_def fsck_result_defs dup_suffix_def NAME_MAX_def
        NAME_BUF_def Let_def)
qed

definition demo_handler :: handler_ctx where
  "demo_handler = \<lparr>hc_parent_id = -1, hc_counter = 7, hc_flags = 0, hc_prompt = str ''% '',
     hc_translit = 95, hc_data_buf = fsck_data_zero, hc_out = []\<rparr>"

theorem fsck_dup_name_witness:
  "\<exists>hc' d'. fix_entry demo_handler NAME_DUPLICATE (fsck_data_zero\<lparr>fd_name := replicate 256 97\<rparr>) =
      Some (hc', d') \<and> cstr (fd_name d') = replicate 253 97 @ [95, 55]"
proof -
  have "cstr (replicate 256 (97 :: u8)) = replicate 256 97" by (rule cstr_id) simp
  then show ?thesis
    using fsck_dup_name [of "fsck_data_zero\<lparr>fd_name := replicate 256 97\<rparr>" demo_handler]
    by (auto simp: NAME_BUF_def NAME_MAX_def demo_handler_def dec.simps Let_def)
qed

section \<open>Repair\<close>

text \<open>The replacement character is never one that could not be in a name.\<close>

lemma parse_handler_opts_translit:
  assumes "parse_handler_opts opts (p, t) = Inr (p', t')" "t \<noteq> 0 \<and> t \<noteq> 47"
    "\<forall>(k, v) \<in> set opts. \<forall>s. v = Some s \<longrightarrow> 0 \<notin> set s"
  shows "t' \<noteq> 0 \<and> t' \<noteq> 47"
  using assms
proof (induction opts "(p, t)" arbitrary: p t rule: parse_handler_opts.induct)
  case (2 key val opts p t)
  show ?case
  proof (cases val)
    case None
    with 2 show ?thesis by (auto split: if_splits)
  next
    case (Some v)
    then have "0 \<notin> set v" using 2 by auto
    then have "length v = 1 \<Longrightarrow> v ! 0 \<noteq> 0" by (cases v) auto
    with Some 2 show ?thesis by (auto split: if_splits)
  qed
qed auto

lemma handler_translit:
  assumes "fsck_handler_create opts flags = Inr hc"
    "\<forall>(k, v) \<in> set opts. \<forall>s. v = Some s \<longrightarrow> 0 \<notin> set s"
  shows "hc_translit hc \<noteq> 0 \<and> hc_translit hc \<noteq> 47"
proof -
  obtain p t where "parse_handler_opts opts (str ''% '', ch CHR ''_'') = Inr (p, t)" "hc_translit hc = t"
    using assms(1) by (auto simp: fsck_handler_create_def split: sum.splits)
  then show ?thesis using parse_handler_opts_translit [OF _ _ assms(2)] by auto
qed

text \<open>
  A bad name is proposed, checked and fixed again until the check is content: what the loop of
  \<open>fsck.c\<close> comes to when the folder checked applies the proposals with \<open>validate_filename_fsck\<close>.
  The argument \<open>n\<close> bounds the number of checks.
\<close>

primrec repair :: "nat \<Rightarrow> handler_ctx \<Rightarrow> fsck_data \<Rightarrow> (handler_ctx \<times> fsck_data) option" where
  "repair 0 hc d = None"
| "repair (Suc n) hc d =
     (case validate_filename_fsck (fd_name d) (strnlen (fd_name d)) of
        (_, None) \<Rightarrow> Some (hc, d)
      | (_, Some (why, extra)) \<Rightarrow> do {
          (hc, d) \<leftarrow> fix_entry hc why (d\<lparr>fd_extra := extra\<rparr>);
          repair n hc d
        })"

text \<open>The verdict on the buffer of an entry.\<close>

lemma validate_fsck_cases:
  assumes "length m = NAME_BUF"
  obtains (ok) "path_component (cstr m)" "validate_filename_fsck m (strnlen m) = (0, None)"
  | (invalid) why extra st where "why = NAME_DOTDOT \<or> why = NAME_BADLEN \<and> extra = 0"
      "\<not> path_component (cstr m)"
      "validate_filename_fsck m (strnlen m) = (st, Some (why, extra))"
  | (long) "strnlen m = NAME_BUF"
      "validate_filename_fsck m (strnlen m) = (FILENAME_BADLEN, Some (NAME_BADLEN, of_nat NAME_BUF))"
  | (slash) i where "find_byte 47 (cstr m) = Some i" "i < strnlen m" "strnlen m \<le> NAME_MAX"
      "validate_filename_fsck m (strnlen m) = (FILENAME_BADCHAR, Some (NAME_BADCHAR, of_nat i))"
proof (cases "strnlen m = NAME_BUF")
  case True
  then show ?thesis
    using long by (simp add: validate_filename_fsck_def validate_filename_def filename_defs
        NAME_BUF_def NAME_MAX_def)
next
  case False
  then have lt: "strnlen m < length m" using strnlen_le [of m] assms by simp
  define s r where "s = cstr m" and "r = drop (Suc (strnlen m)) m"
  have m: "m = s @ 0 # r" using cstr_split [OF lt] by (simp add: s_def r_def)
  have n: "strnlen m = length s" by (simp add: s_def strnlen_def)
  have nul: "0 \<notin> set s" by (simp add: s_def cstr_no_nul)
  have short: "length s \<le> NAME_MAX"
    using lt assms n by (simp add: NAME_BUF_def NAME_MAX_def)
  have cs: "cstr m = s" by (simp add: s_def)
  have verdict: "validate_filename_fsck m (strnlen m) = validate_filename_fsck (s @ 0 # r) (length s)"
    by (simp add: n m [symmetric])
  show ?thesis
  proof (rule validate_filename_cases [OF nul, of r])
    assume "s = str ''.'' \<or> s = str ''..''"
      "validate_filename (s @ 0 # r) (length s) = (FILENAME_DOTDOT, None)"
    then show ?thesis
      using invalid [of NAME_DOTDOT "if (s @ 0 # r) ! 1 = 0 then 1 else 0" FILENAME_DOTDOT]
      unfolding verdict cs
      by (auto simp: validate_filename_fsck_def filename_defs path_component_def)
  next
    assume "s = [] \<or> length s > NAME_MAX"
      "validate_filename (s @ 0 # r) (length s) = (FILENAME_BADLEN, None)"
    then show ?thesis
      using invalid [of NAME_BADLEN 0 FILENAME_BADLEN] short
      unfolding verdict cs
      by (auto simp: validate_filename_fsck_def filename_defs path_component_def)
  next
    fix i
    assume "find_byte 47 s = Some i" "s \<noteq> []" "length s \<le> NAME_MAX"
      "validate_filename (s @ 0 # r) (length s) = (FILENAME_BADCHAR, Some i)"
    then show ?thesis
      using slash [of i] unfolding verdict cs
      by (simp add: validate_filename_fsck_def filename_defs find_byte_Some n)
  next
    assume "path_component s" "validate_filename (s @ 0 # r) (length s) = (0, None)"
    then show ?thesis
      using ok unfolding verdict cs by (simp add: validate_filename_fsck_def filename_defs)
  qed
qed
lemma cstr_update:
  assumes "i < strnlen m" "c \<noteq> 0"
  shows "cstr (m[i := c]) = (cstr m)[i := c]"
proof -
  have i: "i < length m" using assms(1) strnlen_le [of m] by simp
  have pre: "0 \<notin> set (cstr m)" by (rule cstr_no_nul)
  show ?thesis
  proof (cases "strnlen m < length m")
    case True
    have "m[i := c] = (cstr m)[i := c] @ 0 # drop (Suc (strnlen m)) m"
      using assms(1) by (subst cstr_split [OF True]) (simp add: strnlen_def list_update_append)
    then show ?thesis
      using pre assms(2) by (auto intro!: cstr_append_nul dest!: set_update_subset_insert [THEN subsetD])
  next
    case False
    then have "cstr m = m" using take_strnlen [of m] by simp
    then show ?thesis
      using pre assms(2) by (auto intro!: cstr_id dest!: set_update_subset_insert [THEN subsetD])
  qed
qed

lemma count_update_slash:
  assumes "i < length s" "s ! i = 47" "c \<noteq> 47"
  shows "count_list (s[i := c]) 47 < count_list s 47"
  using assms
proof (induction s arbitrary: i)
  case (Cons b s)
  then show ?case by (cases i) auto
qed simp

lemma fsck_name_ok:
  assumes "length m = NAME_BUF"
  shows "length (sprintf m 0 (str ''fsck-'' @ dec (unat (w :: u64)))) = NAME_BUF"
    and "path_component (cstr (sprintf m 0 (str ''fsck-'' @ dec (unat w))))"
proof -
  let ?t = "str ''fsck-'' @ dec (unat w)"
  have len: "length ?t \<le> 25" using length_dec_u64 [of w] by simp
  then show "length (sprintf m 0 ?t) = NAME_BUF"
    using assms by (simp add: length_sprintf NAME_BUF_def)
  have chars: "str ''fsck-'' = [102, 115, 99, 107, 45]" by (simp add: str_def)
  then have "0 \<notin> set ?t" "47 \<notin> set ?t" using dec_no_nul dec_no_slash by auto
  then show "path_component (cstr (sprintf m 0 ?t))"
    using len chars by (simp add: cstr_sprintf path_component_def NAME_MAX_def str_dots)
qed

text \<open>A valid name is left alone.\<close>

lemma repair_ok:
  assumes "length (fd_name d) = NAME_BUF" "path_component (cstr (fd_name d))"
  shows "repair (Suc n) hc d = Some (hc, d)"
  using assms(1)
proof (cases rule: validate_fsck_cases)
  case (slash i)
  then have "47 \<in> set (cstr (fd_name d))"
    using nth_mem [of i "cstr (fd_name d)"] by (simp add: find_byte_Some)
  with assms(2) show ?thesis by (simp add: path_component_def)
next
  case long
  with assms(2) show ?thesis by (simp add: path_component_def strnlen_def NAME_MAX_def NAME_BUF_def)
qed (use assms in auto)

lemma repair_invalid:
  assumes "length (fd_name d) = NAME_BUF" "why = NAME_DOTDOT \<or> why = NAME_BADLEN \<and> extra = 0"
    "validate_filename_fsck (fd_name d) (strnlen (fd_name d)) = (st, Some (why, extra))"
  shows "\<exists>d'. repair (Suc (Suc n)) hc d = Some (hc, d') \<and> fd_id d' = fd_id d \<and>
    length (fd_name d') = NAME_BUF \<and> path_component (cstr (fd_name d'))"
proof -
  define d' where "d' = d\<lparr>fd_extra := extra,
    fd_name := sprintf (fd_name d) 0 (str ''fsck-'' @ dec (unat (fd_id d)))\<rparr>"
  have fix1: "fix_entry hc why (d\<lparr>fd_extra := extra\<rparr>) = Some (hc, d')"
    using assms(2) by (auto simp: fix_entry_def fsck_result_defs d'_def)
  have ok: "length (fd_name d') = NAME_BUF" "path_component (cstr (fd_name d'))"
    using fsck_name_ok [OF assms(1), of "fd_id d"] by (simp_all add: d'_def)
  have "repair (Suc (Suc n)) hc d = repair (Suc n) hc d'"
    using assms(3) fix1 by simp
  then have "repair (Suc (Suc n)) hc d = Some (hc, d')"
    using repair_ok [OF ok, of n hc] by simp
  moreover have "fd_id d' = fd_id d" by (simp add: d'_def)
  ultimately show ?thesis using ok by blast
qed

text \<open>Every slash costs one check; the name may then have become one of the dots.\<close>

lemma repair_slashes:
  assumes "length (fd_name d) = NAME_BUF" "strnlen (fd_name d) \<le> NAME_MAX"
    "hc_translit hc \<noteq> 0" "hc_translit hc \<noteq> 47"
    "count_list (cstr (fd_name d)) 47 + 2 \<le> n"
  shows "\<exists>d'. repair n hc d = Some (hc, d') \<and> fd_id d' = fd_id d \<and>
    length (fd_name d') = NAME_BUF \<and> path_component (cstr (fd_name d'))"
  using assms
proof (induction n arbitrary: d)
  case (Suc n)
  then obtain n' where n': "n = Suc n'" by (cases n) auto
  show ?case
    using Suc.prems(1)
  proof (cases rule: validate_fsck_cases)
    case ok
    then show ?thesis using repair_ok [OF Suc.prems(1)] Suc.prems(1) by auto
  next
    case (invalid why extra st)
    then show ?thesis using repair_invalid [OF Suc.prems(1)] n' by auto
  next
    case long
    with Suc.prems(2) show ?thesis by (simp add: NAME_MAX_def NAME_BUF_def)
  next
    case (slash i)
    have small: "i < 256" using slash(2,3) by (simp add: NAME_MAX_def)
    then have un: "unat (of_nat i :: u64) = i" by (simp add: unat_of_nat)
    define d' where "d' = d\<lparr>fd_extra := of_nat i, fd_name := (fd_name d)[i := hc_translit hc]\<rparr>"
    have fix1: "fix_entry hc NAME_BADCHAR (d\<lparr>fd_extra := of_nat i\<rparr>) = Some (hc, d')"
      using small un by (simp add: fix_entry_def NAME_BUF_def d'_def)
    have cstr: "cstr (fd_name d') = (cstr (fd_name d))[i := hc_translit hc]"
      using cstr_update [OF slash(2) Suc.prems(3)] by (simp add: d'_def)
    have "count_list (cstr (fd_name d')) 47 < count_list (cstr (fd_name d)) 47"
      using slash(1) Suc.prems(4) by (simp add: cstr count_update_slash find_byte_Some)
    moreover have "strnlen (fd_name d') \<le> NAME_MAX" "length (fd_name d') = NAME_BUF"
      "fd_id d' = fd_id d"
      using slash(3) Suc.prems(1) cstr by (simp_all add: strnlen_def) (simp_all add: d'_def)
    ultimately show ?thesis
      using Suc.IH [of d'] Suc.prems(3-5) slash(4) fix1 by simp
  qed
qed simp

text \<open>C19: the handler repairs every bad name.  With any options it accepts, checking a name with
  \<open>validate_filename_fsck\<close> and fixing it again and again ends after at most 258 checks, whatever the
  256 bytes of the name were (with or without a NUL), and it ends with a name that a file can have;
  the entry keeps its id.\<close>

theorem fsck_repair_converges:
  assumes "fsck_handler_create opts flags = Inr hc"
    "\<forall>(k, v) \<in> set opts. \<forall>s. v = Some s \<longrightarrow> 0 \<notin> set s"
    "length (fd_name d) = NAME_BUF"
  shows "\<exists>d'. repair 258 hc d = Some (hc, d') \<and> fd_id d' = fd_id d \<and>
    length (fd_name d') = NAME_BUF \<and> path_component (cstr (fd_name d'))"
proof -
  have translit: "hc_translit hc \<noteq> 0" "hc_translit hc \<noteq> 47"
    using handler_translit [OF assms(1,2)] by simp_all
  have short: ?thesis if "strnlen (fd_name d) \<le> NAME_MAX"
  proof -
    have "count_list (cstr (fd_name d)) 47 \<le> strnlen (fd_name d)"
      by (simp add: count_le_length strnlen_def)
    with that show ?thesis
      using repair_slashes [OF assms(3) that translit] by (simp add: NAME_MAX_def)
  qed
  show ?thesis
    using assms(3)
  proof (cases rule: validate_fsck_cases)
    case long
    define d' where "d' = d\<lparr>fd_extra := of_nat NAME_BUF, fd_name := (fd_name d)[NAME_BUF - 1 := 0]\<rparr>"
    have "cstr (fd_name d) = fd_name d" using long assms(3) take_strnlen [of "fd_name d"] by simp
    then have nul: "0 \<notin> set (fd_name d)" by (metis cstr_no_nul)
    have "fd_name d' = take NAME_MAX (fd_name d) @ 0 # []"
      using assms(3) by (simp add: d'_def upd_conv_take_nth_drop NAME_BUF_def NAME_MAX_def)
    moreover have "0 \<notin> set (take NAME_MAX (fd_name d))"
      using nul by (auto dest: in_set_takeD)
    ultimately have cstr: "cstr (fd_name d') = take NAME_MAX (fd_name d)"
      by (simp add: cstr_append_nul)
    then have "strnlen (fd_name d') \<le> NAME_MAX" by (simp add: strnlen_def)
    moreover have "count_list (cstr (fd_name d')) 47 \<le> NAME_MAX"
      using count_le_length [of "cstr (fd_name d')" 47] cstr by simp
    moreover have "length (fd_name d') = NAME_BUF" "fd_id d' = fd_id d"
      using assms(3) by (simp_all add: d'_def)
    ultimately have "\<exists>d''. repair 257 hc d' = Some (hc, d'') \<and> fd_id d'' = fd_id d \<and>
        length (fd_name d'') = NAME_BUF \<and> path_component (cstr (fd_name d''))"
      using repair_slashes [of d' hc 257] translit by (simp add: NAME_MAX_def)
    moreover have "fix_entry hc NAME_BADLEN (d\<lparr>fd_extra := of_nat NAME_BUF\<rparr>) = Some (hc, d')"
      by (simp add: fix_entry_def fsck_result_defs d'_def NAME_BUF_def)
    then have "repair (Suc 257) hc d = repair 257 hc d'"
      using long by (subst repair.simps(2)) simp
    ultimately show ?thesis by simp
  next
    case (slash i)
    then show ?thesis using short by simp
  next
    case ok
    then show ?thesis using short by (simp add: path_component_def strnlen_def)
  next
    case (invalid why extra st)
    then show ?thesis using repair_invalid [OF assms(3), of why extra st 256 hc] by simp
  qed
qed

theorem fsck_repair_converges_witness:
  "\<exists>hc d'. fsck_handler_create [(str ''translit'', Some (str ''.''))] 0 = Inr hc \<and>
    repair 258 hc (fsck_data_zero\<lparr>fd_name := replicate 256 47\<rparr>) = Some (hc, d') \<and>
    path_component (cstr (fd_name d'))"
proof -
  have "str ''translit'' \<noteq> str ''prompt''" by (simp add: str_def)
  then obtain hc where hc: "fsck_handler_create [(str ''translit'', Some (str ''.''))] 0 = Inr hc"
    by (simp add: fsck_handler_create_def str_dots)
  show ?thesis
    using hc fsck_repair_converges [OF hc, of "fsck_data_zero\<lparr>fd_name := replicate 256 47\<rparr>"]
    by (auto simp: str_dots NAME_BUF_def)
qed

end
