(* ===== verification/Fsck_Input.thy ===== *)
theory Fsck_Input
  imports Fsck_Repair
begin

text \<open>
  The handler in its two modes: what it never does on a read-only check, and what its interactive
  commands do with their input.
\<close>

section \<open>Flags\<close>

lemma flag_bit: "has_flag f (2 ^ k) \<longleftrightarrow> bit f k"
  by (simp add: has_flag_def and_exp_eq_0_iff_not_bit)

lemma handler_flag_powers:
  "HANDLER_INTERACTIVE = 2 ^ 0" "HANDLER_READONLY = 2 ^ 1" "HANDLER_EXPECT_INPUT = 2 ^ 16"
  "HANDLER_HAS_ENTRY = 2 ^ 17" "HANDLER_INHIBIT_NEXT = 2 ^ 18"
  by (simp_all add: handler_flag_defs)

lemma handler_flags [simp]:
  "has_flag f HANDLER_INTERACTIVE \<longleftrightarrow> bit f 0" "has_flag f HANDLER_READONLY \<longleftrightarrow> bit f 1"
  "has_flag f HANDLER_EXPECT_INPUT \<longleftrightarrow> bit f 16" "has_flag f HANDLER_HAS_ENTRY \<longleftrightarrow> bit f 17"
  "has_flag f HANDLER_INHIBIT_NEXT \<longleftrightarrow> bit f 18"
  unfolding handler_flag_powers by (rule flag_bit)+

lemma handler_bits [simp]:
  "bit HANDLER_EXPECT_INPUT n \<longleftrightarrow> n = 16" "bit HANDLER_HAS_ENTRY n \<longleftrightarrow> n = 17"
  "bit HANDLER_INHIBIT_NEXT n \<longleftrightarrow> n = 18"
  by (simp_all only: handler_flag_powers bit_exp_iff) (auto simp: possible_bit_word)

lemmas bit_flags = bit_or_iff bit_and_iff bit_not_iff

section \<open>Read-only checks\<close>

text \<open>The mode of the handler is settled when it is created.\<close>

definition same_mode :: "handler_ctx \<Rightarrow> handler_ctx \<Rightarrow> bool" where
  "same_mode hc hc' \<longleftrightarrow> (\<forall>k \<in> {0, 1}. bit (hc_flags hc') k = bit (hc_flags hc) k)"

lemma same_mode_refl [simp]: "same_mode hc hc"
  by (simp add: same_mode_def)

lemma same_mode_out [simp]: "same_mode hc (out t hc') = same_mode hc hc'"
  "same_mode hc (puts t hc') = same_mode hc hc'" "hc_flags (out t hc') = hc_flags hc'"
  "hc_flags (puts t hc') = hc_flags hc'"
  by (simp_all add: same_mode_def out_def puts_def)

lemma same_mode_usage [simp]: "same_mode hc (print_usage hc') = same_mode hc hc'"
  "hc_flags (print_usage hc') = hc_flags hc'"
  by (simp_all add: print_usage_def)

lemma same_mode_flags [simp]:
  "same_mode hc (hc'\<lparr>hc_data_buf := d\<rparr>) = same_mode hc hc'"
  "same_mode hc (hc'\<lparr>hc_flags := hc_flags hc' OR HANDLER_EXPECT_INPUT\<rparr>) = same_mode hc hc'"
  "same_mode hc (hc'\<lparr>hc_flags := hc_flags hc' OR HANDLER_HAS_ENTRY\<rparr>) = same_mode hc hc'"
  "same_mode hc (hc'\<lparr>hc_flags := hc_flags hc' OR HANDLER_INHIBIT_NEXT\<rparr>) = same_mode hc hc'"
  "same_mode hc (hc'\<lparr>hc_flags := hc_flags hc' AND NOT HANDLER_INHIBIT_NEXT\<rparr>) = same_mode hc hc'"
  "same_mode hc (hc'\<lparr>hc_flags := hc_flags hc' AND NOT (HANDLER_HAS_ENTRY OR HANDLER_EXPECT_INPUT)\<rparr>) =
     same_mode hc hc'"
  by (simp_all add: same_mode_def bit_flags)

lemma expect_input_mode:
  "expect_input hc d = (c, hc', d') \<Longrightarrow> same_mode hc0 hc' = same_mode hc0 hc \<and> c = FSCK_USER_INPUT"
  by (auto simp: expect_input_def)

lemma expect_next_mode:
  assumes "expect_next hc control m d = (c, hc', d')"
  shows "same_mode hc0 hc' = same_mode hc0 hc \<and> (c = control \<or> c = FSCK_USER_INPUT)"
proof (cases "m ! 1 \<noteq> ch CHR ''-'' \<and> m ! 1 \<noteq> 0")
  case True
  with assms show ?thesis
    using expect_input_mode [of "print_usage hc"] by (simp add: expect_next_def)
next
  case False
  with False assms show ?thesis
    by (auto simp: expect_next_def Let_def same_mode_def bit_flags split: if_splits)
qed

lemma control_distinct:
  "FSCK_NEXT \<noteq> FSCK_APPLY" "FSCK_SKIP \<noteq> FSCK_APPLY" "FSCK_SKIP_CHILDREN \<noteq> FSCK_APPLY"
  "FSCK_REWIND \<noteq> FSCK_APPLY" "FSCK_RESET \<noteq> FSCK_APPLY" "FSCK_SAVE \<noteq> FSCK_APPLY"
  "FSCK_USER_INPUT \<noteq> FSCK_APPLY" "FSCK_STOP \<noteq> FSCK_APPLY"
  by (simp_all add: control_defs)

lemma handle_input_mode:
  assumes "handle_input hc d = Some (c, hc', d')"
  shows "same_mode hc hc' \<and> (c = FSCK_APPLY \<longrightarrow> \<not> bit (hc_flags hc) 1)"
proof -
  obtain input where input: "hd_head d = Str input"
    using assms by (cases "hd_head d") (auto simp: handle_input_def)
  obtain nxt m where tok: "strtok input = (nxt, m)" by (cases "strtok input")
  note defs = handle_input_def input tok
  have next_case: "same_mode hc hc' \<and> (c = FSCK_APPLY \<longrightarrow> \<not> bit (hc_flags hc) 1)"
    if "Some (expect_next hc k m d) = Some (c, hc', d')" "k \<noteq> FSCK_APPLY" for k
    using that expect_next_mode [of hc k m d c hc' d' hc] by (auto simp: control_defs)
  have input_case: "same_mode hc hc' \<and> (c = FSCK_APPLY \<longrightarrow> \<not> bit (hc_flags hc) 1)"
    if "Some (expect_input h d) = Some (c, hc', d')" "same_mode hc h" for h
    using that expect_input_mode [of h d c hc' d' hc] by (auto simp: control_defs)
  have print_case: "same_mode hc hc' \<and> (c = FSCK_APPLY \<longrightarrow> \<not> bit (hc_flags hc) 1)"
    if "print_entry x hc = Some h" "expect_input h d = (c, hc', d')" for x h
    using that input_case [of h] by (auto simp: print_entry_def Let_def split: if_splits)
  have apply_case: "same_mode hc hc' \<and> (c = FSCK_APPLY \<longrightarrow> \<not> bit (hc_flags hc) 1)"
    if "(if has_flag (hc_flags h) HANDLER_READONLY then Some (expect_input h d)
         else if \<not> has_flag (hc_flags h) HANDLER_HAS_ENTRY then Some (expect_input (puts (str ''no entry'') h) d)
         else Some (expect_next h FSCK_APPLY m (d\<lparr>hd_data := hc_data_buf h\<rparr>))) = Some (c, hc', d')"
      "hc_flags h = hc_flags hc" for h
  proof -
    have h: "same_mode hc h" using that(2) by (simp add: same_mode_def)
    consider "bit (hc_flags h) 1" | "\<not> bit (hc_flags h) 1" "\<not> bit (hc_flags h) 17"
      | "\<not> bit (hc_flags h) 1" "bit (hc_flags h) 17" by blast
    then show ?thesis
    proof cases
      case 1
      with that h show ?thesis using input_case [of h] by simp
    next
      case 2
      with that h show ?thesis using input_case [of "puts (str ''no entry'') h"] by simp
    next
      case 3
      with that h show ?thesis
        using expect_next_mode [of h FSCK_APPLY m "d\<lparr>hd_data := hc_data_buf h\<rparr>" c hc' d' hc] by auto
    qed
  qed
  consider "cmd CHR ''p'' m" | "\<not> cmd CHR ''p'' m" "cmd CHR ''e'' m"
    | "\<not> cmd CHR ''p'' m" "\<not> cmd CHR ''e'' m" "cmd CHR ''a'' m"
    | "\<not> cmd CHR ''p'' m" "\<not> cmd CHR ''e'' m" "\<not> cmd CHR ''a'' m" by blast
  then show ?thesis
  proof cases
    case 1
    with assms show ?thesis
      using input_case [of "puts (str ''no entry'') hc"] print_case
      by (auto simp: defs Let_def split: if_splits bind_splits)
  next
    case 2
    show ?thesis
    proof (cases nxt)
      case None
      with 2 assms show ?thesis using input_case [of "print_usage hc"] by (simp add: defs)
    next
      case (Some name)
      with 2 assms show ?thesis
        using apply_case [of "hc\<lparr>hc_data_buf := (hc_data_buf hc)\<lparr>fd_name := strncpy name NAME_BUF\<rparr>\<rparr>"]
        by (simp add: defs)
    qed
  next
    case 3
    with assms show ?thesis using apply_case [of hc] by (simp add: defs)
  next
    case 4
    with assms show ?thesis
      using next_case [of FSCK_NEXT] next_case [of FSCK_SKIP] next_case [of FSCK_SKIP_CHILDREN]
        next_case [of FSCK_REWIND] next_case [of FSCK_RESET] next_case [of FSCK_SAVE]
        input_case [of hc] input_case [of "print_usage hc"]
      by (simp add: defs control_distinct split: if_splits)
  qed
qed

lemma fix_entry_flags: "fix_entry hc why d = Some (hc', d') \<Longrightarrow> hc_flags hc' = hc_flags hc"
  by (auto simp: fix_entry_def fix_name_dup_def Let_def split: if_splits)

lemma handle_entry_mode:
  assumes "handle_entry hc why d = Some (c, hc', d')"
  shows "same_mode hc hc' \<and> (c = FSCK_APPLY \<longrightarrow> \<not> bit (hc_flags hc) 1)"
proof -
  obtain p where p: "hd_head d = Parent p"
    using assms by (cases "hd_head d") (auto simp: handle_entry_def)
  define h where "h = (if p \<noteq> hc_parent_id hc then hc\<lparr>hc_parent_id := p, hc_counter := 0\<rparr> else hc)"
  obtain st h1 where pr: "print_fsck_result why (hd_data d) h = (st, h1)"
    by (cases "print_fsck_result why (hd_data d) h")
  have h1: "hc_flags h1 = hc_flags hc"
    using pr by (auto simp: print_fsck_result_def h_def Let_def split: if_splits option.splits)
  then have mode: "same_mode hc h1" by (simp add: same_mode_def)
  show ?thesis
  proof (cases "st = 0")
    case False
    with assms show ?thesis
      using mode by (auto simp: handle_entry_def p pr control_defs h_def [symmetric])
  next
    case True
    then obtain c1 h2 d1 where step:
        "(if bit (hc_flags h1) 1 then Some (FSCK_NEXT, h1, d)
          else do { (hc, fixed) \<leftarrow> fix_entry h1 why (hd_data d); Some (FSCK_APPLY, hc, d\<lparr>hd_data := fixed\<rparr>) }) =
         Some (c1, h2, d1)"
      and rest: "(let (control, hc, d) =
           (if bit (hc_flags h2) 0 then expect_input (h2\<lparr>hc_data_buf := hd_data d1\<rparr>) d1
            else (c1, h2, d1));
         x = hc\<lparr>hc_flags := hc_flags hc OR HANDLER_HAS_ENTRY\<rparr> in (control, x, d)) = (c, hc', d')"
      using assms
      by (auto simp: handle_entry_def p pr h_def [symmetric] Let_def split: bind_splits prod.splits)
    have h2: "hc_flags h2 = hc_flags hc" "c1 = FSCK_APPLY \<longrightarrow> \<not> bit (hc_flags hc) 1"
      using step h1 by (auto simp: control_defs split: if_splits bind_splits dest: fix_entry_flags)
    then have "same_mode hc h2" by (simp add: same_mode_def)
    then have set_entry: "same_mode hc (x\<lparr>hc_flags := hc_flags x OR HANDLER_HAS_ENTRY\<rparr>)"
      if "same_mode hc x" for x using that by simp
    have "same_mode hc (h2\<lparr>hc_data_buf := x\<rparr>)" for x using \<open>same_mode hc h2\<close> by simp
    then show ?thesis
      using rest h2 set_entry [OF \<open>same_mode hc h2\<close>] set_entry
        expect_input_mode [of "h2\<lparr>hc_data_buf := hd_data d1\<rparr>" d1 _ _ _ hc]
      by (cases "expect_input (h2\<lparr>hc_data_buf := hd_data d1\<rparr>) d1")
        (auto simp: Let_def control_defs split: if_splits)
  qed
qed

text \<open>A handler created for a read-only check never asks for a proposal to be applied.\<close>

lemma fsck_handler_mode:
  assumes "fsck_handler_run hc why d = Some (c, hc', d')"
  shows "same_mode hc hc' \<and> (c = FSCK_APPLY \<longrightarrow> \<not> bit (hc_flags hc) 1)"
  using assms handle_entry_mode [of hc why d c hc' d'] handle_input_mode [of hc d c hc' d']
    expect_input_mode [of "hc\<lparr>hc_flags := hc_flags hc AND NOT HANDLER_INHIBIT_NEXT\<rparr>" d c hc' d' hc]
  by (auto simp: fsck_handler_run_def control_defs split: if_splits)

section \<open>Commands\<close>

text \<open>An input line \<open>e \<close> followed by a name: the first token is the command itself.\<close>

lemma strtok_edit:
  assumes "0 \<notin> set name"
  shows "strtok (str ''e '' @ name @ [0]) = (Some (str ''e''), (str ''e '' @ name @ [0])[1 := 0])"
proof -
  have "cstr (str ''e '' @ name @ [0]) = 101 # 32 # name"
    using assms cstr_append_nul [of "101 # 32 # name" "[]"] by (simp add: str_def)
  then show ?thesis by (simp add: strtok_def str_def is_delim_def Let_def)
qed

text \<open>C23: the edit command ignores the name it is given.  For the line \<open>e <new_name>\<close>, whatever the new
  name is, the handler asks to apply the entry with the name \<open>e\<close>: \<open>strtok\<close> returns the first word of
  the line, which is the command.\<close>

theorem fsck_edit_ignores_name:
  assumes "0 \<notin> set name" "has_flag (hc_flags hc) HANDLER_EXPECT_INPUT"
    "has_flag (hc_flags hc) HANDLER_HAS_ENTRY" "\<not> has_flag (hc_flags hc) HANDLER_READONLY"
    "hd_head d = Str (str ''e '' @ name @ [0])"
  shows "\<exists>hc' d'. fsck_handler_run hc (-1) d = Some (FSCK_APPLY, hc', d') \<and>
    fd_id (hd_data d') = fd_id (hc_data_buf hc) \<and> cstr (fd_name (hd_data d')) = str ''e''"
proof -
  have name: "cstr (strncpy (str ''e'') NAME_BUF) = str ''e''"
  proof -
    have "strncpy (str ''e'') NAME_BUF = str ''e'' @ 0 # replicate 254 0"
      by (simp add: strncpy_def cstr_id str_def NAME_BUF_def replicate_Suc [symmetric] del: replicate_Suc)
    then show ?thesis using cstr_append_nul [of "str ''e''"] by (simp add: str_def)
  qed
  have m: "(str ''e '' @ name @ [0])[1 := 0] ! 0 = 101" "(str ''e '' @ name @ [0])[1 := 0] ! 1 = 0"
    by (simp_all add: str_def)
  have cmds: "cmd CHR ''e'' ((str ''e '' @ name @ [0])[1 := 0])" "\<not> cmd CHR ''p'' ((str ''e '' @ name @ [0])[1 := 0])"
    by (simp_all add: cmd_def str_def ch_def)
  show ?thesis
    using assms cmds m name
    by (simp add: fsck_handler_run_def handle_input_def strtok_edit expect_next_def)
qed

definition asking :: "u32 \<Rightarrow> handler_ctx" where
  "asking flags = demo_handler\<lparr>hc_flags := flags\<rparr>"

theorem fsck_edit_ignores_name_witness:
  "\<exists>hc' d'. fsck_handler_run (asking (2 ^ 16 OR 2 ^ 17)) (-1)
      \<lparr>hd_head = Str (str ''e '' @ str ''News'' @ [0]), hd_data = fsck_data_zero\<rparr> =
      Some (FSCK_APPLY, hc', d') \<and> cstr (fd_name (hd_data d')) = str ''e''"
proof -
  have "0 \<notin> set (str ''News'')" by (simp add: str_def)
  then show ?thesis
    using fsck_edit_ignores_name [of "str ''News''" "asking (2 ^ 16 OR 2 ^ 17)"
        "\<lparr>hd_head = Str (str ''e '' @ str ''News'' @ [0]), hd_data = fsck_data_zero\<rparr>"]
    by (auto simp: asking_def demo_handler_def bit_simps)
qed

lemma strnlen_full: "length m = NAME_BUF \<Longrightarrow> 0 \<notin> set m \<Longrightarrow> strnlen m = NAME_BUF"
  by (simp add: strnlen_def cstr_id)

lemma translit_full:
  assumes "length m = NAME_BUF" "0 \<notin> set m"
  shows "strnlen (fst (translit_control_chars NAME_BUF m (ch CHR ''?''))) = NAME_BUF"
proof -
  have "strncpy m NAME_BUF = m" using assms by (simp add: strncpy_def cstr_id)
  moreover have "ch CHR ''?'' \<noteq> 0" by (simp add: ch_def)
  ultimately show ?thesis
    using assms by (intro strnlen_full) (auto simp: translit_control_chars_def Let_def strnlen_full)
qed

text \<open>C24: on a read-only interactive check, the print command reads past the end of a buffer.  When
  the name of the entry fills its 256 bytes (which is how a name of 256 bytes or more is handed
  over), the handler asks for input, and the line \<open>p\<close> then prints a copy of the name that no NUL
  ends: there is no result.\<close>

theorem fsck_print_overrun:
  assumes "has_flag (hc_flags hc) HANDLER_READONLY" "has_flag (hc_flags hc) HANDLER_INTERACTIVE"
    "hd_head d = Parent p" "length (fd_name (hd_data d)) = NAME_BUF" "0 \<notin> set (fd_name (hd_data d))"
  shows "\<exists>hc' d'. fsck_handler_run hc NAME_BADLEN d = Some (FSCK_USER_INPUT, hc', d') \<and>
    fsck_handler_run hc' (-1) (d'\<lparr>hd_head := Str (str ''p'' @ [0])\<rparr>) = None"
proof -
  define h where "h = (if p \<noteq> hc_parent_id hc then hc\<lparr>hc_parent_id := p, hc_counter := 0\<rparr> else hc)"
  have flags: "hc_flags h = hc_flags hc" by (simp add: h_def)
  obtain h1 where pr: "print_fsck_result NAME_BADLEN (hd_data d) h = (0, h1)"
    by (simp add: print_fsck_result_def result_str_def fsck_result_defs Let_def)
  then have flags1: "hc_flags h1 = hc_flags hc"
    using flags by (auto simp: print_fsck_result_def result_str_def fsck_result_defs Let_def)
  define h2 where "h2 = h1\<lparr>hc_data_buf := hd_data d,
    hc_flags := hc_flags hc OR HANDLER_EXPECT_INPUT OR HANDLER_HAS_ENTRY\<rparr>"
  have "fsck_handler_run hc NAME_BADLEN d =
      Some (FSCK_USER_INPUT, h2, d\<lparr>hd_head := Str (hc_prompt h1 @ [0])\<rparr>)"
    using assms flags1 pr
    by (simp add: fsck_handler_run_def handle_entry_def h_def [symmetric] expect_input_def Let_def
        fsck_result_defs h2_def or.assoc)
  moreover have "strtok (str ''p'' @ [0]) = (Some (str ''p''), str ''p'' @ [0])"
    by (simp add: strtok_def cstr_def str_def is_delim_def)
  moreover have "cmd CHR ''p'' (str ''p'' @ [0])" by (simp add: cmd_def str_def ch_def)
  ultimately show ?thesis
    using translit_full [OF assms(4,5)]
    by (simp add: fsck_handler_run_def handle_input_def h2_def bit_flags print_entry_def)
qed

theorem fsck_print_overrun_witness:
  "\<exists>hc' d'. fsck_handler_run (asking (2 ^ 0 OR 2 ^ 1)) NAME_BADLEN
      \<lparr>hd_head = Parent 1, hd_data = fsck_data_zero\<lparr>fd_name := replicate 256 97\<rparr>\<rparr> =
      Some (FSCK_USER_INPUT, hc', d') \<and>
    fsck_handler_run hc' (-1) (d'\<lparr>hd_head := Str (str ''p'' @ [0])\<rparr>) = None"
  by (rule fsck_print_overrun [of _ _ 1])
    (simp_all add: asking_def demo_handler_def bit_simps NAME_BUF_def)

end
