(* ===== verification/Fsck_Offline.thy ===== *)
theory Fsck_Offline
  imports Fsck_Handler
begin

text \<open>
  \<open>fsck_offline.c\<close>: the checker on a backend of its own.  It walks over the folders with a stack,
  checks the names in each with \<open>bookmark_check\<close> and looks for the next subfolder with
  \<open>bookmark_list\<close>.  The functions of the backend are the parameter \<open>B\<close>, its state is of type \<open>'b\<close>.
  A computation that cannot go on is \<open>None\<close>.
\<close>

section \<open>The backend\<close>

text \<open>
  The part of \<open>struct bookmarkfs_backend\<close> that the checker calls, with the types of its callbacks.
  In-out pointers are arguments and results.
\<close>

type_synonym list_cb = "bookmark_entry \<Rightarrow> bookmark_entry \<Rightarrow> int \<times> bookmark_entry"

record 'b fsck_backend =
  fb_create :: "backend_conf \<Rightarrow> create_resp \<Rightarrow> int \<times> create_resp \<times> 'b"
  fb_destroy :: "'b \<Rightarrow> 'b"
  fb_sandbox :: "'b \<Rightarrow> create_resp \<Rightarrow> int \<times> create_resp \<times> 'b"
  fb_check :: "'b \<Rightarrow> u64 \<Rightarrow> fsck_data option \<Rightarrow> u32 \<Rightarrow> check_cb option \<Rightarrow> fsck_data \<times> int \<Rightarrow> ptr \<Rightarrow>
    int \<times> (fsck_data \<times> int) \<times> ptr \<times> 'b"
  fb_list :: "'b \<Rightarrow> u64 \<Rightarrow> nat \<Rightarrow> u32 \<Rightarrow> list_cb \<Rightarrow> bookmark_entry \<Rightarrow> ptr \<Rightarrow>
    int \<times> bookmark_entry \<times> ptr \<times> 'b"
  fb_lookup :: "'b \<Rightarrow> u64 \<Rightarrow> bytes \<Rightarrow> u32 \<Rightarrow> int \<times> bookmark_stat \<times> 'b"
  fb_sync :: "'b \<Rightarrow> int \<times> 'b"
  fb_cookie_free :: "'b \<Rightarrow> ptr \<Rightarrow> 'b"

section \<open>State\<close>

definition FSCK_OP_RECURSIVE :: u32 where "FSCK_OP_RECURSIVE = 0x10000"
definition FSCK_ALL_DONE :: u32 where "FSCK_ALL_DONE = 0x1000000"

record fsck_dir =
  sd_id :: u64
  sd_cookie :: ptr
  sd_off :: int

text \<open>
  \<open>dir_stack\<close> is the allocated array, \<open>None\<close> where it is uninitialised; its length is
  \<open>dir_stack_size\<close>.  \<open>oc_b\<close> is the state behind \<open>backend_ctx\<close>.
\<close>

record 'b offline_ctx =
  oc_b :: 'b
  dir_stack :: "fsck_dir option list"
  dir_stack_top :: nat
  oc_path :: "bytes option"
  oc_flags :: u32

definition get_dir :: "fsck_dir option list \<Rightarrow> nat \<Rightarrow> fsck_dir option" where
  "get_dir st i = (if i < length st then st ! i else None)"

definition type_flags :: "u32 \<Rightarrow> u32" where
  "type_flags flags = flags AND BOOKMARKFS_BOOKMARK_TYPE_MASK"

section \<open>Calls of the backend\<close>

definition do_fsck_cb :: check_cb where
  "do_fsck_cb result i extra name data =
     (let d = (fst data)\<lparr>fd_id := i, fd_extra := extra\<rparr>;
          d = (case name of None \<Rightarrow> d | Some n \<Rightarrow> d\<lparr>fd_name := strncpy n NAME_BUF\<rparr>)
      in (1, (d, result)))"

text \<open>An \<open>entry_buf\<close> of \<open>None\<close> is the null pointer: rewind.\<close>

definition do_fsck ::
  "'b fsck_backend \<Rightarrow> u32 \<Rightarrow> fsck_dir \<Rightarrow> fsck_data option \<Rightarrow> handler_data option \<Rightarrow> 'b \<Rightarrow>
    int \<times> fsck_dir \<times> handler_data option \<times> 'b" where
  "do_fsck B flags dir apply_data entry_buf b =
     (let (callback, user) = (case entry_buf of
            Some e \<Rightarrow> (Some do_fsck_cb, (hd_data e, FSCK_RESULT_END))
          | None \<Rightarrow> (None, (fsck_data_zero, FSCK_RESULT_END)));
          (status, (d, result), cookie, b) =
            fb_check B b (sd_id dir) apply_data (type_flags flags) callback user (sd_cookie dir);
          entry_buf = map_option (\<lambda>e. e\<lparr>hd_head := Parent (sd_id dir), hd_data := d\<rparr>) entry_buf
      in (if status < 0 then status else result, dir\<lparr>sd_cookie := cookie\<rparr>, entry_buf, b))"

definition do_list_cb :: list_cb where
  "do_list_cb entry result =
     (if value_len (be_stat entry) \<ge> 0 then (0, result)
      else (1, result\<lparr>be_off := be_off entry,
                      be_stat := (be_stat result)\<lparr>bs_id := bs_id (be_stat entry)\<rparr>\<rparr>))"

text \<open>The status, the folder, the id of the next subfolder (all ones if there is none) and the backend.\<close>

definition do_list :: "'b fsck_backend \<Rightarrow> fsck_dir \<Rightarrow> 'b \<Rightarrow> int \<times> fsck_dir \<times> u64 \<times> 'b" where
  "do_list B dir b =
     (let entry = \<lparr>be_name = [], be_off = nat (sd_off dir),
                   be_stat = \<lparr>bs_id = -1, value_len = 0, bs_atime = timespec_zero,
                              bs_mtime = timespec_zero\<rparr>\<rparr>;
          (status, entry, cookie, b) =
            fb_list B b (sd_id dir) (nat (sd_off dir)) 0 do_list_cb entry (sd_cookie dir);
          dir = dir\<lparr>sd_cookie := cookie\<rparr>
      in if status < 0 then (status, dir, -1, b)
         else (0, dir\<lparr>sd_off := int (be_off entry)\<rparr>, bs_id (be_stat entry), b))"

definition free_dir :: "'b fsck_backend \<Rightarrow> fsck_dir \<Rightarrow> 'b \<Rightarrow> 'b" where
  "free_dir B dir b = fb_cookie_free B b (sd_cookie dir)"

section \<open>The top-level folder\<close>

lemma strchr_less: "strchr s c = Some n \<Longrightarrow> n < length s"
  by (simp add: strchr_def find_byte_Some)

text \<open>The loop of \<open>init_top\<close> over the components of the path.\<close>

function walk_path ::
  "'b fsck_backend \<Rightarrow> u32 \<Rightarrow> u64 \<Rightarrow> bytes option \<Rightarrow> 'b \<Rightarrow> (int + u64) \<times> 'b" where
  "walk_path B flags i None b = (Inr i, b)"
| "walk_path B flags i (Some path) b =
     (let (name, sep) = (case strchr path (ch CHR ''/'') of
            Some n \<Rightarrow> (take n path, Some (drop (Suc n) path))
          | None \<Rightarrow> (path, None))
      in if name = [] then walk_path B flags i sep b
         else (let (status, stat_buf, b) = fb_lookup B b i name (type_flags flags)
               in if status < 0 then (Inl (-1), b)
                  else if value_len stat_buf \<ge> 0 then (Inl (-1), b)
                  else walk_path B flags (bs_id stat_buf) sep b))"
  by pat_completeness auto

termination
  by (relation "measure (\<lambda>(_, _, _, p, _). case p of None \<Rightarrow> 0 | Some s \<Rightarrow> Suc (length s))")
    (auto split: option.splits dest: strchr_less)

definition init_top :: "'b fsck_backend \<Rightarrow> 'b offline_ctx \<Rightarrow> (int \<times> 'b offline_ctx) option" where
  "init_top B ctx = do {
     dir \<leftarrow> get_dir (dir_stack ctx) 0;
     (if sd_id dir = -1 then Some (-1, ctx)
      else (case walk_path B (oc_flags ctx) (sd_id dir) (oc_path ctx) (oc_b ctx) of
              (Inl e, b) \<Rightarrow> Some (e, ctx\<lparr>oc_b := b\<rparr>)
            | (Inr i, b) \<Rightarrow>
                Some (0, ctx\<lparr>oc_b := b, dir_stack := (dir_stack ctx)[0 := Some (dir\<lparr>sd_id := i\<rparr>)]\<rparr>)))
   }"

definition reset_top :: "'b fsck_backend \<Rightarrow> 'b offline_ctx \<Rightarrow> (int \<times> 'b offline_ctx) option" where
  "reset_top B ctx = (let ctx = ctx\<lparr>oc_flags := oc_flags ctx AND NOT FSCK_ALL_DONE\<rparr> in do {
     dir \<leftarrow> get_dir (dir_stack ctx) 0;
     (if sd_off dir < 0 then
        (let (r, dir, _, b) = do_fsck B (oc_flags ctx) dir None None (oc_b ctx)
         in Some (r, ctx\<lparr>oc_b := b, dir_stack := (dir_stack ctx)[0 := Some dir]\<rparr>))
      else Some (0, ctx\<lparr>dir_stack := (dir_stack ctx)[0 := Some (dir\<lparr>sd_off := -1\<rparr>)]\<rparr>))
   })"

section \<open>Operations\<close>

definition fsck_apply_offline ::
  "'b fsck_backend \<Rightarrow> handler_data \<Rightarrow> 'b offline_ctx \<Rightarrow> (int \<times> handler_data \<times> 'b offline_ctx) option" where
  "fsck_apply_offline B entry ctx = do {
     dir \<leftarrow> get_dir (dir_stack ctx) (dir_stack_top ctx);
     (case do_fsck B (oc_flags ctx) dir (Some (hd_data entry)) (Some entry) (oc_b ctx) of
        (r, dir, e, b) \<Rightarrow>
          Some (r, the e, ctx\<lparr>oc_b := b, dir_stack := (dir_stack ctx)[dir_stack_top ctx := Some dir]\<rparr>))
   }"

text \<open>\<open>free_dir\<close> on the folders \<open>1, \<dots>, top\<close>, from the top down.\<close>

primrec free_above :: "'b fsck_backend \<Rightarrow> fsck_dir option list \<Rightarrow> nat \<Rightarrow> 'b \<Rightarrow> 'b option" where
  "free_above B st 0 b = Some b"
| "free_above B st (Suc n) b = do { dir \<leftarrow> get_dir st (Suc n); free_above B st n (free_dir B dir b) }"

definition fsck_control_offline ::
  "'b fsck_backend \<Rightarrow> int \<Rightarrow> 'b offline_ctx \<Rightarrow> (int \<times> 'b offline_ctx) option" where
  "fsck_control_offline B control ctx = do {
     let top = dir_stack_top ctx;
     dir \<leftarrow> get_dir (dir_stack ctx) top;
     let rewind = (\<lambda>dir. case do_fsck B (oc_flags ctx) dir None None (oc_b ctx) of
           (r, dir, _, b) \<Rightarrow> Some (r, ctx\<lparr>oc_b := b, dir_stack := (dir_stack ctx)[top := Some dir]\<rparr>));
     (if control = FSCK_SKIP then
        (if sd_off dir \<ge> 0 then Some (0, ctx) else rewind (dir\<lparr>sd_off := 0\<rparr>))
      else if control = FSCK_REWIND then rewind dir
      else if control = FSCK_SKIP_CHILDREN then
        (if top = 0 then Some (0, ctx\<lparr>oc_flags := oc_flags ctx OR FSCK_ALL_DONE\<rparr>)
         else Some (0, ctx\<lparr>oc_b := free_dir B dir (oc_b ctx), dir_stack_top := top - 1\<rparr>))
      else if control = FSCK_RESET then do {
        b \<leftarrow> free_above B (dir_stack ctx) top (oc_b ctx);
        reset_top B (ctx\<lparr>oc_b := b, dir_stack_top := 0\<rparr>)
      }
      else if control = FSCK_SAVE then
        (if has_flag (oc_flags ctx) BACKEND_READONLY then Some (0, ctx)
         else (case fb_sync B (oc_b ctx) of (r, b) \<Rightarrow> Some (r, ctx\<lparr>oc_b := b\<rparr>)))
      else None)
   }"

text \<open>
  The inner loop of \<open>fsck_next\<close>: the next subfolder of the folder at index \<open>i\<close>, or of the ones below
  it on the stack once a folder has no more.  The result is the status, the id, the index reached,
  the stack and the backend.
\<close>

primrec list_up ::
  "'b fsck_backend \<Rightarrow> nat \<Rightarrow> fsck_dir option list \<Rightarrow> 'b \<Rightarrow>
    (int \<times> u64 \<times> nat \<times> fsck_dir option list \<times> 'b) option" where
  "list_up B 0 st b = do {
     dir \<leftarrow> get_dir st 0;
     (case do_list B dir b of (status, dir, sub, b) \<Rightarrow> Some (status, sub, 0, st[0 := Some dir], b))
   }"
| "list_up B (Suc i) st b = do {
     dir \<leftarrow> get_dir st (Suc i);
     (case do_list B dir b of (status, dir, sub, b) \<Rightarrow>
        if status < 0 \<or> sub \<noteq> -1 then Some (status, sub, Suc i, st[Suc i := Some dir], b)
        else list_up B i (st[Suc i := Some dir]) (free_dir B dir b))
   }"

text \<open>\<open>++dir\<close>, growing the stack when it is full, and the new folder on top.\<close>

definition push_dir :: "u64 \<Rightarrow> nat \<Rightarrow> fsck_dir option list \<Rightarrow> (nat \<times> fsck_dir option list) option" where
  "push_dir sub i st =
     (let st = (if Suc i \<ge> length st then st @ replicate (length st div 2) None else st)
      in if Suc i < length st
         then Some (Suc i, st[Suc i := Some \<lparr>sd_id = sub, sd_cookie = NULL, sd_off = -1\<rparr>])
         else None)"

text \<open>The outer loop; the folders may form a cycle, so it need not end.\<close>

partial_function (option) next_loop ::
  "'b fsck_backend \<Rightarrow> u32 \<Rightarrow> nat \<Rightarrow> fsck_dir option list \<Rightarrow> handler_data \<Rightarrow> 'b \<Rightarrow>
    (int \<times> nat \<times> fsck_dir option list \<times> handler_data \<times> 'b) option" where
  "next_loop B flags i st entry b = do {
     dir \<leftarrow> get_dir st i;
     let (result, dir, e, b) = (if sd_off dir < 0 then do_fsck B flags dir None (Some entry) b
                                else (FSCK_RESULT_END, dir, Some entry, b));
     let entry = the e;
     (if result \<noteq> FSCK_RESULT_END then Some (result, i, st[i := Some dir], entry, b)
      else do {
        let st = st[i := Some (if sd_off dir < 0 then dir\<lparr>sd_off := 0\<rparr> else dir)];
        (if \<not> has_flag flags FSCK_OP_RECURSIVE then Some (0, i, st, entry, b)
         else do {
           (status, sub, i, st, b) \<leftarrow> list_up B i st b;
           (if status < 0 \<or> sub = -1 then Some (status, i, st, entry, b)
            else do {
              (i, st) \<leftarrow> push_dir sub i st;
              next_loop B flags i st entry b
            })
         })
      })
   }"

definition fsck_next_offline ::
  "'b fsck_backend \<Rightarrow> handler_data \<Rightarrow> 'b offline_ctx \<Rightarrow> (int \<times> handler_data \<times> 'b offline_ctx) option" where
  "fsck_next_offline B entry ctx =
     (if has_flag (oc_flags ctx) FSCK_ALL_DONE then Some (0, entry, ctx)
      else do {
        (r, i, st, entry, b) \<leftarrow> next_loop B (oc_flags ctx) (dir_stack_top ctx) (dir_stack ctx) entry (oc_b ctx);
        Some (r, entry, ctx\<lparr>oc_b := b, dir_stack := st, dir_stack_top := i\<rparr>)
      })"

section \<open>Creation, sandbox, destruction\<close>

text \<open>The second half of \<open>fsck_create\<close>: the context, and its top folder unless a sandbox is to be entered.\<close>

definition new_ctx_offline ::
  "'b fsck_backend \<Rightarrow> u64 \<Rightarrow> bytes option \<Rightarrow> u32 \<Rightarrow> 'b \<Rightarrow> (int \<times> 'b option + 'b offline_ctx) option" where
  "new_ctx_offline B root_id path flags b =
     (let dir_stack_size = (if has_flag flags FSCK_OP_RECURSIVE then 16 else 1);
          ctx = \<lparr>oc_b = b,
                 dir_stack = Some \<lparr>sd_id = root_id, sd_cookie = NULL, sd_off = -1\<rparr> #
                             replicate (dir_stack_size - 1) None,
                 dir_stack_top = 0, oc_path = path, oc_flags = flags\<rparr>
      in if has_flag flags BACKEND_NO_SANDBOX then do {
           (status, ctx) \<leftarrow> init_top B ctx;
           Some (if status \<noteq> 0 then Inl (-1, Some (fb_destroy B (oc_b ctx))) else Inr ctx)
         }
         else Some (Inr ctx))"

text \<open>
  \<open>path\<close> is \<open><store>:<subsystem>[/<folder>]\<close>.  On success the context, otherwise the error with the
  state of the backend, if one was created, after its destruction.
\<close>

definition fsck_create_offline ::
  "'b fsck_backend \<Rightarrow> bytes \<Rightarrow> conf_opts \<Rightarrow> u32 \<Rightarrow> (int \<times> 'b option + 'b offline_ctx) option" where
  "fsck_create_offline B path opts flags =
     (case strchr path (ch CHR '':'') of
        None \<Rightarrow> Some (Inl (-1, None))
      | Some n \<Rightarrow>
          (let subsys = drop (Suc n) path;
               conf = \<lparr>conf_flags = (flags OR BACKEND_FSCK_ONLY) AND 0xffff,
                       store_path = take n path, conf_opts = opts\<rparr>;
               (status, resp, b) = fb_create B conf resp_init
           in if status \<noteq> 0 then Some (Inl (-1, None))
              else
                (let (subsys, path) = (case strchr subsys (ch CHR ''/'') of
                       Some m \<Rightarrow> (take m subsys, Some (drop (Suc m) subsys))
                     | None \<Rightarrow> (subsys, None));
                     other = subsys \<noteq> str ''bookmarks'';
                     tags = other \<and> subsys = str ''tags'';
                     keywords = other \<and> subsys = str ''keywords'';
                     fail = Some (Inl (-1, Some (fb_destroy B b)))
                 in if other \<and> \<not> tags \<and> \<not> keywords then fail
                    else if keywords \<and> \<not> has_flag (resp_flags resp) BACKEND_HAS_KEYWORD then fail
                    else if other \<and> path \<noteq> None \<and> path \<noteq> Some [] then fail
                    else
                      (let root_id = (if tags then resp_tags_root_id resp
                                      else if keywords then 0 else resp_bookmarks_root_id resp);
                           flags = (if tags then flags OR TYPE_TAG
                                    else if keywords then flags OR TYPE_KEYWORD else flags);
                           flags = (if other then flags AND NOT FSCK_OP_RECURSIVE else flags)
                       in new_ctx_offline B root_id path flags b))))"

definition fsck_sandbox_offline :: "'b fsck_backend \<Rightarrow> 'b offline_ctx \<Rightarrow> (int \<times> 'b offline_ctx) option" where
  "fsck_sandbox_offline B ctx =
     (let (status, resp, b) = fb_sandbox B (oc_b ctx) resp_init;
          ctx = ctx\<lparr>oc_b := b\<rparr>
      in if status \<noteq> 0 then Some (-1, ctx)
         else do {
           dir \<leftarrow> get_dir (dir_stack ctx) 0;
           let root_id = (if sd_id dir \<noteq> -1 then sd_id dir
                          else if BOOKMARK_IS_TYPE (oc_flags ctx) TYPE_TAG then resp_tags_root_id resp
                          else resp_bookmarks_root_id resp);
           init_top B (ctx\<lparr>dir_stack := (dir_stack ctx)[0 := Some (dir\<lparr>sd_id := root_id\<rparr>)]\<rparr>)
         })"

text \<open>The folders are freed from the bottom up, then the backend.\<close>

primrec free_dirs :: "'b fsck_backend \<Rightarrow> fsck_dir option list \<Rightarrow> nat list \<Rightarrow> 'b \<Rightarrow> 'b option" where
  "free_dirs B st [] b = Some b"
| "free_dirs B st (i # idxs) b = do { dir \<leftarrow> get_dir st i; free_dirs B st idxs (free_dir B dir b) }"

definition fsck_destroy_offline :: "'b fsck_backend \<Rightarrow> 'b offline_ctx \<Rightarrow> 'b option" where
  "fsck_destroy_offline B ctx = do {
     b \<leftarrow> free_dirs B (dir_stack ctx) [0..<Suc (dir_stack_top ctx)] (oc_b ctx);
     Some (fb_destroy B b)
   }"

end
