(* ===== verification/Fsck_Walk.thy ===== *)
theory Fsck_Walk
  imports Fsck_Offline
begin

text \<open>
  The walk of the offline checker: on a backend that serves a finite tree of folders, repeated calls
  of \<open>fsck_next\<close> report the bad names of all folders in depth-first order.  The stack of the
  checker is related to what is left to report.
\<close>

section \<open>Trees and backends\<close>

text \<open>A bad name: the result of the check, the id, the extra information and the name.\<close>

type_synonym problem = "int \<times> u64 \<times> u64 \<times> bytes"

datatype ftree = Folder (ft_id: u64) (ft_subs: "ftree list")

fun preorder :: "(u64 \<Rightarrow> problem list) \<Rightarrow> ftree \<Rightarrow> (u64 \<times> problem) list" where
  "preorder bad (Folder f ts) = map (Pair f) (bad f) @ concat (map (preorder bad) ts)"

fun nodes :: "ftree \<Rightarrow> nat" where
  "nodes (Folder f ts) = Suc (sum_list (map nodes ts))"

definition folder_ids :: "bookmark_entry list \<Rightarrow> u64 list" where
  "folder_ids es = map (\<lambda>e. bs_id (be_stat e)) (filter (\<lambda>e. value_len (be_stat e) < 0) es)"

text \<open>The folders are listed as the tree has them; no folder has the id that stands for none.\<close>

fun represents :: "(u64 \<Rightarrow> bookmark_entry list) \<Rightarrow> ftree \<Rightarrow> bool" where
  "represents ents (Folder f ts) \<longleftrightarrow>
     f \<noteq> -1 \<and> folder_ids (ents f) = map ft_id ts \<and> (\<forall>t \<in> set ts. represents ents t)"

text \<open>What a list function does with its callback: it stops when the callback returns non-zero.\<close>

fun list_run :: "list_cb \<Rightarrow> bookmark_entry list \<Rightarrow> bookmark_entry \<Rightarrow> bookmark_entry" where
  "list_run cb [] u = u"
| "list_run cb (e # es) u = (let (st, u) = cb e u in if st \<noteq> 0 then u else list_run cb es u)"

text \<open>
  What the documentation promises of \<open>bookmark_check\<close> and \<open>bookmark_list\<close>.  The bad names of folder
  \<open>f\<close> are \<open>bad f\<close>; \<open>rem b f c\<close> are those that the check with cookie \<open>c\<close> has yet to report: the next
  call reports the first of them.  The entries of \<open>f\<close> are \<open>ents f\<close>, and each carries the position
  behind it.  The calls succeed in every state that satisfies \<open>good\<close>.
\<close>

definition serves ::
  "'b fsck_backend \<Rightarrow> ('b \<Rightarrow> bool) \<Rightarrow> ('b \<Rightarrow> u64 \<Rightarrow> ptr \<Rightarrow> problem list) \<Rightarrow> (u64 \<Rightarrow> problem list) \<Rightarrow>
    (u64 \<Rightarrow> bookmark_entry list) \<Rightarrow> bool" where
  "serves B good rem bad ents \<longleftrightarrow>
     (\<forall>b f. good b \<longrightarrow> rem b f NULL = bad f) \<and>
     (\<forall>f. \<forall>(r, _) \<in> set (bad f). r > 0) \<and>
     (\<forall>b f fl cb u c. good b \<longrightarrow>
        (case fb_check B b f None fl (Some cb) u c of (st, u', c', b') \<Rightarrow>
           good b' \<and> st \<ge> 0 \<and>
           (case rem b f c of
              [] \<Rightarrow> u' = u
            | (r, i, x, n) # ps \<Rightarrow> u' = snd (cb r i x (Some n) u) \<and> rem b' f c' = ps))) \<and>
     (\<forall>f j. j < length (ents f) \<longrightarrow> be_off (ents f ! j) = Suc j) \<and>
     (\<forall>b f k fl cb u c. good b \<longrightarrow>
        (case fb_list B b f k fl cb u c of (st, u', c', b') \<Rightarrow>
           good b' \<and> st \<ge> 0 \<and> u' = list_run cb (drop k (ents f)) u)) \<and>
     (\<forall>b c. good b \<longrightarrow> good (fb_cookie_free B b c))"

lemma serves_start: "serves B good rem bad ents \<Longrightarrow> good b \<Longrightarrow> rem b f NULL = bad f"
  by (simp add: serves_def)

lemma serves_positive: "serves B good rem bad ents \<Longrightarrow> (r, p) \<in> set (bad f) \<Longrightarrow> r > 0"
  unfolding serves_def by fast

lemma serves_check:
  assumes "serves B good rem bad ents" "good b"
    "fb_check B b f None fl (Some cb) u c = (st, u', c', b')"
  shows "good b' \<and> st \<ge> 0 \<and>
    (case rem b f c of [] \<Rightarrow> u' = u
     | (r, i, x, n) # ps \<Rightarrow> u' = snd (cb r i x (Some n) u) \<and> rem b' f c' = ps)"
proof -
  have "\<forall>b f fl cb u c. good b \<longrightarrow>
        (case fb_check B b f None fl (Some cb) u c of (st, u', c', b') \<Rightarrow>
           good b' \<and> st \<ge> 0 \<and>
           (case rem b f c of
              [] \<Rightarrow> u' = u
            | (r, i, x, n) # ps \<Rightarrow> u' = snd (cb r i x (Some n) u) \<and> rem b' f c' = ps))"
    using assms(1) unfolding serves_def by (elim conjE)
  from this [THEN spec [of _ b], THEN spec [of _ f], THEN spec [of _ fl], THEN spec [of _ cb],
      THEN spec [of _ u], THEN spec [of _ c]]
  show ?thesis using assms(2,3) by simp
qed

lemma serves_list:
  assumes "serves B good rem bad ents" "good b" "fb_list B b f k fl cb u c = (st, u', c', b')"
  shows "good b'" "st \<ge> 0" "u' = list_run cb (drop k (ents f)) u"
proof -
  have "\<forall>b f k fl cb u c. good b \<longrightarrow>
        (case fb_list B b f k fl cb u c of (st, u', c', b') \<Rightarrow>
           good b' \<and> st \<ge> 0 \<and> u' = list_run cb (drop k (ents f)) u)"
    using assms(1) unfolding serves_def by (elim conjE)
  from this [THEN spec [of _ b], THEN spec [of _ f], THEN spec [of _ k], THEN spec [of _ fl],
      THEN spec [of _ cb], THEN spec [of _ u], THEN spec [of _ c]]
  show "good b'" "st \<ge> 0" "u' = list_run cb (drop k (ents f)) u" using assms(2,3) by simp_all
qed

lemma serves_off: "serves B good rem bad ents \<Longrightarrow> j < length (ents f) \<Longrightarrow> be_off (ents f ! j) = Suc j"
  unfolding serves_def by (elim conjE) blast

lemma serves_free: "serves B good rem bad ents \<Longrightarrow> good b \<Longrightarrow> good (free_dir B dir b)"
  by (simp add: serves_def free_dir_def)

section \<open>Finding the next subfolder\<close>

lemma do_list_cb_simps [simp]:
  "value_len (be_stat e) \<ge> 0 \<Longrightarrow> do_list_cb e u = (0, u)"
  "value_len (be_stat e) < 0 \<Longrightarrow> do_list_cb e u =
     (1, u\<lparr>be_off := be_off e, be_stat := (be_stat u)\<lparr>bs_id := bs_id (be_stat e)\<rparr>\<rparr>)"
  by (simp_all add: do_list_cb_def)

lemma list_run_none:
  "folder_ids es = [] \<Longrightarrow> list_run do_list_cb es u = u"
  by (induction es) (auto simp: folder_ids_def split: if_splits)

lemma list_run_next:
  assumes "folder_ids es = f # fs"
  shows "\<exists>m < length es. list_run do_list_cb es u =
      u\<lparr>be_off := be_off (es ! m), be_stat := (be_stat u)\<lparr>bs_id := f\<rparr>\<rparr> \<and>
    folder_ids (drop (Suc m) es) = fs"
  using assms
proof (induction es)
  case (Cons e es)
  show ?case
  proof (cases "value_len (be_stat e) < 0")
    case True
    with Cons.prems show ?thesis
      by (intro exI [of _ 0]) (auto simp: folder_ids_def)
  next
    case False
    with Cons obtain m where "m < length es" "list_run do_list_cb es u =
        u\<lparr>be_off := be_off (es ! m), be_stat := (be_stat u)\<lparr>bs_id := f\<rparr>\<rparr>"
      "folder_ids (drop (Suc m) es) = fs"
      by (auto simp: folder_ids_def)
    with False show ?thesis by (intro exI [of _ "Suc m"]) simp
  qed
qed (simp add: folder_ids_def)

text \<open>A folder whose check has ended, with the subtrees it has yet to visit.\<close>

definition visiting :: "(u64 \<Rightarrow> bookmark_entry list) \<Rightarrow> fsck_dir \<Rightarrow> ftree list \<Rightarrow> bool" where
  "visiting ents dir ts \<longleftrightarrow> sd_off dir \<ge> 0 \<and>
     folder_ids (drop (nat (sd_off dir)) (ents (sd_id dir))) = map ft_id ts \<and>
     (\<forall>t \<in> set ts. represents ents t)"

lemma represents_id: "represents ents t \<Longrightarrow> ft_id t \<noteq> -1"
  by (cases t) simp

lemma do_list_visiting:
  assumes B: "serves B good rem bad ents" and "good b" "visiting ents dir ts"
  obtains dir' sub b' where "do_list B dir b = (0, dir', sub, b')" "good b'"
    "sub = (case ts of [] \<Rightarrow> -1 | t # _ \<Rightarrow> ft_id t)" "ts \<noteq> [] \<longrightarrow> visiting ents dir' (tl ts)"
proof -
  define k where "k = nat (sd_off dir)"
  define u where "u = \<lparr>be_name = [], be_off = k, be_stat = \<lparr>bs_id = -1 :: u64, value_len = 0,
    bs_atime = timespec_zero, bs_mtime = timespec_zero\<rparr>\<rparr>"
  obtain st u' c' b' where run: "fb_list B b (sd_id dir) k 0 do_list_cb u (sd_cookie dir) = (st, u', c', b')"
    by (metis prod_cases4)
  note res = serves_list [OF B assms(2) run]
  have ids: "folder_ids (drop k (ents (sd_id dir))) = map ft_id ts"
    and rep: "\<forall>t \<in> set ts. represents ents t" and off: "sd_off dir \<ge> 0"
    using assms(3) by (simp_all add: visiting_def k_def)
  have eq: "do_list B dir b = (0, dir\<lparr>sd_cookie := c', sd_off := int (be_off u')\<rparr>, bs_id (be_stat u'), b')"
    using run res(2) by (simp add: do_list_def k_def [symmetric] u_def [symmetric] Let_def)
  show ?thesis
  proof (cases ts)
    case Nil
    then have "u' = u" using ids res(3) by (simp add: list_run_none)
    then show ?thesis using that [OF eq res(1)] Nil by (simp add: u_def)
  next
    case (Cons t ts')
    obtain m where m: "m < length (drop k (ents (sd_id dir)))"
      "u' = u\<lparr>be_off := be_off (drop k (ents (sd_id dir)) ! m), be_stat := (be_stat u)\<lparr>bs_id := ft_id t\<rparr>\<rparr>"
      "folder_ids (drop (Suc m) (drop k (ents (sd_id dir)))) = map ft_id ts'"
      using list_run_next [of "drop k (ents (sd_id dir))" "ft_id t" "map ft_id ts'" u] ids res(3) Cons
      by auto
    then have "be_off u' = Suc (k + m)"
      using serves_off [OF B, of "k + m" "sd_id dir"] by (simp add: less_diff_conv add.commute)
    moreover have "folder_ids (drop (Suc (k + m)) (ents (sd_id dir))) = map ft_id ts'"
      using m(3) by (simp add: add.commute)
    ultimately show ?thesis
      using that [OF eq res(1)] Cons rep m(2) by (simp add: visiting_def nat_add_distrib)
  qed
qed

section \<open>The stack\<close>

definition lower :: "(u64 \<Rightarrow> bookmark_entry list) \<Rightarrow> fsck_dir option list \<Rightarrow> ftree list list \<Rightarrow> bool" where
  "lower ents st tss \<longleftrightarrow>
     (\<forall>j < length tss. \<exists>dir. get_dir st j = Some dir \<and> visiting ents dir (tss ! j))"

lemma get_dir_update:
  "get_dir (st[i := x]) j = (if j = i \<and> i < length st then x else get_dir st j)"
  by (auto simp: get_dir_def)

lemma get_dir_less: "get_dir st i = Some dir \<Longrightarrow> i < length st"
  by (simp add: get_dir_def split: if_splits)

lemma lower_update: "lower ents st tss \<Longrightarrow> length tss \<le> i \<Longrightarrow> lower ents (st[i := x]) tss"
  by (auto simp: lower_def get_dir_update)

lemma lower_append: "lower ents st tss \<Longrightarrow> lower ents (st @ xs) tss"
  unfolding lower_def by (metis get_dir_def nth_append option.distinct(1) length_append trans_less_add1)

lemma lower_snoc:
  "lower ents st (tss @ [ts]) \<longleftrightarrow>
     lower ents st tss \<and> (\<exists>dir. get_dir st (length tss) = Some dir \<and> visiting ents dir ts)"
  by (auto simp: lower_def nth_append less_Suc_eq)

text \<open>What is left of the trees on the stack, the top folder (the last of the list) first.\<close>

definition pending :: "(u64 \<Rightarrow> problem list) \<Rightarrow> ftree list list \<Rightarrow> (u64 \<times> problem) list" where
  "pending bad tss = concat (map (preorder bad) (concat (rev tss)))"

definition pending_nodes :: "ftree list list \<Rightarrow> nat" where
  "pending_nodes tss = sum_list (map nodes (concat tss))"

lemma pending_snoc: "pending bad (tss @ [ts]) = concat (map (preorder bad) ts) @ pending bad tss"
  by (simp add: pending_def)

lemma pending_nodes_snoc: "pending_nodes (tss @ [ts]) = pending_nodes tss + sum_list (map nodes ts)"
  by (simp add: pending_nodes_def)

text \<open>\<open>list_up\<close> finds the next tree on the stack, or empties the stack.\<close>

lemma list_up_ok:
  assumes B: "serves B good rem bad ents"
  shows "good b \<Longrightarrow> lower ents st (tss @ [ts]) \<Longrightarrow>
    (\<exists>b' st'. good b' \<and> length st' = length st \<and>
      ((pending_nodes (tss @ [ts]) = 0 \<and> pending bad (tss @ [ts]) = [] \<and>
          list_up B (length tss) st b = Some (0, -1, 0, st', b')) \<or>
       (\<exists>tss' t ts'. list_up B (length tss) st b = Some (0, ft_id t, length tss', st', b') \<and>
          represents ents t \<and> lower ents st' (tss' @ [ts']) \<and>
          pending bad (tss @ [ts]) = preorder bad t @ pending bad (tss' @ [ts']) \<and>
          pending_nodes (tss @ [ts]) = nodes t + pending_nodes (tss' @ [ts']))))"
proof (induction tss arbitrary: ts st b rule: rev_induct)
  case Nil
  then obtain dir where dir: "get_dir st 0 = Some dir" "visiting ents dir ts"
    by (auto simp: lower_def)
  obtain dir' sub b' where l: "do_list B dir b = (0, dir', sub, b')" "good b'"
    "sub = (case ts of [] \<Rightarrow> -1 | t # _ \<Rightarrow> ft_id t)" "ts \<noteq> [] \<longrightarrow> visiting ents dir' (tl ts)"
    using do_list_visiting [OF B Nil(1) dir(2)] by blast
  show ?case
  proof (cases ts)
    case Nil
    with dir l show ?thesis
      by (intro exI [of _ b'] exI [of _ "st[0 := Some dir']"]) (auto simp: pending_def pending_nodes_def)
  next
    case (Cons t ts')
    have "lower ents (st[0 := Some dir']) ([] @ [ts'])"
      using l(4) dir(1) Cons get_dir_less [OF dir(1)] by (simp add: lower_def get_dir_update)
    moreover have "represents ents t" using dir(2) Cons by (simp add: visiting_def)
    ultimately show ?thesis
      using dir l Cons
      by (intro exI [of _ b'] exI [of _ "st[0 := Some dir']"] conjI disjI2 exI [of _ "[]"] exI [of _ t]
          exI [of _ ts']) (auto simp: pending_def pending_nodes_def)
  qed
next
  case (snoc us tss)
  from snoc.prems(2) [unfolded lower_snoc [of _ _ "tss @ [us]"]]
  obtain dir where dir: "get_dir st (Suc (length tss)) = Some dir" "visiting ents dir ts"
    by auto
  obtain dir' sub b' where l: "do_list B dir b = (0, dir', sub, b')" "good b'"
    "sub = (case ts of [] \<Rightarrow> -1 | t # _ \<Rightarrow> ft_id t)" "ts \<noteq> [] \<longrightarrow> visiting ents dir' (tl ts)"
    using do_list_visiting [OF B snoc.prems(1) dir(2)] by blast
  define st' where "st' = st[Suc (length tss) := Some dir']"
  have low: "lower ents st' (tss @ [us])"
    using snoc.prems(2) unfolding st'_def lower_snoc [of _ _ "tss @ [us]"]
    by (intro lower_update) simp_all
  show ?case
  proof (cases ts)
    case Nil
    have "list_up B (length (tss @ [us])) st b = list_up B (length tss) st' (free_dir B dir' b')"
      using dir l Nil by (simp add: st'_def)
    moreover have "pending bad ((tss @ [us]) @ [ts]) = pending bad (tss @ [us])"
      "pending_nodes ((tss @ [us]) @ [ts]) = pending_nodes (tss @ [us])"
      using Nil by (simp_all only: pending_snoc pending_nodes_snoc) simp_all
    moreover have "length st' = length st" by (simp add: st'_def)
    ultimately show ?thesis
      using snoc.IH [OF serves_free [OF B l(2)] low, of dir'] by simp
  next
    case (Cons t ts')
    have "represents ents t" using dir(2) Cons by (simp add: visiting_def)
    moreover have "lower ents st' ((tss @ [us]) @ [ts'])"
      using l(4) dir(1) Cons low
      by (subst lower_snoc) (auto simp: st'_def get_dir_update get_dir_less)
    moreover have "list_up B (length (tss @ [us])) st b = Some (0, ft_id t, length (tss @ [us]), st', b')"
      using dir l Cons calculation(1) by (simp add: st'_def represents_id)
    moreover have "pending bad ((tss @ [us]) @ [ts]) = preorder bad t @ pending bad ((tss @ [us]) @ [ts'])"
      "pending_nodes ((tss @ [us]) @ [ts]) = nodes t + pending_nodes ((tss @ [us]) @ [ts'])"
      using Cons by (simp_all only: pending_snoc pending_nodes_snoc) simp_all
    moreover have "length st' = length st" by (simp add: st'_def)
    ultimately show ?thesis using l(2) by blast
  qed
qed

section \<open>The walk\<close>

text \<open>
  The state between two calls: the folder on top is being checked and \<open>rs\<close> is what the rest of the
  walk reports, in \<open>n\<close> folders not yet entered.
\<close>

definition on_walk ::
  "'b fsck_backend \<Rightarrow> ('b \<Rightarrow> bool) \<Rightarrow> ('b \<Rightarrow> u64 \<Rightarrow> ptr \<Rightarrow> problem list) \<Rightarrow> (u64 \<Rightarrow> problem list) \<Rightarrow>
    (u64 \<Rightarrow> bookmark_entry list) \<Rightarrow> 'b \<Rightarrow> nat \<Rightarrow> fsck_dir option list \<Rightarrow> (u64 \<times> problem) list \<Rightarrow> nat \<Rightarrow> bool"
where
  "on_walk B good rem bad ents b i st rs n \<longleftrightarrow> good b \<and> length st \<ge> 2 \<and>
     (\<exists>dir ts tss. get_dir st i = Some dir \<and> sd_off dir = -1 \<and> length tss = i \<and>
        visiting ents (dir\<lparr>sd_off := 0\<rparr>) ts \<and> lower ents st tss \<and>
        (\<forall>(r, _) \<in> set (rem b (sd_id dir) (sd_cookie dir)). r > 0) \<and>
        rs = map (Pair (sd_id dir)) (rem b (sd_id dir) (sd_cookie dir)) @ pending bad (tss @ [ts]) \<and>
        n = pending_nodes (tss @ [ts]))"

lemma on_walkI:
  assumes "good b" "length st \<ge> 2" "get_dir st (length tss) = Some dir" "sd_off dir = -1"
    "visiting ents (dir\<lparr>sd_off := 0\<rparr>) ts" "lower ents st tss"
    "\<forall>(r, _) \<in> set (rem b (sd_id dir) (sd_cookie dir)). r > 0"
    "rs = map (Pair (sd_id dir)) (rem b (sd_id dir) (sd_cookie dir)) @ pending bad (tss @ [ts])"
    "n = pending_nodes (tss @ [ts])"
  shows "on_walk B good rem bad ents b (length tss) st rs n"
  using assms unfolding on_walk_def by blast

lemma push_dir_ok:
  assumes "length st \<ge> 2" "i < length st"
  obtains st' where "push_dir sub i st = Some (Suc i, st')" "length st' \<ge> 2"
    "get_dir st' (Suc i) = Some \<lparr>sd_id = sub, sd_cookie = NULL, sd_off = -1\<rparr>"
    "\<And>tss ents. length tss = Suc i \<Longrightarrow> lower ents st tss \<Longrightarrow> lower ents st' tss"
proof -
  define st1 where "st1 = (if Suc i \<ge> length st then st @ replicate (length st div 2) None else st)"
  have "length st div 2 > 0" using assms(1) by simp
  then have len: "Suc i < length st1" using assms(2) by (auto simp: st1_def)
  define st' where "st' = st1[Suc i := Some \<lparr>sd_id = sub, sd_cookie = NULL, sd_off = -1\<rparr>]"
  have "push_dir sub i st = Some (Suc i, st')"
    using len by (simp add: push_dir_def st1_def [symmetric] st'_def)
  moreover have "length st' \<ge> 2" using assms(1) by (simp add: st'_def st1_def)
  moreover have "get_dir st' (Suc i) = Some \<lparr>sd_id = sub, sd_cookie = NULL, sd_off = -1\<rparr>"
    using len by (simp add: st'_def get_dir_update)
  moreover have "lower ents st' tss" if "length tss = Suc i" "lower ents st tss" for tss ents
    unfolding st'_def using that
    by (intro lower_update) (auto simp: st1_def lower_append)
  ultimately show ?thesis using that by blast
qed

lemma do_fsck_check:
  assumes B: "serves B good rem bad ents" and "good b" and pos: "\<forall>(r, _) \<in> set (rem b (sd_id dir) (sd_cookie dir)). r > 0"
  shows "\<exists>c' b' entry'. good b' \<and>
    (case rem b (sd_id dir) (sd_cookie dir) of
       [] \<Rightarrow> do_fsck B flags dir None (Some entry) b = (0, dir\<lparr>sd_cookie := c'\<rparr>, Some entry', b')
     | (r, i, x, nm) # ps \<Rightarrow>
         do_fsck B flags dir None (Some entry) b = (r, dir\<lparr>sd_cookie := c'\<rparr>,
           Some \<lparr>hd_head = Parent (sd_id dir),
                 hd_data = \<lparr>fd_id = i, fd_extra = x, fd_name = strncpy nm NAME_BUF\<rparr>\<rparr>, b') \<and>
         rem b' (sd_id dir) c' = ps)"
proof -
  obtain st u c' b' where run: "fb_check B b (sd_id dir) None (type_flags flags) (Some do_fsck_cb)
      (hd_data entry, FSCK_RESULT_END) (sd_cookie dir) = (st, u, c', b')"
    by (metis prod_cases4)
  note res = serves_check [OF B assms(2) run]
  define entry' where "entry' = entry\<lparr>hd_head := Parent (sd_id dir), hd_data := fst u\<rparr>"
  have call: "do_fsck B flags dir None (Some entry) b = (snd u, dir\<lparr>sd_cookie := c'\<rparr>, Some entry', b')"
    using run res by (cases u) (simp add: do_fsck_def entry'_def Let_def)
  show ?thesis
    using call res
    by (intro exI [of _ c'] exI [of _ b'] exI [of _ entry'])
      (auto simp: FSCK_RESULT_END_def do_fsck_cb_def entry'_def split: list.splits)
qed

text \<open>What \<open>fsck_next\<close> hands over for a bad name.\<close>

definition entry_of :: "u64 \<times> problem \<Rightarrow> handler_data" where
  "entry_of = (\<lambda>(f, r, i, x, nm). \<lparr>hd_head = Parent f,
     hd_data = \<lparr>fd_id = i, fd_extra = x, fd_name = strncpy nm NAME_BUF\<rparr>\<rparr>)"

lemma next_loop_ok:
  assumes B: "serves B good rem bad ents" and rec: "has_flag flags FSCK_OP_RECURSIVE"
  shows "on_walk B good rem bad ents b i st rs n \<Longrightarrow>
    (case rs of
       [] \<Rightarrow> \<exists>i' st' entry' b'. next_loop B flags i st entry b = Some (0, i', st', entry', b')
     | p # rs' \<Rightarrow> \<exists>i' st' b' n'.
         next_loop B flags i st entry b = Some (fst (snd p), i', st', entry_of p, b') \<and>
         fst (snd p) > 0 \<and> on_walk B good rem bad ents b' i' st' rs' n')"
proof (induction n arbitrary: b i st rs entry rule: less_induct)
  case (less n)
  then obtain dir ts tss where st: "good b" "length st \<ge> 2" "get_dir st i = Some dir"
      "sd_off dir = -1" "length tss = i" "visiting ents (dir\<lparr>sd_off := 0\<rparr>) ts" "lower ents st tss"
    and pos: "\<forall>(r, _) \<in> set (rem b (sd_id dir) (sd_cookie dir)). r > 0"
    and rs: "rs = map (Pair (sd_id dir)) (rem b (sd_id dir) (sd_cookie dir)) @ pending bad (tss @ [ts])"
    and n: "n = pending_nodes (tss @ [ts])"
    unfolding on_walk_def by auto
  have i: "i < length st" by (rule get_dir_less [OF st(3)])
  obtain c' b' entry' where chk: "good b'"
    "case rem b (sd_id dir) (sd_cookie dir) of
       [] \<Rightarrow> do_fsck B flags dir None (Some entry) b = (0, dir\<lparr>sd_cookie := c'\<rparr>, Some entry', b')
     | (r, i, x, nm) # ps \<Rightarrow>
         do_fsck B flags dir None (Some entry) b = (r, dir\<lparr>sd_cookie := c'\<rparr>,
           Some \<lparr>hd_head = Parent (sd_id dir),
                 hd_data = \<lparr>fd_id = i, fd_extra = x, fd_name = strncpy nm NAME_BUF\<rparr>\<rparr>, b') \<and>
         rem b' (sd_id dir) c' = ps"
    using do_fsck_check [where entry = entry and flags = flags and dir = dir, OF B st(1) pos] by blast
  show ?case
  proof (cases "rem b (sd_id dir) (sd_cookie dir)")
    case (Cons p ps)
    obtain r j x nm where p: "p = (r, j, x, nm)" by (cases p)
    have r: "r > 0" using pos Cons p by simp
    have c: "do_fsck B flags dir None (Some entry) b = (r, dir\<lparr>sd_cookie := c'\<rparr>,
           Some \<lparr>hd_head = Parent (sd_id dir),
                 hd_data = \<lparr>fd_id = j, fd_extra = x, fd_name = strncpy nm NAME_BUF\<rparr>\<rparr>, b')"
      "rem b' (sd_id dir) c' = ps"
      using chk(2) Cons p by simp_all
    define st' where "st' = st[i := Some (dir\<lparr>sd_cookie := c'\<rparr>)]"
    have "next_loop B flags i st entry b = Some (r, i, st', entry_of (sd_id dir, p), b')"
      using st c r by (subst next_loop.simps) (simp add: FSCK_RESULT_END_def st'_def entry_of_def p)
    moreover have "on_walk B good rem bad ents b' (length tss) st'
        (map (Pair (sd_id dir)) ps @ pending bad (tss @ [ts])) (pending_nodes (tss @ [ts]))"
      using st chk(1) c i pos Cons
      by (intro on_walkI [of _ _ _ _ "dir\<lparr>sd_cookie := c'\<rparr>"])
        (simp_all add: st'_def get_dir_update lower_update visiting_def)
    ultimately show ?thesis
      using rs Cons r p st(5) by auto
  next
    case Nil
    define st' where "st' = st[i := Some (dir\<lparr>sd_cookie := c', sd_off := 0\<rparr>)]"
    have low: "lower ents st' (tss @ [ts])"
      using st i by (subst lower_snoc) (simp add: st'_def lower_update get_dir_update visiting_def)
    have start: "next_loop B flags i st entry b = do {
        (status, sub, i, st, b) \<leftarrow> list_up B i st' b';
        (if status < 0 \<or> sub = -1 then Some (status, i, st, entry', b)
         else do {
           (i, st) \<leftarrow> push_dir sub i st;
           next_loop B flags i st entry' b
         })
      }"
      using st chk(2) Nil rec by (subst next_loop.simps) (simp add: st'_def FSCK_RESULT_END_def)
    have rs': "rs = pending bad (tss @ [ts])" using rs Nil by simp
    obtain b'' st'' where up: "good b''" "length st'' = length st'"
      "(pending_nodes (tss @ [ts]) = 0 \<and> pending bad (tss @ [ts]) = [] \<and>
          list_up B (length tss) st' b' = Some (0, -1, 0, st'', b'')) \<or>
       (\<exists>tss' t ts'. list_up B (length tss) st' b' = Some (0, ft_id t, length tss', st'', b'') \<and>
          represents ents t \<and> lower ents st'' (tss' @ [ts']) \<and>
          pending bad (tss @ [ts]) = preorder bad t @ pending bad (tss' @ [ts']) \<and>
          pending_nodes (tss @ [ts]) = nodes t + pending_nodes (tss' @ [ts']))"
      using list_up_ok [OF B chk(1) low] by blast
    from up(3) show ?thesis
    proof (elim disjE exE conjE)
      assume "pending bad (tss @ [ts]) = []"
        and "list_up B (length tss) st' b' = Some (0, -1, 0, st'', b'')"
      then show ?thesis using rs' start st(5) by simp
    next
      fix tss' t ts'
      assume l: "list_up B (length tss) st' b' = Some (0, ft_id t, length tss', st'', b'')"
        and t: "represents ents t" and low': "lower ents st'' (tss' @ [ts'])"
        and pend: "pending bad (tss @ [ts]) = preorder bad t @ pending bad (tss' @ [ts'])"
        and cnt: "pending_nodes (tss @ [ts]) = nodes t + pending_nodes (tss' @ [ts'])"
      obtain f us where tf: "t = Folder f us" by (cases t)
      have len: "length st'' \<ge> 2" using up(2) st(2) by (simp add: st'_def)
      have "length tss' < length st''"
        using low' by (auto simp: lower_snoc dest: get_dir_less)
      then obtain st3 where push: "push_dir (ft_id t) (length tss') st'' = Some (Suc (length tss'), st3)"
        "length st3 \<ge> 2"
        "get_dir st3 (Suc (length tss')) = Some \<lparr>sd_id = ft_id t, sd_cookie = NULL, sd_off = -1\<rparr>"
        "lower ents st3 (tss' @ [ts'])"
        using push_dir_ok [OF len, of "length tss'" "ft_id t"] low' by (metis length_append_singleton)
      have "on_walk B good rem bad ents b'' (length (tss' @ [ts'])) st3
          (map (Pair f) (bad f) @ pending bad ((tss' @ [ts']) @ [us])) (pending_nodes ((tss' @ [ts']) @ [us]))"
        using push up(1) t tf serves_start [OF B up(1)]
        by (intro on_walkI [of _ _ _ _ "\<lparr>sd_id = f, sd_cookie = NULL, sd_off = -1\<rparr>"])
          (auto simp: visiting_def dest: serves_positive [OF B])
      moreover have "map (Pair f) (bad f) @ pending bad ((tss' @ [ts']) @ [us]) = rs"
        using rs' pend tf by (simp only: pending_snoc) simp
      moreover have "pending_nodes ((tss' @ [ts']) @ [us]) < n"
        using n cnt tf by (simp only: pending_nodes_snoc) simp
      ultimately have IH: "case rs of
          [] \<Rightarrow> \<exists>i' st' e' b'. next_loop B flags (Suc (length tss')) st3 entry' b'' = Some (0, i', st', e', b')
        | p # rs' \<Rightarrow> \<exists>i' st' b' n'.
            next_loop B flags (Suc (length tss')) st3 entry' b'' = Some (fst (snd p), i', st', entry_of p, b') \<and>
            fst (snd p) > 0 \<and> on_walk B good rem bad ents b' i' st' rs' n'"
        using less.IH [of "pending_nodes ((tss' @ [ts']) @ [us])" b'' "Suc (length tss')" st3 rs entry']
        by simp
      have "next_loop B flags i st entry b = next_loop B flags (Suc (length tss')) st3 entry' b''"
        using start l st(5) push(1) represents_id [OF t] by simp
      then show ?thesis using IH by (simp only:)
    qed
  qed
qed

text \<open>What repeated calls of \<open>fsck_next\<close> report, until one says that the check is over.\<close>

primrec reports ::
  "'b fsck_backend \<Rightarrow> nat \<Rightarrow> handler_data \<Rightarrow> 'b offline_ctx \<Rightarrow> (int \<times> handler_data) list option" where
  "reports B 0 entry ctx = None"
| "reports B (Suc n) entry ctx = do {
     (r, entry, ctx) \<leftarrow> fsck_next_offline B entry ctx;
     (if r = 0 then Some [] else if r < 0 then None
      else do { rs \<leftarrow> reports B n entry ctx; Some ((r, entry) # rs) })
   }"

definition walking where
  "walking B good rem bad ents ctx rs \<longleftrightarrow>
     \<not> has_flag (oc_flags ctx) FSCK_ALL_DONE \<and> has_flag (oc_flags ctx) FSCK_OP_RECURSIVE \<and>
     (\<exists>n. on_walk B good rem bad ents (oc_b ctx) (dir_stack_top ctx) (dir_stack ctx) rs n)"

lemma fsck_next_walking:
  assumes B: "serves B good rem bad ents" and ctx: "walking B good rem bad ents ctx rs"
  shows "case rs of
      [] \<Rightarrow> \<exists>entry' ctx'. fsck_next_offline B entry ctx = Some (0, entry', ctx')
    | p # rs' \<Rightarrow> \<exists>ctx'. fsck_next_offline B entry ctx = Some (fst (snd p), entry_of p, ctx') \<and>
        fst (snd p) > 0 \<and> walking B good rem bad ents ctx' rs'"
proof -
  obtain n where n: "on_walk B good rem bad ents (oc_b ctx) (dir_stack_top ctx) (dir_stack ctx) rs n"
    and flags: "\<not> has_flag (oc_flags ctx) FSCK_ALL_DONE" "has_flag (oc_flags ctx) FSCK_OP_RECURSIVE"
    using ctx unfolding walking_def by auto
  note step = next_loop_ok [OF B flags(2) n, of entry]
  show ?thesis
  proof (cases rs)
    case Nil
    then show ?thesis using step flags by (auto simp: fsck_next_offline_def)
  next
    case (Cons p rs')
    then obtain i' st' b' n' where
      "next_loop B (oc_flags ctx) (dir_stack_top ctx) (dir_stack ctx) entry (oc_b ctx) =
         Some (fst (snd p), i', st', entry_of p, b')"
      "fst (snd p) > 0" "on_walk B good rem bad ents b' i' st' rs' n'"
      using step by auto
    then show ?thesis
      using Cons flags by (auto simp: fsck_next_offline_def walking_def)
  qed
qed

lemma reports_walking:
  assumes B: "serves B good rem bad ents"
  shows "walking B good rem bad ents ctx rs \<Longrightarrow>
    reports B (Suc (length rs)) entry ctx = Some (map (\<lambda>p. (fst (snd p), entry_of p)) rs)"
proof (induction rs arbitrary: ctx entry)
  case Nil
  then show ?case using fsck_next_walking [OF B Nil, of entry] by auto
next
  case (Cons p rs)
  obtain ctx' where "fsck_next_offline B entry ctx = Some (fst (snd p), entry_of p, ctx')"
    "fst (snd p) > 0" "walking B good rem bad ents ctx' rs"
    using fsck_next_walking [OF B Cons.prems, of entry] by auto
  then show ?case
    using Cons.IH [of ctx' "entry_of p"] reports.simps(2) [of B "Suc (length rs)" entry ctx]
    by (simp del: reports.simps)
qed

text \<open>The context that \<open>fsck_create\<close> makes: one folder on the stack, not yet checked.\<close>

lemma init_top_stack:
  assumes "init_top B ctx = Some (0, ctx')" "dir_stack ctx = Some dir # rest"
  shows "\<exists>i. dir_stack ctx' = Some (dir\<lparr>sd_id := i\<rparr>) # rest \<and> oc_flags ctx' = oc_flags ctx \<and>
    dir_stack_top ctx' = dir_stack_top ctx"
proof (cases "sd_id dir = -1")
  case True
  with assms show ?thesis by (simp add: init_top_def get_dir_def)
next
  case False
  obtain r b where w: "walk_path B (oc_flags ctx) (sd_id dir) (oc_path ctx) (oc_b ctx) = (r, b)"
    by (cases "walk_path B (oc_flags ctx) (sd_id dir) (oc_path ctx) (oc_b ctx)")
  have fail: "e = -1" if "walk_path B fl i pt b0 = (Inl e, b1)" for fl i pt b0 e b1
    using that by (induction B fl i pt b0 rule: walk_path.induct)
      (auto simp: Let_def split: if_splits prod.splits)
  show ?thesis
  proof (cases r)
    case (Inl e)
    then have "e = -1" using fail [OF w [unfolded Inl]] by simp
    with w assms False Inl show ?thesis by (simp add: init_top_def get_dir_def)
  next
    case (Inr i)
    with w assms False show ?thesis by (auto simp: init_top_def get_dir_def)
  qed
qed

lemma fsck_create_stack:
  assumes "fsck_create_offline B path opts flags = Some (Inr ctx)"
    "has_flag (oc_flags ctx) FSCK_OP_RECURSIVE"
  shows "\<exists>i. dir_stack ctx = Some \<lparr>sd_id = i, sd_cookie = NULL, sd_off = -1\<rparr> # replicate 15 None \<and>
    dir_stack_top ctx = 0"
proof -
  have base: "\<exists>i. dir_stack ctx = Some \<lparr>sd_id = i, sd_cookie = NULL, sd_off = -1\<rparr> # replicate 15 None \<and>
      dir_stack_top ctx = 0"
    if "new_ctx_offline B root pt fl b = Some (Inr ctx)" for fl b root pt
  proof (cases "has_flag fl BACKEND_NO_SANDBOX")
    case True
    define c where "c = \<lparr>oc_b = b, dir_stack = Some \<lparr>sd_id = root, sd_cookie = NULL, sd_off = -1\<rparr> #
        replicate ((if has_flag fl FSCK_OP_RECURSIVE then 16 else 1) - 1) None,
      dir_stack_top = 0, oc_path = pt, oc_flags = fl\<rparr>"
    have "init_top B c = Some (0, ctx)"
      using that True unfolding new_ctx_offline_def Let_def c_def by (auto split: bind_splits if_splits)
    with assms(2) show ?thesis
      using init_top_stack [of B c ctx] by (auto simp: c_def numeral_eq_Suc)
  next
    case False
    with that assms(2) show ?thesis by (auto simp: new_ctx_offline_def numeral_eq_Suc)
  qed
  obtain fl b root pt where "new_ctx_offline B root pt fl b = Some (Inr ctx)"
    using assms(1) unfolding fsck_create_offline_def Let_def
    by (simp split: option.splits prod.splits if_splits)
  then show ?thesis by (rule base)
qed

lemma walking_start:
  assumes B: "serves B good rem bad ents" and ctx: "fsck_create_offline B path opts flags = Some (Inr ctx)"
    and "has_flag (oc_flags ctx) FSCK_OP_RECURSIVE" "\<not> has_flag (oc_flags ctx) FSCK_ALL_DONE"
    and good: "good (oc_b ctx)" and t: "represents ents t"
    and root: "get_dir (dir_stack ctx) 0 = Some dir" "sd_id dir = ft_id t"
  shows "walking B good rem bad ents ctx (preorder bad t)"
proof -
  obtain f ts where tf: "t = Folder f ts" by (cases t)
  from fsck_create_stack [OF ctx assms(3)] root have
    st: "dir_stack ctx = Some \<lparr>sd_id = f, sd_cookie = NULL, sd_off = -1\<rparr> # replicate 15 None"
    and top: "dir_stack_top ctx = 0"
    by (auto simp: get_dir_def tf)
  have "on_walk B good rem bad ents (oc_b ctx) (length ([] :: ftree list list)) (dir_stack ctx)
      (preorder bad t) (pending_nodes ([] @ [ts]))"
    using good t serves_start [OF B good] serves_positive [OF B]
    by (intro on_walkI [where dir = "\<lparr>sd_id = f, sd_cookie = NULL, sd_off = -1\<rparr>"])
      (auto simp: st get_dir_def visiting_def tf lower_def pending_def)
  then show ?thesis using assms(3,4) top by (auto simp: walking_def)
qed


section \<open>A backend for the witnesses\<close>

text \<open>
  The state is the position of the check of the folder on top; a null cookie starts a new one.
\<close>

definition tree_backend ::
  "u64 \<Rightarrow> (u64 \<Rightarrow> problem list) \<Rightarrow> (u64 \<Rightarrow> bookmark_entry list) \<Rightarrow> nat fsck_backend" where
  "tree_backend root bad ents = \<lparr>
     fb_create = (\<lambda>conf resp. (0, resp\<lparr>resp_bookmarks_root_id := root, resp_flags := BACKEND_EXCLUSIVE\<rparr>, 0)),
     fb_destroy = (\<lambda>b. b),
     fb_sandbox = (\<lambda>b resp. (0, resp, b)),
     fb_check = (\<lambda>b f d fl cb u c.
       (let k = (if c = NULL then 0 else b) in
        case cb of
          None \<Rightarrow> (0, u, 1, 0)
        | Some cb \<Rightarrow>
            (if k < length (bad f) then
               (case bad f ! k of (r, i, x, nm) \<Rightarrow> (1, snd (cb r i x (Some nm) u), 1, Suc k))
             else (0, u, 1, k)))),
     fb_list = (\<lambda>b f k fl cb u c. (1, list_run cb (drop k (ents f)) u, 1, b)),
     fb_lookup = (\<lambda>b f nm fl. (- ENOENT, \<lparr>bs_id = 0, value_len = 0, bs_atime = timespec_zero,
                                          bs_mtime = timespec_zero\<rparr>, b)),
     fb_sync = (\<lambda>b. (0, b)),
     fb_cookie_free = (\<lambda>b c. b)\<rparr>"

lemma tree_backend_serves:
  assumes "\<forall>f. \<forall>(r, _) \<in> set (bad f). r > 0"
    "\<forall>f j. j < length (ents f) \<longrightarrow> be_off (ents f ! j) = Suc j"
  shows "serves (tree_backend root bad ents) (\<lambda>_. True)
    (\<lambda>b f c. drop (if c = NULL then 0 else b) (bad f)) bad ents"
  using assms unfolding serves_def
  by (auto simp: tree_backend_def Let_def NULL_def split: prod.splits list.splits
      dest: drop_eq_Nil [THEN iffD1] simp: Cons_nth_drop_Suc [symmetric])

definition demo_bad :: "u64 \<Rightarrow> problem list" where
  "demo_bad f = (if f = 1 then [(NAME_BADCHAR, 10, 1, str ''a/b'')]
                 else if f = 3 then [(NAME_DUPLICATE, 11, 0, str ''x''), (NAME_DOTDOT, 12, 1, str ''.'')]
                 else [])"

definition demo_entry :: "u64 \<Rightarrow> nat \<Rightarrow> int \<Rightarrow> bookmark_entry" where
  "demo_entry i off len = \<lparr>be_name = [], be_off = off,
     be_stat = \<lparr>bs_id = i, value_len = len, bs_atime = timespec_zero, bs_mtime = timespec_zero\<rparr>\<rparr>"

definition demo_ents :: "u64 \<Rightarrow> bookmark_entry list" where
  "demo_ents f = (if f = 1 then [demo_entry 10 1 5, demo_entry 2 2 (-1), demo_entry 4 3 (-1)]
                  else if f = 2 then [demo_entry 3 1 (-1)] else [])"

definition demo_tree :: ftree where
  "demo_tree = Folder 1 [Folder 2 [Folder 3 []], Folder 4 []]"

lemma demo_serves:
  "serves (tree_backend 1 demo_bad demo_ents) (\<lambda>_. True)
    (\<lambda>b f c. drop (if c = NULL then 0 else b) (demo_bad f)) demo_bad demo_ents"
proof (rule tree_backend_serves)
  show "\<forall>f. \<forall>(r, _) \<in> set (demo_bad f). r > 0" by (auto simp: demo_bad_def fsck_result_defs)
  show "\<forall>f j. j < length (demo_ents f) \<longrightarrow> be_off (demo_ents f ! j) = Suc j"
    by (auto simp: demo_ents_def demo_entry_def less_Suc_eq)
qed

lemma demo_represents: "represents demo_ents demo_tree"
  by (simp add: demo_tree_def demo_ents_def demo_entry_def folder_ids_def)

definition demo_path :: bytes where "demo_path = str ''b:bookmarks''"

lemma strchr_demo: "strchr demo_path 58 = Some 1" "strchr (str ''bookmarks'') 47 = None"
  by (simp_all add: demo_path_def str_def strchr_def)

lemma demo_create:
  obtains ctx where
    "fsck_create_offline (tree_backend 1 demo_bad demo_ents) demo_path [] FSCK_OP_RECURSIVE = Some (Inr ctx)"
    "oc_flags ctx = FSCK_OP_RECURSIVE"
    "get_dir (dir_stack ctx) 0 = Some \<lparr>sd_id = 1, sd_cookie = NULL, sd_off = -1\<rparr>"
proof -
  have "drop 2 demo_path = str ''bookmarks''" by (simp add: demo_path_def str_def)
  then have subsys: "drop (Suc 1) demo_path = str ''bookmarks''" by (simp add: numeral_2_eq_2)
  define ctx :: "nat offline_ctx" where "ctx = \<lparr>oc_b = 0,
    dir_stack = Some \<lparr>sd_id = 1, sd_cookie = NULL, sd_off = -1\<rparr> # replicate 15 None,
    dir_stack_top = 0, oc_path = None, oc_flags = FSCK_OP_RECURSIVE\<rparr>"
  have "new_ctx_offline (tree_backend 1 demo_bad demo_ents) 1 None FSCK_OP_RECURSIVE 0 = Some (Inr ctx)"
    by (simp add: new_ctx_offline_def FSCK_OP_RECURSIVE_def BACKEND_NO_SANDBOX_def has_flag_def ctx_def)
  then have "fsck_create_offline (tree_backend 1 demo_bad demo_ents) demo_path [] FSCK_OP_RECURSIVE =
      Some (Inr ctx)"
    using strchr_demo subsys
    by (simp add: fsck_create_offline_def tree_backend_def resp_init_def)
  then show ?thesis by (rule that) (simp_all add: ctx_def get_dir_def)
qed

definition demo_buf :: handler_data where
  "demo_buf = \<lparr>hd_head = Str [], hd_data = \<lparr>fd_id = 0, fd_extra = 0, fd_name = []\<rparr>\<rparr>"


end
