(* ===== verification/Fsck_Main.thy ===== *)
theory Fsck_Main
  imports Fsck_Input Fsck_Walk
begin

text \<open>
  The main loop of \<open>fsck.bookmarkfs\<close> (\<open>do_fsck\<close> in \<open>fsck.c\<close>): it takes the next bad name from the
  checker, runs the handler on it and does what the handler says, until one of them ends the run.
\<close>

section \<open>The loop\<close>

text \<open>\<open>struct bookmarkfs_fsck_ops\<close>: the functions the loop calls, over the state \<open>'o\<close> of a checker.\<close>

record 'o fsck_ops =
  op_next :: "handler_data \<Rightarrow> 'o \<Rightarrow> (int \<times> handler_data \<times> 'o) option"
  op_control :: "int \<Rightarrow> 'o \<Rightarrow> (int \<times> 'o) option"
  op_apply :: "handler_data \<Rightarrow> 'o \<Rightarrow> (int \<times> handler_data \<times> 'o) option"

definition fsck_offline_ops :: "'b fsck_backend \<Rightarrow> 'b offline_ctx fsck_ops" where
  "fsck_offline_ops B = \<lparr>op_next = fsck_next_offline B, op_control = fsck_control_offline B,
     op_apply = fsck_apply_offline B\<rparr>"

text \<open>
  The state of a run: the checker, the handler and the lines that \<open>readline\<close> will return.  The first
  argument tells where the loop is: at its head, or at the label \<open>run_handler\<close> with a \<open>result\<close>.  The
  value is the status with the final state; \<open>None\<close> if the run gets stuck or does not end.
\<close>

type_synonym ('o, 'h) run_state = "handler_data \<times> bytes list \<times> 'o \<times> 'h"

partial_function (option) fsck_loop ::
  "'o fsck_ops \<Rightarrow> ('h \<Rightarrow> int \<Rightarrow> handler_data \<Rightarrow> (int \<times> 'h \<times> handler_data) option) \<Rightarrow> int option \<Rightarrow>
    ('o, 'h) run_state \<Rightarrow> (int \<times> ('o, 'h) run_state) option" where
  "fsck_loop ops run at s =
     (case s of (data, lines, o', h) \<Rightarrow>
       (case at of
          None \<Rightarrow> do {
            (result, data, o') \<leftarrow> op_next ops data o';
            (if result < 0 then Some (-1, data, lines, o', h)
             else if result = FSCK_RESULT_END then Some (0, data, lines, o', h)
             else fsck_loop ops run (Some result) (data, lines, o', h))
          }
        | Some result \<Rightarrow> do {
            (result, h, data) \<leftarrow> run h result data;
            (if result < 0 then Some (-1, data, lines, o', h)
             else if result = FSCK_NEXT then fsck_loop ops run None (data, lines, o', h)
             else if result = FSCK_STOP then Some (0, data, lines, o', h)
             else if result = FSCK_APPLY then do {
               (result, data, o') \<leftarrow> op_apply ops data o';
               (if result < 0 then Some (-1, data, lines, o', h)
                else fsck_loop ops run (Some (if result = FSCK_RESULT_END then -1 else result))
                       (data, lines, o', h))
             }
             else if result = FSCK_USER_INPUT then
               (case lines of
                  [] \<Rightarrow> Some (0, data, lines, o', h)
                | l # lines \<Rightarrow>
                    fsck_loop ops run (Some (-1)) (data\<lparr>hd_head := Str (l @ [0])\<rparr>, lines, o', h))
             else do {
               (result, o') \<leftarrow> op_control ops result o';
               (if result < 0 then Some (-1, data, lines, o', h)
                else fsck_loop ops run (Some (-1)) (data, lines, o', h))
             })
          }))"

definition fsck_main :: "'b fsck_backend \<Rightarrow> bytes list \<Rightarrow> 'b offline_ctx \<Rightarrow> handler_ctx \<Rightarrow>
    handler_data \<Rightarrow> (int \<times> ('b offline_ctx, handler_ctx) run_state) option" where
  "fsck_main B lines o' h junk = fsck_loop (fsck_offline_ops B) fsck_handler_run None (junk, lines, o', h)"

section \<open>A read-only run\<close>

text \<open>Two backends that answer the same as long as nothing is applied or saved.\<close>

definition same_reads :: "'b fsck_backend \<Rightarrow> 'b fsck_backend \<Rightarrow> bool" where
  "same_reads B B' \<longleftrightarrow>
     (\<forall>b f fl cb u c. fb_check B b f None fl cb u c = fb_check B' b f None fl cb u c) \<and>
     fb_list B = fb_list B' \<and> fb_cookie_free B = fb_cookie_free B'"

lemma same_reads_sym: "same_reads B B' \<Longrightarrow> same_reads B' B"
  by (simp add: same_reads_def)

lemma do_fsck_same: "same_reads B B' \<Longrightarrow> do_fsck B fl dir None e b = do_fsck B' fl dir None e b"
  unfolding do_fsck_def same_reads_def by (cases e) simp_all

lemma do_list_same: "same_reads B B' \<Longrightarrow> do_list B = do_list B'"
  unfolding do_list_def same_reads_def by (intro ext) simp

lemma free_dir_same: "same_reads B B' \<Longrightarrow> free_dir B = free_dir B'"
  unfolding free_dir_def same_reads_def by (intro ext) simp

lemma list_up_same: "same_reads B B' \<Longrightarrow> list_up B i st b = list_up B' i st b"
proof (induction i arbitrary: st b)
  case (Suc i)
  then show ?case by (simp add: do_list_same free_dir_same cong: if_cong)
qed (simp add: do_list_same)

lemma free_above_same: "same_reads B B' \<Longrightarrow> free_above B st n b = free_above B' st n b"
  by (induction n arbitrary: b) (simp_all add: free_dir_same)

lemma next_loop_same:
  assumes "next_loop B fl i st e b = Some r" "same_reads B B'"
  shows "next_loop B' fl i st e b = Some r"
proof -
  have "same_reads B B' \<longrightarrow> next_loop B' fl i st e b = Some r"
  proof (rule next_loop.raw_induct [OF _ assms(1)])
    fix f B fl i st e b r
    assume IH: "\<And>B fl i st e b r. f B fl i st e b = Some r \<Longrightarrow>
        same_reads B B' \<longrightarrow> next_loop B' fl i st e b = Some r"
      and body: "do {
         dir \<leftarrow> get_dir st i;
         let (result, dir, e, b) = (if sd_off dir < 0 then do_fsck B fl dir None (Some e) b
                                    else (FSCK_RESULT_END, dir, Some e, b));
         let entry = the e;
         (if result \<noteq> FSCK_RESULT_END then Some (result, i, st[i := Some dir], entry, b)
          else do {
            let st = st[i := Some (if sd_off dir < 0 then dir\<lparr>sd_off := 0\<rparr> else dir)];
            (if \<not> has_flag fl FSCK_OP_RECURSIVE then Some (0, i, st, entry, b)
             else do {
               (status, sub, i, st, b) \<leftarrow> list_up B i st b;
               (if status < 0 \<or> sub = -1 then Some (status, i, st, entry, b)
                else do {
                  (i, st) \<leftarrow> push_dir sub i st;
                  f B fl i st entry b
                })
             })
          })
       } = Some r"
    show "same_reads B B' \<longrightarrow> next_loop B' fl i st e b = Some r"
    proof
      assume same: "same_reads B B'"
      from body obtain dir where dir: "get_dir st i = Some dir" by (auto split: bind_splits)
      obtain result dir' e' b' where res:
        "(if sd_off dir < 0 then do_fsck B fl dir None (Some e) b
          else (FSCK_RESULT_END, dir, Some e, b)) = (result, dir', e', b')"
        by (metis prod_cases4)
      note res' = res [unfolded do_fsck_same [OF same]]
      show "next_loop B' fl i st e b = Some r"
        using body dir same
        by (subst next_loop.simps)
          (auto simp: res res' list_up_same [OF same] Let_def dest: IH split: if_splits bind_splits)
    qed
  qed
  with assms(2) show ?thesis by simp
qed

lemma readonly_flag: "has_flag f BACKEND_READONLY \<longleftrightarrow> bit f 0"
  using flag_bit [of f 0] by (simp add: BACKEND_READONLY_def)

lemma all_done_bit: "bit FSCK_ALL_DONE n \<longleftrightarrow> n = 24"
proof -
  have power: "FSCK_ALL_DONE = 2 ^ 24" by (simp add: FSCK_ALL_DONE_def)
  show ?thesis unfolding power bit_exp_iff by (auto simp: possible_bit_word)
qed

lemma fsck_next_same:
  assumes "fsck_next_offline B d ctx = Some (r, d', ctx')" "same_reads B B'"
  shows "fsck_next_offline B' d ctx = Some (r, d', ctx') \<and> oc_flags ctx' = oc_flags ctx"
  using assms by (auto simp: fsck_next_offline_def split: if_splits bind_splits dest: next_loop_same)

lemma reset_top_same:
  "same_reads B B' \<Longrightarrow> reset_top B ctx = reset_top B' ctx"
  by (simp add: reset_top_def do_fsck_same cong: if_cong)

lemma reset_top_flags:
  "reset_top B ctx = Some (r, ctx') \<Longrightarrow> oc_flags ctx' = oc_flags ctx AND NOT FSCK_ALL_DONE"
  by (auto simp: reset_top_def Let_def split: bind_splits if_splits prod.splits)

lemma fsck_control_same:
  assumes "fsck_control_offline B control ctx = Some (r, ctx')" "same_reads B B'" "bit (oc_flags ctx) 0"
  shows "fsck_control_offline B' control ctx = Some (r, ctx') \<and> bit (oc_flags ctx') 0"
proof -
  note same = do_fsck_same [OF assms(2)] free_dir_same [OF assms(2)] free_above_same [OF assms(2)]
    reset_top_same [OF assms(2)]
  have "fsck_control_offline B' control ctx = Some (r, ctx')"
    using assms(1,3)
    by (auto simp: fsck_control_offline_def same readonly_flag Let_def
        split: bind_splits if_splits prod.splits)
  moreover have "bit (oc_flags ctx') 0"
    using assms(1,3)
    by (auto simp: fsck_control_offline_def readonly_flag all_done_bit bit_flags Let_def
        split: bind_splits if_splits prod.splits dest!: reset_top_flags)
  ultimately show ?thesis by simp
qed

text \<open>One step of the loop on a read-only run is the same with either backend.\<close>

lemma fsck_loop_same:
  assumes "fsck_loop ops run at s = Some r" "ops = fsck_offline_ops B" "run = fsck_handler_run"
    "same_reads B B'" "bit (oc_flags (fst (snd (snd s)))) 0" "bit (hc_flags (snd (snd (snd s)))) 1"
  shows "fsck_loop (fsck_offline_ops B') run at s = Some r"
proof -
  have "ops = fsck_offline_ops B \<longrightarrow> run = fsck_handler_run \<longrightarrow>
      bit (oc_flags (fst (snd (snd s)))) 0 \<longrightarrow> bit (hc_flags (snd (snd (snd s)))) 1 \<longrightarrow>
      fsck_loop (fsck_offline_ops B') run at s = Some r"
  proof (rule fsck_loop.raw_induct [OF _ assms(1)], goal_cases)
    case (1 f ops run at s r)
    note IH = 1(1) [rule_format, OF _ refl refl]
    show ?case
    proof (intro impI)
      assume ops: "ops = fsck_offline_ops B" and run: "run = fsck_handler_run"
        and ro: "bit (oc_flags (fst (snd (snd s)))) 0" and hro: "bit (hc_flags (snd (snd (snd s)))) 1"
      obtain d ls c h where s: "s = (d, ls, c, h)" by (cases s)
      show "fsck_loop (fsck_offline_ops B') run at s = Some r"
      proof (cases at)
        case None
        then obtain res d' c' where nx: "fsck_next_offline B d c = Some (res, d', c')"
          using 1(2) by (auto simp: s ops fsck_offline_ops_def split: bind_splits)
        note nx' = fsck_next_same [OF nx assms(4)]
        show ?thesis
          using 1(2) None nx nx' ro hro IH
          by (subst fsck_loop.simps)
            (auto simp: s ops run fsck_offline_ops_def split: if_splits)
      next
        case (Some result)
        then obtain res h' d' where hr: "fsck_handler_run h result d = Some (res, h', d')"
          using 1(2) by (auto simp: s run split: bind_splits)
        have mode: "bit (hc_flags h') 1" "res \<noteq> FSCK_APPLY"
          using fsck_handler_mode [OF hr] hro by (auto simp: same_mode_def s)
        show ?thesis
        proof (cases "res < 0 \<or> res = FSCK_NEXT \<or> res = FSCK_STOP \<or> res = FSCK_USER_INPUT")
          case True
          then show ?thesis
            using 1(2) Some hr mode ro hro IH
            by (subst fsck_loop.simps)
              (auto simp: s ops run split: if_splits list.splits)
        next
          case False
          then obtain res' c' where ct: "fsck_control_offline B res c = Some (res', c')"
            using 1(2) Some hr mode
            by (auto simp: s ops run fsck_offline_ops_def split: bind_splits)
          have ro': "bit (oc_flags c) 0" using ro s by simp
          note ct' = fsck_control_same [OF ct assms(4) ro']
          show ?thesis
            using 1(2) Some hr mode False ct ct' ro hro IH
            by (subst fsck_loop.simps)
              (auto simp: s ops run fsck_offline_ops_def split: if_splits)
        qed
      qed
    qed
  qed
  with assms show ?thesis by simp
qed

text \<open>C20: a run without \<open>-o repair\<close> asks the backend for nothing but reading.  Whatever the user
  types, the run is the same with any two backends that check, list and free cookies alike and
  differ in how they apply a proposal, save, or do anything else: the handler never asks for a
  proposal to be applied, and the command to save does not reach the backend.\<close>

theorem fsck_readonly_reads_only:
  assumes "same_reads B B'" "has_flag (oc_flags ctx) BACKEND_READONLY"
    "has_flag (hc_flags h) HANDLER_READONLY"
  shows "fsck_main B lines ctx h junk = fsck_main B' lines ctx h junk"
proof -
  have imp: "fsck_main B' lines ctx h junk = Some r"
    if "fsck_main B lines ctx h junk = Some r" "same_reads B B'" for B B' r
    using fsck_loop_same [OF that(1) [unfolded fsck_main_def] refl refl that(2)] assms(2,3)
    by (simp add: fsck_main_def readonly_flag)
  show ?thesis
    using imp [of B _ B'] imp [of B' _ B] assms(1) same_reads_sym [OF assms(1)]
    by (metis option.exhaust)
qed

theorem fsck_readonly_reads_only_witness:
  "\<exists>ctx. fsck_create_offline (tree_backend 1 demo_bad demo_ents) demo_path [] BACKEND_READONLY = Some (Inr ctx) \<and>
    fsck_main (tree_backend 1 demo_bad demo_ents) [str ''w'', str ''e x''] ctx (asking (2 ^ 0 OR 2 ^ 1)) demo_buf =
    fsck_main ((tree_backend 1 demo_bad demo_ents)\<lparr>fb_sync := \<lambda>b. (- EIO, b)\<rparr>)
      [str ''w'', str ''e x''] ctx (asking (2 ^ 0 OR 2 ^ 1)) demo_buf"
proof -
  have "drop (Suc 1) demo_path = str ''bookmarks''" by (simp add: demo_path_def str_def)
  then obtain ctx where ctx:
    "fsck_create_offline (tree_backend 1 demo_bad demo_ents) demo_path [] BACKEND_READONLY = Some (Inr ctx)"
    "oc_flags ctx = BACKEND_READONLY"
    using strchr_demo
    by (simp add: fsck_create_offline_def tree_backend_def resp_init_def new_ctx_offline_def
        BACKEND_READONLY_def BACKEND_NO_SANDBOX_def FSCK_OP_RECURSIVE_def has_flag_def)
  have "same_reads (tree_backend 1 demo_bad demo_ents)
      ((tree_backend 1 demo_bad demo_ents)\<lparr>fb_sync := \<lambda>b. (- EIO, b)\<rparr>)"
    by (simp add: same_reads_def)
  then show ?thesis
    using ctx fsck_readonly_reads_only [of "tree_backend 1 demo_bad demo_ents"
        "(tree_backend 1 demo_bad demo_ents)\<lparr>fb_sync := \<lambda>b. (- EIO, b)\<rparr>" ctx "asking (2 ^ 0 OR 2 ^ 1)"]
    by (intro exI [of _ ctx]) (simp add: asking_def demo_handler_def has_flag_def BACKEND_READONLY_def
        HANDLER_READONLY_def)
qed

section \<open>A complete report\<close>

text \<open>The line that is printed for a bad name.\<close>

definition report_line :: "problem \<Rightarrow> bytes" where
  "report_line = (\<lambda>(r, i, x, nm). dec (unat i) @ [9] @ the (result_str r) @ [9] @ dec (unat x) @ [9] @
     cstr (fst (translit_control_chars NAME_BUF (strncpy nm NAME_BUF) (ch CHR ''?''))) @ [10])"

definition silent :: "handler_ctx \<Rightarrow> bool" where
  "silent hc \<longleftrightarrow> bit (hc_flags hc) 1 \<and> (\<forall>k \<in> {0, 16, 18}. \<not> bit (hc_flags hc) k)"

lemma handle_entry_silent:
  assumes "silent hc" "result_str r \<noteq> None" "r > 0"
  shows "\<exists>hc'. fsck_handler_run hc r (entry_of (f, r, i, x, nm)) = Some (FSCK_NEXT, hc', entry_of (f, r, i, x, nm)) \<and>
    silent hc' \<and> hc_out hc' = hc_out hc @ report_line (r, i, x, nm)"
proof -
  obtain rs where rs: "result_str r = Some rs" using assms(2) by auto
  show ?thesis
    using assms(1,3) rs
    by (simp add: fsck_handler_run_def handle_entry_def entry_of_def print_fsck_result_def Let_def
        FSCK_RESULT_END_def silent_def bit_flags out_def report_line_def)
qed

lemma fsck_loop_report:
  assumes B: "serves B good rem bad ents"
  shows "walking B good rem bad ents ctx rs \<Longrightarrow> silent h \<Longrightarrow>
    \<forall>(f, r, p) \<in> set rs. result_str r \<noteq> None \<Longrightarrow>
    \<exists>d' ctx' h'. fsck_loop (fsck_offline_ops B) fsck_handler_run None (d, lines, ctx, h) =
      Some (0, d', lines, ctx', h') \<and>
    hc_out h' = hc_out h @ concat (map (report_line \<circ> snd) rs)"
proof (induction rs arbitrary: ctx h d)
  case Nil
  obtain d' ctx' where "fsck_next_offline B d ctx = Some (0, d', ctx')"
    using fsck_next_walking [OF B Nil(1), of d] by auto
  then show ?case
    by (subst fsck_loop.simps) (simp add: fsck_offline_ops_def FSCK_RESULT_END_def)
next
  case (Cons p rs)
  obtain f r i x nm where p: "p = (f, r, i, x, nm)" by (cases p)
  obtain ctx' where nx: "fsck_next_offline B d ctx = Some (r, entry_of p, ctx')" "r > 0"
    "walking B good rem bad ents ctx' rs"
    using fsck_next_walking [OF B Cons.prems(1), of d] p by auto
  have "result_str r \<noteq> None" using Cons.prems(3) p by auto
  then obtain h' where hr: "fsck_handler_run h r (entry_of p) = Some (FSCK_NEXT, h', entry_of p)"
    "silent h'" "hc_out h' = hc_out h @ report_line (snd p)"
    using handle_entry_silent [OF Cons.prems(2) _ nx(2), of f i x nm] p by auto
  have "fsck_loop (fsck_offline_ops B) fsck_handler_run None (d, lines, ctx, h) =
      fsck_loop (fsck_offline_ops B) fsck_handler_run (Some r) (entry_of p, lines, ctx', h)"
    using nx by (subst fsck_loop.simps) (simp add: fsck_offline_ops_def FSCK_RESULT_END_def)
  also have "\<dots> = fsck_loop (fsck_offline_ops B) fsck_handler_run None (entry_of p, lines, ctx', h')"
    using hr by (subst fsck_loop.simps) (simp add: FSCK_NEXT_def)
  finally show ?case
    using Cons.IH [OF nx(3) hr(2), of "entry_of p"] Cons.prems(3) hr(3) by auto
qed



end
