(* ===== verification/Fsck_Online.thy ===== *)
theory Fsck_Online
  imports Fsck_Main
begin

text \<open>
  \<open>fsck_online.c\<close>: the checker on a mounted file system.  The folders are open directories, the checks
  are ioctls on them, and the subfolders come from \<open>getdents\<close>, whose results for all folders on the
  stack are kept behind one another in one buffer.  The system calls are the parameter \<open>S\<close> over a
  state \<open>'s\<close> of the system.
\<close>

section \<open>System calls\<close>

text \<open>\<open>struct dirent\<close>: the length of the record, whether the entry is a directory, its name.\<close>

record dirent =
  d_reclen :: nat
  d_isdir :: bool
  d_name :: bytes

text \<open>A negative first component of a result is an error.\<close>

record 's sys =
  sys_open :: "'s \<Rightarrow> bytes \<Rightarrow> int \<times> 's"
  sys_openat :: "'s \<Rightarrow> int \<Rightarrow> bytes \<Rightarrow> int \<times> 's"
  sys_fstat :: "'s \<Rightarrow> int \<Rightarrow> int \<times> u64 \<times> 's"
  sys_close :: "'s \<Rightarrow> int \<Rightarrow> 's"
  sys_getdents :: "'s \<Rightarrow> int \<Rightarrow> nat \<Rightarrow> int \<times> dirent list \<times> 's"
  sys_lseek_start :: "'s \<Rightarrow> int \<Rightarrow> int \<times> 's"
  sys_fsync :: "'s \<Rightarrow> int \<Rightarrow> int \<times> 's"
  ioctl_rewind :: "'s \<Rightarrow> int \<Rightarrow> int \<times> 's"
  ioctl_next :: "'s \<Rightarrow> int \<Rightarrow> fsck_data \<Rightarrow> int \<times> fsck_data \<times> 's"
  ioctl_apply :: "'s \<Rightarrow> int \<Rightarrow> fsck_data \<Rightarrow> int \<times> fsck_data \<times> 's"
  sys_sandbox_enter :: "'s \<Rightarrow> int \<Rightarrow> u32 \<Rightarrow> int \<times> 's"

section \<open>State\<close>

definition FSCK_DIR_DONE :: u32 where "FSCK_DIR_DONE = 1"
definition DIRENT_BUFSIZE :: nat where "DIRENT_BUFSIZE = 4096"

record online_dir =
  od_id :: u64
  od_fd :: int
  od_flags :: u32
  dent_start :: nat
  dent_off :: nat

text \<open>
  The buffer of the directory entries gives the record that starts at each offset.  The memory of
  the stack is as in the offline checker.
\<close>

record online_ctx =
  on_stack :: "online_dir option list"
  on_top :: nat
  dent_buf :: "nat \<Rightarrow> dirent option"
  dent_buf_size :: nat
  dent_buf_used :: nat
  on_flags :: u32

definition get_odir :: "online_dir option list \<Rightarrow> nat \<Rightarrow> online_dir option" where
  "get_odir st i = (if i < length st then st ! i else None)"

definition put_odir :: "nat \<Rightarrow> online_dir \<Rightarrow> online_ctx \<Rightarrow> online_ctx" where
  "put_odir i dir ctx = ctx\<lparr>on_stack := (on_stack ctx)[i := Some dir]\<rparr>"

section \<open>Subfolders\<close>

text \<open>What \<open>getdents\<close> writes: the records one after the other from offset \<open>off\<close> on.\<close>

fun write_dents :: "nat \<Rightarrow> dirent list \<Rightarrow> (nat \<Rightarrow> dirent option) \<Rightarrow> nat \<Rightarrow> dirent option" where
  "write_dents off [] buf = buf"
| "write_dents off (d # ds) buf =
     write_dents (off + d_reclen d) ds
       (\<lambda>i. if i = off then Some d else if off < i \<and> i < off + d_reclen d then None else buf i)"

definition dents_len :: "dirent list \<Rightarrow> nat" where
  "dents_len ds = sum_list (map d_reclen ds)"

text \<open>
  The loop of \<open>next_subdir\<close>, with its local variable \<open>off\<close>; \<open>len\<close> is always the \<open>dent_buf_used\<close> of
  the context.  Whether it ends depends on \<open>getdents\<close>.  The result is the status, the entry found, the
  new \<open>dent_off\<close> of the folder if one was found, the context and the system.
\<close>

partial_function (option) next_subdir_loop ::
  "'s sys \<Rightarrow> int \<Rightarrow> nat \<Rightarrow> nat \<Rightarrow> online_ctx \<Rightarrow> 's \<Rightarrow>
    (int \<times> (dirent \<times> nat) option \<times> online_ctx \<times> 's) option" where
  "next_subdir_loop S fd start off ctx s = do {
     (status, off, ctx, s) \<leftarrow>
       (if off = dent_buf_used ctx then
          (let ctx = (if start + DIRENT_BUFSIZE > dent_buf_size ctx
                      then ctx\<lparr>dent_buf_size := start + DIRENT_BUFSIZE\<rparr> else ctx);
               (nbytes, ds, s) = sys_getdents S s fd DIRENT_BUFSIZE
           in if nbytes < 0 then Some (-1, off, ctx, s)
              else if nbytes = 0 then Some (0, off, ctx, s)
              else Some (1, start, ctx\<lparr>dent_buf := write_dents start ds (dent_buf ctx),
                                       dent_buf_used := start + dents_len ds\<rparr>, s))
        else Some (1, off, ctx, s));
     (if status \<le> 0 then Some (status, None, ctx, s)
      else do {
        dent \<leftarrow> dent_buf ctx off;
        (if d_isdir dent then Some (0, Some (dent, off + d_reclen dent), ctx, s)
         else next_subdir_loop S fd start (off + d_reclen dent) ctx s)
      })
   }"

definition next_subdir ::
  "'s sys \<Rightarrow> nat \<Rightarrow> online_ctx \<Rightarrow> 's \<Rightarrow> (int \<times> dirent option \<times> online_ctx \<times> 's) option" where
  "next_subdir S i ctx s = do {
     dir \<leftarrow> get_odir (on_stack ctx) i;
     (status, found, ctx, s) \<leftarrow> next_subdir_loop S (od_fd dir) (dent_start dir) (dent_off dir) ctx s;
     (case found of
        None \<Rightarrow> Some (status, None, ctx, s)
      | Some (dent, off) \<Rightarrow> Some (status, Some dent, put_odir i (dir\<lparr>dent_off := off\<rparr>) ctx, s))
   }"

definition open_subdir :: "'s sys \<Rightarrow> int \<Rightarrow> bytes \<Rightarrow> 's \<Rightarrow> int \<times> u64 \<times> 's" where
  "open_subdir S dirfd name s =
     (let (fd, s) = sys_openat S s dirfd name
      in if fd < 0 then (-1, 0, s)
         else (let (status, ino, s) = sys_fstat S s fd
               in if status \<noteq> 0 then (-1, 0, sys_close S s fd)
                  else (fd, ino AND BOOKMARKFS_MAX_ID, s)))"

section \<open>Operations\<close>

definition reset_top_online :: "'s sys \<Rightarrow> online_ctx \<Rightarrow> 's \<Rightarrow> (int \<times> online_ctx \<times> 's) option" where
  "reset_top_online S ctx s = do {
     dir \<leftarrow> get_odir (on_stack ctx) 0;
     (case ioctl_rewind S s (od_fd dir) of (r, s) \<Rightarrow>
        if r \<noteq> 0 then Some (-1, ctx, s)
        else (case sys_lseek_start S s (od_fd dir) of (r, s) \<Rightarrow>
          if r \<noteq> 0 then Some (-1, ctx, s)
          else Some (0, (put_odir 0 (dir\<lparr>od_flags := 0, dent_off := 0\<rparr>) ctx)
                          \<lparr>on_top := 0, dent_buf_used := 0, on_flags := on_flags ctx AND NOT FSCK_ALL_DONE\<rparr>, s)))
   }"

definition fsck_apply_online ::
  "'s sys \<Rightarrow> handler_data \<Rightarrow> online_ctx \<times> 's \<Rightarrow> (int \<times> handler_data \<times> online_ctx \<times> 's) option" where
  "fsck_apply_online S entry cs = (case cs of (ctx, s) \<Rightarrow>
     if has_flag (on_flags ctx) BACKEND_READONLY then Some (-1, entry, ctx, s)
     else do {
       dir \<leftarrow> get_odir (on_stack ctx) (on_top ctx);
       (case ioctl_apply S s (od_fd dir) (hd_data entry) of (result, d, s) \<Rightarrow>
          if result < 0 then Some (-1, entry\<lparr>hd_data := d\<rparr>, ctx, s)
          else Some (result, \<lparr>hd_head = Parent (od_id dir), hd_data = d\<rparr>, ctx, s))
     })"

primrec close_above :: "'s sys \<Rightarrow> online_dir option list \<Rightarrow> nat \<Rightarrow> 's \<Rightarrow> 's option" where
  "close_above S st 0 s = Some s"
| "close_above S st (Suc n) s = do { dir \<leftarrow> get_odir st (Suc n); close_above S st n (sys_close S s (od_fd dir)) }"

definition fsck_control_online ::
  "'s sys \<Rightarrow> int \<Rightarrow> online_ctx \<times> 's \<Rightarrow> (int \<times> online_ctx \<times> 's) option" where
  "fsck_control_online S control cs = (case cs of (ctx, s) \<Rightarrow> do {
     let top = on_top ctx;
     dir \<leftarrow> get_odir (on_stack ctx) top;
     let rewind = (\<lambda>ctx. case ioctl_rewind S s (od_fd dir) of (r, s) \<Rightarrow>
           Some (if r \<noteq> 0 then -1 else 0, ctx, s));
     (if control = FSCK_SKIP then
        rewind (put_odir top (dir\<lparr>od_flags := od_flags dir OR FSCK_DIR_DONE\<rparr>) ctx)
      else if control = FSCK_REWIND then rewind ctx
      else if control = FSCK_SKIP_CHILDREN then
        (if top = 0 then Some (0, ctx\<lparr>on_flags := on_flags ctx OR FSCK_ALL_DONE\<rparr>, s)
         else Some (0, ctx\<lparr>dent_buf_used := dent_start dir, on_top := top - 1\<rparr>, sys_close S s (od_fd dir)))
      else if control = FSCK_RESET then do {
        s \<leftarrow> close_above S (on_stack ctx) top s;
        reset_top_online S (ctx\<lparr>on_top := 0\<rparr>) s
      }
      else if control = FSCK_SAVE then
        (if has_flag (on_flags ctx) BACKEND_READONLY then Some (0, ctx, s)
         else (case sys_fsync S s (od_fd dir) of (r, s) \<Rightarrow> Some (r, ctx, s)))
      else None)
   })"

definition fsck_create_online :: "'s sys \<Rightarrow> bytes \<Rightarrow> u32 \<Rightarrow> 's \<Rightarrow> (int + online_ctx) \<times> 's" where
  "fsck_create_online S path flags s =
     (let (dirfd, s) = sys_open S s path
      in if dirfd < 0 then (Inl (-1), s)
         else (let dir_stack_size = (if has_flag flags FSCK_OP_RECURSIVE then 16 else 1)
               in (Inr \<lparr>on_stack = Some \<lparr>od_id = -1, od_fd = dirfd, od_flags = 0, dent_start = 0, dent_off = 0\<rparr> #
                                   replicate (dir_stack_size - 1) None,
                        on_top = 0, dent_buf = (\<lambda>_. None), dent_buf_size = 0, dent_buf_used = 0,
                        on_flags = flags\<rparr>, s)))"

text \<open>The descriptors are closed from the bottom of the stack up.\<close>

primrec close_dirs :: "'s sys \<Rightarrow> online_dir option list \<Rightarrow> nat list \<Rightarrow> 's \<Rightarrow> 's option" where
  "close_dirs S st [] s = Some s"
| "close_dirs S st (i # idxs) s = do { dir \<leftarrow> get_odir st i; close_dirs S st idxs (sys_close S s (od_fd dir)) }"

definition fsck_destroy_online :: "'s sys \<Rightarrow> online_ctx \<Rightarrow> 's \<Rightarrow> 's option" where
  "fsck_destroy_online S ctx s = close_dirs S (on_stack ctx) [0..<Suc (on_top ctx)] s"

text \<open>The inner loop of \<open>fsck_next\<close>: the next subfolder of the folder at index \<open>i\<close> or of one below it.\<close>

primrec subdir_up ::
  "'s sys \<Rightarrow> nat \<Rightarrow> online_ctx \<Rightarrow> 's \<Rightarrow> (int \<times> dirent option \<times> nat \<times> online_ctx \<times> 's) option" where
  "subdir_up S 0 ctx s = do {
     (result, dent, ctx, s) \<leftarrow> next_subdir S 0 ctx s;
     Some (result, dent, 0, ctx, s)
   }"
| "subdir_up S (Suc i) ctx s = do {
     (result, dent, ctx, s) \<leftarrow> next_subdir S (Suc i) ctx s;
     (if result < 0 \<or> dent \<noteq> None then Some (result, dent, Suc i, ctx, s)
      else do {
        dir \<leftarrow> get_odir (on_stack ctx) (Suc i);
        subdir_up S i (ctx\<lparr>dent_buf_used := dent_start dir\<rparr>) (sys_close S s (od_fd dir))
      })
   }"

definition push_odir :: "online_dir \<Rightarrow> nat \<Rightarrow> online_ctx \<Rightarrow> (nat \<times> online_ctx) option" where
  "push_odir dir i ctx =
     (let st = on_stack ctx;
          st = (if Suc i \<ge> length st then st @ replicate (length st div 2) None else st)
      in if Suc i < length st then Some (Suc i, ctx\<lparr>on_stack := st[Suc i := Some dir]\<rparr>) else None)"

partial_function (option) next_loop_online ::
  "'s sys \<Rightarrow> nat \<Rightarrow> handler_data \<Rightarrow> online_ctx \<Rightarrow> 's \<Rightarrow>
    (int \<times> nat \<times> handler_data \<times> online_ctx \<times> 's) option" where
  "next_loop_online S i entry ctx s = do {
     dir \<leftarrow> get_odir (on_stack ctx) i;
     (if \<not> has_flag (od_flags dir) FSCK_DIR_DONE then
        (case ioctl_next S s (od_fd dir) (hd_data entry) of (result, d, s) \<Rightarrow>
          if result < 0 then Some (result, i, entry\<lparr>hd_data := d\<rparr>, ctx, s)
          else if result \<noteq> FSCK_RESULT_END
          then Some (result, i, \<lparr>hd_head = Parent (od_id dir), hd_data = d\<rparr>, ctx, s)
          else next_loop_online S i (entry\<lparr>hd_data := d\<rparr>)
                 (put_odir i (dir\<lparr>od_flags := od_flags dir OR FSCK_DIR_DONE\<rparr>) ctx) s)
      else if \<not> has_flag (on_flags ctx) FSCK_OP_RECURSIVE then Some (0, i, entry, ctx, s)
      else do {
        (result, dent, i, ctx, s) \<leftarrow> subdir_up S i ctx s;
        (if result < 0 then Some (result, i, entry, ctx, s)
         else (case dent of
           None \<Rightarrow> Some (result, i, entry, ctx, s)
         | Some dent \<Rightarrow> do {
             dir \<leftarrow> get_odir (on_stack ctx) i;
             (case open_subdir S (od_fd dir) (d_name dent) s of (fd, ino, s) \<Rightarrow>
               if fd < 0 then Some (fd, i, entry, ctx, s)
               else do {
                 (i, ctx) \<leftarrow> push_odir \<lparr>od_id = ino, od_fd = fd, od_flags = 0,
                     dent_start = dent_buf_used ctx, dent_off = dent_buf_used ctx\<rparr> i ctx;
                 next_loop_online S i entry ctx s
               })
           }))
      })
   }"

definition fsck_next_online ::
  "'s sys \<Rightarrow> handler_data \<Rightarrow> online_ctx \<times> 's \<Rightarrow> (int \<times> handler_data \<times> online_ctx \<times> 's) option" where
  "fsck_next_online S entry cs = (case cs of (ctx, s) \<Rightarrow>
     if has_flag (on_flags ctx) FSCK_ALL_DONE then Some (0, entry, ctx, s)
     else do {
       (r, i, entry, ctx, s) \<leftarrow> next_loop_online S (on_top ctx) entry ctx s;
       Some (r, entry, ctx\<lparr>on_top := i\<rparr>, s)
     })"

definition fsck_sandbox_online :: "'s sys \<Rightarrow> online_ctx \<Rightarrow> 's \<Rightarrow> (int \<times> 's) option" where
  "fsck_sandbox_online S ctx s =
     (if has_flag (on_flags ctx) BACKEND_NO_SANDBOX then Some (0, s)
      else do {
        dir \<leftarrow> get_odir (on_stack ctx) 0;
        Some (sys_sandbox_enter S s (od_fd dir)
          (if has_flag (on_flags ctx) BACKEND_NO_LANDLOCK then SANDBOX_NO_LANDLOCK else 0))
      })"

definition fsck_online_ops :: "'s sys \<Rightarrow> (online_ctx \<times> 's) fsck_ops" where
  "fsck_online_ops S = \<lparr>op_next = fsck_next_online S, op_control = fsck_control_online S,
     op_apply = fsck_apply_online S\<rparr>"

end
