(* ===== verification/Fsck_Fds.thy ===== *)
theory Fsck_Fds
  imports Fsck_Online
begin

text \<open>
  The file descriptors of the online checker: those on its stack are open, distinct and the only ones
  it has open, after every operation; its destruction closes each of them once.
\<close>

section \<open>System calls and descriptors\<close>

text \<open>\<open>opened s\<close> is the set of open descriptors: what POSIX says of the calls.\<close>

definition fd_laws :: "'s sys \<Rightarrow> ('s \<Rightarrow> int set) \<Rightarrow> bool" where
  "fd_laws S opened \<longleftrightarrow>
     (\<forall>s p fd s'. sys_open S s p = (fd, s') \<longrightarrow>
        (if fd < 0 then opened s' = opened s else fd \<notin> opened s \<and> opened s' = insert fd (opened s))) \<and>
     (\<forall>s d n fd s'. sys_openat S s d n = (fd, s') \<longrightarrow>
        (if fd < 0 then opened s' = opened s else fd \<notin> opened s \<and> opened s' = insert fd (opened s))) \<and>
     (\<forall>s fd. fd \<in> opened s \<longrightarrow> opened (sys_close S s fd) = opened s - {fd}) \<and>
     (\<forall>s fd. opened (snd (snd (sys_fstat S s fd))) = opened s) \<and>
     (\<forall>s fd n. opened (snd (snd (sys_getdents S s fd n))) = opened s) \<and>
     (\<forall>s fd. opened (snd (sys_lseek_start S s fd)) = opened s) \<and>
     (\<forall>s fd. opened (snd (sys_fsync S s fd)) = opened s) \<and>
     (\<forall>s fd. opened (snd (ioctl_rewind S s fd)) = opened s) \<and>
     (\<forall>s fd d. opened (snd (snd (ioctl_next S s fd d))) = opened s) \<and>
     (\<forall>s fd d. opened (snd (snd (ioctl_apply S s fd d))) = opened s)"

lemma fd_laws_open:
  assumes "fd_laws S opened" "sys_open S s p = (fd, s')"
  shows "if fd < 0 then opened s' = opened s else fd \<notin> opened s \<and> opened s' = insert fd (opened s)"
  using assms(1) unfolding fd_laws_def by (elim conjE) (use assms(2) in blast)

lemma fd_laws_openat:
  assumes "fd_laws S opened" "sys_openat S s d p = (fd, s')"
  shows "if fd < 0 then opened s' = opened s else fd \<notin> opened s \<and> opened s' = insert fd (opened s)"
  using assms(1) unfolding fd_laws_def by (elim conjE) (use assms(2) in blast)

lemma fd_laws_close: "fd_laws S opened \<Longrightarrow> fd \<in> opened s \<Longrightarrow> opened (sys_close S s fd) = opened s - {fd}"
  unfolding fd_laws_def by (elim conjE) blast

lemma fd_laws_eqs:
  assumes "fd_laws S opened"
  shows "opened (snd (snd (sys_fstat S s fd))) = opened s"
    and "opened (snd (snd (sys_getdents S s fd n))) = opened s"
    and "opened (snd (sys_lseek_start S s fd)) = opened s"
    and "opened (snd (sys_fsync S s fd)) = opened s"
    and "opened (snd (ioctl_rewind S s fd)) = opened s"
    and "opened (snd (snd (ioctl_next S s fd d))) = opened s"
    and "opened (snd (snd (ioctl_apply S s fd d))) = opened s"
  using assms unfolding fd_laws_def by simp_all

lemma fd_laws_keep:
  assumes S: "fd_laws S opened"
  shows "sys_fstat S s fd = (r, i, s') \<Longrightarrow> opened s' = opened s"
    and "sys_getdents S s fd n = (r, ds, s') \<Longrightarrow> opened s' = opened s"
    and "sys_lseek_start S s fd = (r, s') \<Longrightarrow> opened s' = opened s"
    and "sys_fsync S s fd = (r, s') \<Longrightarrow> opened s' = opened s"
    and "ioctl_rewind S s fd = (r, s') \<Longrightarrow> opened s' = opened s"
    and "ioctl_next S s fd d = (r, d', s') \<Longrightarrow> opened s' = opened s"
    and "ioctl_apply S s fd d = (r, d', s') \<Longrightarrow> opened s' = opened s"
  by (use fd_laws_eqs [OF S] in \<open>metis snd_conv\<close>)+

section \<open>The invariant\<close>

definition fds :: "online_dir option list \<Rightarrow> nat \<Rightarrow> int list" where
  "fds st i = map (\<lambda>j. od_fd (the (get_odir st j))) [0..<Suc i]"

definition fd_inv :: "int set \<Rightarrow> int set \<Rightarrow> online_dir option list \<Rightarrow> nat \<Rightarrow> bool" where
  "fd_inv base open_fds st i \<longleftrightarrow>
     (\<forall>j \<le> i. get_odir st j \<noteq> None) \<and> distinct (fds st i) \<and> base \<inter> set (fds st i) = {} \<and>
     open_fds = base \<union> set (fds st i)"

lemma get_odir_update:
  "get_odir (st[i := x]) j = (if j = i \<and> i < length st then x else get_odir st j)"
  by (auto simp: get_odir_def)

lemma get_odir_less: "get_odir st i = Some dir \<Longrightarrow> i < length st"
  by (simp add: get_odir_def split: if_splits)

lemma fds_Suc: "fds st (Suc i) = fds st i @ [od_fd (the (get_odir st (Suc i)))]"
  by (simp add: fds_def)

lemma fds_cong: "(\<And>j. j \<le> i \<Longrightarrow> get_odir st' j = get_odir st j) \<Longrightarrow> fds st' i = fds st i"
  by (simp add: fds_def)

lemma fd_inv_top: "fd_inv base fs st i \<Longrightarrow> \<exists>dir. get_odir st i = Some dir \<and> od_fd dir \<in> fs"
  by (auto simp: fd_inv_def fds_def)

lemma fd_inv_cong:
  "(\<And>j. j \<le> i \<Longrightarrow> get_odir st' j = get_odir st j) \<Longrightarrow> fd_inv base fs st' i = fd_inv base fs st i"
  by (simp add: fd_inv_def fds_cong [of i st' st])

text \<open>Changing a folder but not its descriptor.\<close>

lemma fd_inv_put:
  assumes "fd_inv base fs st i" "get_odir st j = Some dir" "od_fd dir' = od_fd dir"
  shows "fd_inv base fs (st[j := Some dir']) i"
proof -
  have "fds (st[j := Some dir']) i = fds st i"
    using assms(2,3) by (auto simp: fds_def get_odir_update)
  with assms(1) show ?thesis by (auto simp: fd_inv_def get_odir_update)
qed

lemma fd_inv_pop:
  assumes "fd_laws S opened" "fd_inv base (opened s) st (Suc i)" "get_odir st (Suc i) = Some dir"
  shows "fd_inv base (opened (sys_close S s (od_fd dir))) st i"
proof -
  have fds: "fds st (Suc i) = fds st i @ [od_fd dir]" using assms(3) by (simp add: fds_Suc)
  have "opened (sys_close S s (od_fd dir)) = opened s - {od_fd dir}"
    using assms(2) fds by (intro fd_laws_close [OF assms(1)]) (simp add: fd_inv_def)
  with assms(2) fds show ?thesis by (auto simp: fd_inv_def)
qed

lemma fd_inv_push:
  assumes "fd_inv base fs (on_stack ctx) i" "push_odir dir i ctx = Some (i', ctx')" "od_fd dir \<notin> fs"
  shows "fd_inv base (insert (od_fd dir) fs) (on_stack ctx') i'"
proof -
  define st where "st = (if Suc i \<ge> length (on_stack ctx)
    then on_stack ctx @ replicate (length (on_stack ctx) div 2) None else on_stack ctx)"
  have len: "Suc i < length st" and i': "i' = Suc i" and ctx': "on_stack ctx' = st[Suc i := Some dir]"
    using assms(2) by (auto simp: push_odir_def st_def [symmetric] Let_def split: if_splits)
  have same: "get_odir st j = get_odir (on_stack ctx) j" if "j \<le> i" for j
  proof -
    obtain dir0 where "get_odir (on_stack ctx) i = Some dir0" using fd_inv_top [OF assms(1)] by auto
    then have "j < length (on_stack ctx)" using get_odir_less that by fastforce
    then show ?thesis by (simp add: st_def get_odir_def nth_append)
  qed
  define st' where "st' = st[Suc i := Some dir]"
  have top: "get_odir st' (Suc i) = Some dir"
    using len by (simp add: st'_def get_odir_update)
  have "get_odir st' j = get_odir (on_stack ctx) j" if "j \<le> i" for j
    using same [OF that] that by (simp add: st'_def get_odir_update)
  then have low: "fd_inv base fs st' i"
    using assms(1) fd_inv_cong [of i st' "on_stack ctx"] by blast
  have fds: "fds st' (Suc i) = fds st' i @ [od_fd dir]" by (simp add: fds_Suc top)
  have "\<forall>j \<le> Suc i. get_odir st' j \<noteq> None"
    using low top unfolding fd_inv_def by (metis le_Suc_eq option.distinct(1))
  then show ?thesis
    using low assms(3) fds unfolding fd_inv_def i' ctx' st'_def [symmetric] by auto
qed

section \<open>The operations keep it\<close>

lemma next_subdir_loop_keep:
  assumes "next_subdir_loop S fd start off ctx s = Some (r, d, ctx', s')" "fd_laws S opened"
  shows "on_stack ctx' = on_stack ctx \<and> opened s' = opened s"
proof -
  have "\<forall>r d ctx' s'. res = (r, d, ctx', s') \<longrightarrow> fd_laws S opened \<longrightarrow>
      on_stack ctx' = on_stack ctx \<and> opened s' = opened s"
    if "next_subdir_loop S fd start off ctx s = Some res" for res
  proof (rule next_subdir_loop.raw_induct [OF _ that], goal_cases)
    case (1 f S fd start off ctx s res)
    show ?case
    proof (intro allI impI)
      fix r d ctx' s'
      assume res: "res = (r, d, ctx', s')" and S: "fd_laws S opened"
      from 1(2) obtain st o1 c1 s1 where read:
        "(if off = dent_buf_used ctx then
          (let ctx = (if start + DIRENT_BUFSIZE > dent_buf_size ctx
                      then ctx\<lparr>dent_buf_size := start + DIRENT_BUFSIZE\<rparr> else ctx);
               (nbytes, ds, s) = sys_getdents S s fd DIRENT_BUFSIZE
           in if nbytes < 0 then Some (-1, off, ctx, s)
              else if nbytes = 0 then Some (0, off, ctx, s)
              else Some (1, start, ctx\<lparr>dent_buf := write_dents start ds (dent_buf ctx),
                                       dent_buf_used := start + dents_len ds\<rparr>, s))
          else Some (1, off, ctx, s)) = Some (st :: int, o1, c1, s1)"
        and rest: "(if st \<le> 0 then Some (st, None, c1, s1)
          else do {
            dent \<leftarrow> dent_buf c1 o1;
            (if d_isdir dent then Some (0, Some (dent, o1 + d_reclen dent), c1, s1)
             else f S fd start (o1 + d_reclen dent) c1 s1)
          }) = Some res"
        by (auto split: bind_splits)
      have c1: "on_stack c1 = on_stack ctx \<and> opened s1 = opened s"
      proof (cases "off = dent_buf_used ctx")
        case True
        obtain n ds s2 where g: "sys_getdents S s fd DIRENT_BUFSIZE = (n, ds, s2)"
          by (cases "sys_getdents S s fd DIRENT_BUFSIZE") auto
        have "s1 = s2 \<and> on_stack c1 = on_stack ctx"
          using read True g by (auto simp: Let_def split: if_splits)
        then show ?thesis using fd_laws_keep(2) [OF S g] by simp
      qed (use read in auto)
      show "on_stack ctx' = on_stack ctx \<and> opened s' = opened s"
      proof (cases "st \<le> 0")
        case True
        then show ?thesis using rest res c1 by simp
      next
        case False
        then obtain dent where d: "dent_buf c1 o1 = Some dent"
          and go: "(if d_isdir dent then Some (0, Some (dent, o1 + d_reclen dent), c1, s1)
             else f S fd start (o1 + d_reclen dent) c1 s1) = Some res"
          using rest by (auto split: bind_splits)
        show ?thesis
        proof (cases "d_isdir dent")
          case True
          then show ?thesis using go res c1 by simp
        next
          case False
          then have "f S fd start (o1 + d_reclen dent) c1 s1 = Some (r, d, ctx', s')"
            using go res by simp
          from 1(1) [OF this] S c1 show ?thesis by simp
        qed
      qed
    qed
  qed
  with assms show ?thesis by blast
qed

lemma next_subdir_keep:
  assumes S: "fd_laws S opened" and sub: "next_subdir S i ctx s = Some (r, d, ctx', s')"
    and inv: "fd_inv base (opened s) (on_stack ctx) j"
  shows "fd_inv base (opened s') (on_stack ctx') j"
proof -
  obtain dir where dir: "get_odir (on_stack ctx) i = Some dir"
    using sub by (auto simp: next_subdir_def split: bind_splits)
  obtain st f c1 where l: "next_subdir_loop S (od_fd dir) (dent_start dir) (dent_off dir) ctx s = Some (st, f, c1, s')"
    and c': "case f of None \<Rightarrow> ctx' = c1 | Some (_, off) \<Rightarrow> ctx' = put_odir i (dir\<lparr>dent_off := off\<rparr>) c1"
    using sub dir by (auto simp: next_subdir_def split: bind_splits option.splits)
  note keep = next_subdir_loop_keep [OF l S]
  show ?thesis
    using c' keep inv fd_inv_put [OF inv dir]
    by (auto simp: put_odir_def split: option.splits)
qed

lemma subdir_up_keep:
  assumes S: "fd_laws S opened"
  shows "subdir_up S i ctx s = Some (r, d, i', ctx', s') \<Longrightarrow> fd_inv base (opened s) (on_stack ctx) i \<Longrightarrow>
    fd_inv base (opened s') (on_stack ctx') i'"
proof (induction i arbitrary: ctx s)
  case 0
  then show ?case by (auto split: bind_splits dest: next_subdir_keep [OF S])
next
  case (Suc i)
  obtain r1 d1 c1 s1 where sub: "next_subdir S (Suc i) ctx s = Some (r1, d1, c1, s1)"
    using Suc.prems(1) by (auto split: bind_splits)
  note keep = next_subdir_keep [OF S sub Suc.prems(2)]
  show ?case
  proof (cases "r1 < 0 \<or> d1 \<noteq> None")
    case True
    with Suc.prems(1) sub keep show ?thesis by (auto split: if_splits)
  next
    case False
    with Suc.prems(1) sub obtain dir where dir: "get_odir (on_stack c1) (Suc i) = Some dir"
      and up: "subdir_up S i (c1\<lparr>dent_buf_used := dent_start dir\<rparr>) (sys_close S s1 (od_fd dir)) =
        Some (r, d, i', ctx', s')"
      by (auto split: bind_splits)
    show ?thesis
      by (rule Suc.IH [OF up]) (use fd_inv_pop [OF S keep dir] in simp)
  qed
qed

lemma open_subdir_keep:
  assumes S: "fd_laws S opened" and op: "open_subdir S dirfd name s = (fd, ino, s')"
  shows "if fd < 0 then opened s' = opened s else fd \<notin> opened s \<and> opened s' = insert fd (opened s)"
proof -
  obtain fd1 s1 where o1: "sys_openat S s dirfd name = (fd1, s1)" by (cases "sys_openat S s dirfd name")
  obtain st i1 s2 where f1: "sys_fstat S s1 fd1 = (st, i1, s2)" by (cases "sys_fstat S s1 fd1") auto
  note s2 = fd_laws_keep(1) [OF S f1]
  show ?thesis
  proof (cases "fd1 < 0")
    case True
    with op o1 show ?thesis using fd_laws_openat [OF S o1] by (auto simp: open_subdir_def)
  next
    case False
    then have new: "fd1 \<notin> opened s \<and> opened s1 = insert fd1 (opened s)"
      using fd_laws_openat [OF S o1] by simp
    show ?thesis
    proof (cases "st = 0")
      case True
      with op o1 f1 False new s2 show ?thesis by (auto simp: open_subdir_def)
    next
      case False
      have "opened (sys_close S s2 fd1) = opened s"
        using fd_laws_close [OF S, of fd1 s2] new s2 by auto
      with op o1 f1 \<open>\<not> fd1 < 0\<close> False show ?thesis by (auto simp: open_subdir_def)
    qed
  qed
qed

lemma next_loop_online_keep:
  assumes "next_loop_online S i entry ctx s = Some res" "fd_laws S opened"
    "fd_inv base (opened s) (on_stack ctx) i"
  shows "case res of (r, i', entry', ctx', s') \<Rightarrow> fd_inv base (opened s') (on_stack ctx') i'"
proof -
  have "fd_laws S opened \<longrightarrow> fd_inv base (opened s) (on_stack ctx) i \<longrightarrow>
      (case res of (r, i', entry', ctx', s') \<Rightarrow> fd_inv base (opened s') (on_stack ctx') i')"
  proof (rule next_loop_online.raw_induct [OF _ assms(1)], goal_cases)
    case (1 f S i entry ctx s res)
    show ?case
    proof (intro impI)
      assume S: "fd_laws S opened" and inv: "fd_inv base (opened s) (on_stack ctx) i"
      note IH = 1(1) [rule_format, OF _ S]
      obtain dir where dir: "get_odir (on_stack ctx) i = Some dir" using fd_inv_top [OF inv] by auto
      show "case res of (r, i', entry', ctx', s') \<Rightarrow> fd_inv base (opened s') (on_stack ctx') i'"
      proof (cases "has_flag (od_flags dir) FSCK_DIR_DONE")
        case False
        obtain r d s1 where nx: "ioctl_next S s (od_fd dir) (hd_data entry) = (r, d, s1)"
          by (cases "ioctl_next S s (od_fd dir) (hd_data entry)") auto
        note s1 = fd_laws_keep(6) [OF S nx]
        have upd: "fd_inv base (opened s1) (on_stack (put_odir i (dir\<lparr>od_flags := x\<rparr>) ctx)) i" for x
          using fd_inv_put [OF inv dir] s1 by (simp add: put_odir_def)
        show ?thesis
          using 1(2) dir False nx s1 inv IH [OF _ upd] by (auto split: if_splits)
      next
        case True
        show ?thesis
        proof (cases "has_flag (on_flags ctx) FSCK_OP_RECURSIVE")
          case False
          with 1(2) dir True inv show ?thesis by auto
        next
          case rec: True
          obtain r d i1 c1 s1 where up: "subdir_up S i ctx s = Some (r, d, i1, c1, s1)"
            using 1(2) dir True rec by (auto split: bind_splits)
          note inv1 = subdir_up_keep [OF S up inv]
          show ?thesis
          proof (cases "r < 0 \<or> d = None")
            case True
            with 1(2) dir \<open>has_flag (od_flags dir) FSCK_DIR_DONE\<close> rec up inv1 show ?thesis
              by (auto split: if_splits)
          next
            case False
            then obtain dent where dent: "d = Some dent" "\<not> r < 0" by auto
            obtain dir1 where dir1: "get_odir (on_stack c1) i1 = Some dir1"
              using fd_inv_top [OF inv1] by auto
            obtain fd ino s2 where op: "open_subdir S (od_fd dir1) (d_name dent) s1 = (fd, ino, s2)"
              by (cases "open_subdir S (od_fd dir1) (d_name dent) s1") auto
            note keep = open_subdir_keep [OF S op]
            show ?thesis
            proof (cases "fd < 0")
              case True
              with 1(2) dir \<open>has_flag (od_flags dir) FSCK_DIR_DONE\<close> rec up dent dir1 op keep inv1
              show ?thesis by auto
            next
              case False
              then have new: "fd \<notin> opened s1" "opened s2 = insert fd (opened s1)" using keep by simp_all
              obtain i2 c2 where push: "push_odir \<lparr>od_id = ino, od_fd = fd, od_flags = 0,
                    dent_start = dent_buf_used c1, dent_off = dent_buf_used c1\<rparr> i1 c1 = Some (i2, c2)"
                and go: "f S i2 entry c2 s2 = Some res"
                using 1(2) dir \<open>has_flag (od_flags dir) FSCK_DIR_DONE\<close> rec up dent dir1 op False
                by (auto split: bind_splits)
              have "fd_inv base (opened s2) (on_stack c2) i2"
                using fd_inv_push [OF inv1 push] new by simp
              from IH [OF go this] show ?thesis .
            qed
          qed
        qed
      qed
    qed
  qed
  with assms show ?thesis by blast
qed

definition online_inv :: "('s \<Rightarrow> int set) \<Rightarrow> int set \<Rightarrow> online_ctx \<times> 's \<Rightarrow> bool" where
  "online_inv opened base cs \<longleftrightarrow> fd_inv base (opened (snd cs)) (on_stack (fst cs)) (on_top (fst cs))"

lemma fsck_next_online_keep:
  assumes S: "fd_laws S opened" and inv: "online_inv opened base cs"
    and "fsck_next_online S entry cs = Some (r, entry', cs')"
  shows "online_inv opened base cs'"
proof (cases cs)
  case (Pair ctx s)
  show ?thesis
  proof (cases "has_flag (on_flags ctx) FSCK_ALL_DONE")
    case True
    with assms Pair show ?thesis by (auto simp: fsck_next_online_def)
  next
    case False
    then obtain r1 i e c1 s1 where nl: "next_loop_online S (on_top ctx) entry ctx s = Some (r1, i, e, c1, s1)"
      and cs': "cs' = (c1\<lparr>on_top := i\<rparr>, s1)"
      using assms(3) Pair by (auto simp: fsck_next_online_def split: bind_splits)
    show ?thesis
      using next_loop_online_keep [OF nl S] inv Pair cs' by (auto simp: online_inv_def)
  qed
qed

lemma fsck_apply_online_keep:
  assumes S: "fd_laws S opened" and inv: "online_inv opened base cs"
    and "fsck_apply_online S entry cs = Some (r, entry', cs')"
  shows "online_inv opened base cs'"
proof (cases cs)
  case (Pair ctx s)
  show ?thesis
    using assms(3) inv Pair
    by (auto simp: fsck_apply_online_def online_inv_def split: if_splits bind_splits prod.splits
        dest!: fd_laws_keep(7) [OF S])
qed

lemma close_above_keep:
  assumes S: "fd_laws S opened"
  shows "close_above S st n s = Some s' \<Longrightarrow> fd_inv base (opened s) st n \<Longrightarrow> fd_inv base (opened s') st 0"
proof (induction n arbitrary: s)
  case (Suc n)
  then obtain dir where dir: "get_odir st (Suc n) = Some dir"
    and rest: "close_above S st n (sys_close S s (od_fd dir)) = Some s'"
    by (auto split: bind_splits)
  show ?case by (rule Suc.IH [OF rest fd_inv_pop [OF S Suc.prems(2) dir]])
qed simp

lemma reset_top_online_keep:
  assumes S: "fd_laws S opened" and "fd_inv base (opened s) (on_stack ctx) 0" "on_top ctx = 0"
    and "reset_top_online S ctx s = Some (r, ctx', s')"
  shows "online_inv opened base (ctx', s')"
proof -
  obtain dir where dir: "get_odir (on_stack ctx) 0 = Some dir" using fd_inv_top [OF assms(2)] by auto
  obtain r1 s1 where rw: "ioctl_rewind S s (od_fd dir) = (r1, s1)" by (cases "ioctl_rewind S s (od_fd dir)")
  obtain r2 s2 where ls: "sys_lseek_start S s1 (od_fd dir) = (r2, s2)"
    by (cases "sys_lseek_start S s1 (od_fd dir)")
  have s: "opened s1 = opened s" "opened s2 = opened s"
    using fd_laws_keep(5) [OF S rw] fd_laws_keep(3) [OF S ls] by simp_all
  show ?thesis
    using assms(2-4) dir rw ls s fd_inv_put [OF assms(2) dir]
    by (auto simp: reset_top_online_def online_inv_def put_odir_def split: if_splits)
qed

lemma fsck_control_online_keep:
  assumes S: "fd_laws S opened" and inv: "online_inv opened base cs"
    and ct: "fsck_control_online S control cs = Some (r, cs')"
  shows "online_inv opened base cs'"
proof -
  obtain ctx s where cs: "cs = (ctx, s)" by (cases cs)
  have inv1: "fd_inv base (opened s) (on_stack ctx) (on_top ctx)" using inv by (simp add: online_inv_def cs)
  obtain dir where dir: "get_odir (on_stack ctx) (on_top ctx) = Some dir" using fd_inv_top [OF inv1] by auto
  obtain r1 s1 where rw: "ioctl_rewind S s (od_fd dir) = (r1, s1)" by (cases "ioctl_rewind S s (od_fd dir)")
  obtain r2 s2 where fs: "sys_fsync S s (od_fd dir) = (r2, s2)" by (cases "sys_fsync S s (od_fd dir)")
  have keep: "opened s1 = opened s" "opened s2 = opened s"
    using fd_laws_keep(5) [OF S rw] fd_laws_keep(4) [OF S fs] by simp_all
  note put = fd_inv_put [OF inv1 dir, of "dir\<lparr>od_flags := x\<rparr>" for x]
  consider "control = FSCK_SKIP" | "control = FSCK_REWIND" | "control = FSCK_SKIP_CHILDREN"
    | "control = FSCK_RESET" | "control = FSCK_SAVE"
    using ct by (auto simp: fsck_control_online_def cs Let_def split: bind_splits if_splits)
  then show ?thesis
  proof cases
    case 1
    with ct cs dir rw keep put show ?thesis
      by (auto simp: fsck_control_online_def online_inv_def put_odir_def)
  next
    case 2
    with ct cs dir rw keep inv1 show ?thesis
      by (auto simp: fsck_control_online_def online_inv_def control_defs)
  next
    case 3
    show ?thesis
    proof (cases "on_top ctx")
      case 0
      with 3 ct cs dir inv1 show ?thesis
        by (auto simp: fsck_control_online_def online_inv_def control_defs)
    next
      case (Suc n)
      with inv1 dir have "fd_inv base (opened (sys_close S s (od_fd dir))) (on_stack ctx) n"
        by (intro fd_inv_pop [OF S]) simp_all
      with 3 ct cs dir Suc show ?thesis
        by (auto simp: fsck_control_online_def online_inv_def control_defs)
    qed
  next
    case 4
    then obtain s3 where ca: "close_above S (on_stack ctx) (on_top ctx) s = Some s3"
      and rt: "reset_top_online S (ctx\<lparr>on_top := 0\<rparr>) s3 = Some (r, cs')"
      using ct cs dir by (auto simp: fsck_control_online_def control_defs split: bind_splits)
    obtain c4 s4 where cs': "cs' = (c4, s4)" by (cases cs')
    show ?thesis
      unfolding cs' using close_above_keep [OF S ca inv1]
      by (intro reset_top_online_keep [OF S _ _ rt [unfolded cs']]) simp_all
  next
    case 5
    with ct cs dir fs keep inv1 show ?thesis
      by (auto simp: fsck_control_online_def online_inv_def control_defs split: if_splits)
  qed
qed

text \<open>An invariant of the three operations is an invariant of the main loop.\<close>

lemma fsck_loop_inv:
  fixes ops :: "'o fsck_ops"
  assumes "fsck_loop ops run at s = Some r"
    and "\<And>d o' r d' o''. P o' \<Longrightarrow> op_next ops d o' = Some (r, d', o'') \<Longrightarrow> P o''"
    and "\<And>c o' r o''. P o' \<Longrightarrow> op_control ops c o' = Some (r, o'') \<Longrightarrow> P o''"
    and "\<And>d o' r d' o''. P o' \<Longrightarrow> op_apply ops d o' = Some (r, d', o'') \<Longrightarrow> P o''"
    and "P (fst (snd (snd s)))"
  shows "P (fst (snd (snd (snd r))))"
proof -
  define good where "good ops \<longleftrightarrow>
    (\<forall>d o' r d' o''. P o' \<longrightarrow> op_next ops d o' = Some (r, d', o'') \<longrightarrow> P o'') \<and>
    (\<forall>c o' r o''. P o' \<longrightarrow> op_control ops c o' = Some (r, o'') \<longrightarrow> P o'') \<and>
    (\<forall>d o' r d' o''. P o' \<longrightarrow> op_apply ops d o' = Some (r, d', o'') \<longrightarrow> P o'')" for ops :: "'o fsck_ops"
  have "good ops \<longrightarrow> P (fst (snd (snd s))) \<longrightarrow> P (fst (snd (snd (snd r))))"
  proof (rule fsck_loop.raw_induct [OF _ assms(1)], goal_cases)
    case (1 f ops run at s r)
    note step = 1(2)
    show ?case
    proof (intro impI)
      assume good: "good ops" and P: "P (fst (snd (snd s)))"
      note IH = 1(1) [rule_format, OF _ good]
      obtain d ls o' h where s: "s = (d, ls, o', h)" by (cases s)
      have Po: "P o'" using P s by simp
      show "P (fst (snd (snd (snd r))))"
      proof (cases at)
        case None
        then obtain r1 d1 o1 where nx: "op_next ops d o' = Some (r1, d1, o1)"
          using step s by (auto split: bind_splits)
        have P1: "P o1" using good Po nx unfolding good_def by blast
        show ?thesis
        proof (cases "r1 < 0 \<or> r1 = FSCK_RESULT_END")
          case True
          with step None s nx P1 show ?thesis by (auto split: if_splits)
        next
          case False
          with step None s nx have "f ops run (Some r1) (d1, ls, o1, h) = Some r" by simp
          from IH [OF this] P1 show ?thesis by simp
        qed
      next
        case (Some result)
        then obtain r1 h1 d1 where hr: "run h result d = Some (r1, h1, d1)"
          using step s by (auto split: bind_splits)
        have ctl: "P o1" if "op_control ops r1 o' = Some (r2, o1)" for r2 o1
          using good Po that unfolding good_def by blast
        have app: "P o1" if "op_apply ops d1 o' = Some (r2, d2, o1)" for r2 d2 o1
          using good Po that unfolding good_def by blast
        consider "r1 < 0 \<or> r1 = FSCK_STOP" | "\<not> r1 < 0" "r1 = FSCK_NEXT"
          | "\<not> r1 < 0" "r1 = FSCK_APPLY" | "\<not> r1 < 0" "r1 = FSCK_USER_INPUT"
          | "\<not> r1 < 0" "r1 \<noteq> FSCK_NEXT" "r1 \<noteq> FSCK_STOP" "r1 \<noteq> FSCK_APPLY" "r1 \<noteq> FSCK_USER_INPUT"
          by blast
        then show ?thesis
        proof cases
          case 1
          with step Some s hr Po show ?thesis by (auto simp: control_defs split: if_splits)
        next
          case 2
          with step Some s hr have "f ops run None (d1, ls, o', h1) = Some r" by simp
          from IH [OF this] Po show ?thesis by simp
        next
          case 3
          then obtain r2 d2 o2 where ap: "op_apply ops d1 o' = Some (r2, d2, o2)"
            using step Some s hr by (auto simp: control_defs split: bind_splits)
          have P2: "P o2" by (rule app [OF ap])
          show ?thesis
          proof (cases "r2 < 0")
            case True
            with 3 step Some s hr ap P2 show ?thesis by (auto simp: control_defs)
          next
            case False
            with 3 step Some s hr ap
            have "f ops run (Some (if r2 = FSCK_RESULT_END then -1 else r2)) (d2, ls, o2, h1) = Some r"
              by (simp add: control_defs)
            from IH [OF this] P2 show ?thesis by simp
          qed
        next
          case 4
          show ?thesis
          proof (cases ls)
            case Nil
            with 4 step Some s hr Po show ?thesis by (auto simp: control_defs)
          next
            case (Cons l ls')
            with 4 step Some s hr
            have "f ops run (Some (-1)) (d1\<lparr>hd_head := Str (l @ [0])\<rparr>, ls', o', h1) = Some r"
              by (simp add: control_defs)
            from IH [OF this] Po show ?thesis by simp
          qed
        next
          case 5
          then obtain r2 o2 where ct: "op_control ops r1 o' = Some (r2, o2)"
            using step Some s hr by (auto split: bind_splits)
          have P2: "P o2" by (rule ctl [OF ct])
          show ?thesis
          proof (cases "r2 < 0")
            case True
            with 5 step Some s hr ct P2 show ?thesis by auto
          next
            case False
            with 5 step Some s hr ct have "f ops run (Some (-1)) (d1, ls, o2, h1) = Some r" by simp
            from IH [OF this] P2 show ?thesis by simp
          qed
        qed
      qed
    qed
  qed
  moreover have "good ops" unfolding good_def using assms(2-4) by blast
  ultimately show ?thesis using assms(5) by blast
qed

lemma close_dirs_ok:
  assumes S: "fd_laws S opened"
  shows "\<forall>j \<in> set js. get_odir st j \<noteq> None \<Longrightarrow> distinct (map (\<lambda>j. od_fd (the (get_odir st j))) js) \<Longrightarrow>
    set (map (\<lambda>j. od_fd (the (get_odir st j))) js) \<subseteq> opened s \<Longrightarrow>
    \<exists>s'. close_dirs S st js s = Some s' \<and>
      opened s' = opened s - set (map (\<lambda>j. od_fd (the (get_odir st j))) js)"
proof (induction js arbitrary: s)
  case (Cons j js)
  then obtain dir where dir: "get_odir st j = Some dir" by auto
  have close: "opened (sys_close S s (od_fd dir)) = opened s - {od_fd dir}"
    using Cons.prems(3) dir by (intro fd_laws_close [OF S]) simp
  define fs where "fs = map (\<lambda>j. od_fd (the (get_odir st j))) js"
  have fs: "od_fd dir \<notin> set fs" "distinct fs" "set fs \<subseteq> opened s"
    using Cons.prems(2,3) dir by (simp_all add: fs_def)
  have "\<exists>s'. close_dirs S st js (sys_close S s (od_fd dir)) = Some s' \<and>
      opened s' = opened (sys_close S s (od_fd dir)) - set (map (\<lambda>j. od_fd (the (get_odir st j))) js)"
    unfolding fs_def [symmetric]
    by (rule Cons.IH [folded fs_def]) (use Cons.prems(1) fs close in auto)
  then show ?case using dir close by auto
qed simp

lemma online_inv_create:
  assumes S: "fd_laws S opened" and "fsck_create_online S path flags s = (Inr ctx, s')"
  shows "online_inv opened (opened s) (ctx, s')"
proof -
  obtain fd s1 where o1: "sys_open S s path = (fd, s1)" by (cases "sys_open S s path")
  have fd: "\<not> fd < 0" and ctx: "s' = s1" "on_top ctx = 0"
    "get_odir (on_stack ctx) 0 = Some \<lparr>od_id = -1, od_fd = fd, od_flags = 0, dent_start = 0, dent_off = 0\<rparr>"
    using assms(2) o1 by (auto simp: fsck_create_online_def get_odir_def Let_def split: if_splits)
  then show ?thesis
    using fd_laws_open [OF S o1] by (simp add: online_inv_def fd_inv_def fds_def)
qed

text \<open>C21: the online checker neither leaks a file descriptor nor closes one twice.  From creation, through
  any run of the main loop with any handler, however it ends (done, stopped by the user, or failing
  at any system call), to the destruction, which always goes through: afterwards exactly those
  descriptors are open that were open before.\<close>

theorem fsck_online_fds:
  assumes "fd_laws S opened" "fsck_create_online S path flags s = (Inr ctx, s1)"
    "fsck_loop (fsck_online_ops S) run at (data, lines, (ctx, s1), h) = Some (status, data', lines', (ctx', s2), h')"
  shows "\<exists>s3. fsck_destroy_online S ctx' s2 = Some s3 \<and> opened s3 = opened s"
proof -
  have "online_inv opened (opened s) (fst (snd (snd (snd (status, data', lines', (ctx', s2), h')))))"
  proof (rule fsck_loop_inv [OF assms(3)])
    show "online_inv opened (opened s) o''"
      if "online_inv opened (opened s) o'" "op_next (fsck_online_ops S) d o' = Some (r, d', o'')"
      for d o' r d' o''
      using fsck_next_online_keep [OF assms(1) that(1)] that(2) by (simp add: fsck_online_ops_def)
    show "online_inv opened (opened s) o''"
      if "online_inv opened (opened s) o'" "op_control (fsck_online_ops S) c o' = Some (r, o'')"
      for c o' r o''
      using fsck_control_online_keep [OF assms(1) that(1)] that(2) by (simp add: fsck_online_ops_def)
    show "online_inv opened (opened s) o''"
      if "online_inv opened (opened s) o'" "op_apply (fsck_online_ops S) d o' = Some (r, d', o'')"
      for d o' r d' o''
      using fsck_apply_online_keep [OF assms(1) that(1)] that(2) by (simp add: fsck_online_ops_def)
    show "online_inv opened (opened s) (fst (snd (snd (data, lines, (ctx, s1), h))))"
      using online_inv_create [OF assms(1,2)] by simp
  qed
  then have inv: "fd_inv (opened s) (opened s2) (on_stack ctx') (on_top ctx')"
    by (simp add: online_inv_def)
  have "\<exists>s3. close_dirs S (on_stack ctx') [0..<Suc (on_top ctx')] s2 = Some s3 \<and>
      opened s3 = opened s2 - set (fds (on_stack ctx') (on_top ctx'))"
    using inv unfolding fds_def
    by (intro close_dirs_ok [OF assms(1)]) (auto simp: fd_inv_def fds_def)
  with inv show ?thesis by (auto simp: fsck_destroy_online_def fd_inv_def)
qed

text \<open>A system in which the descriptors are a set of numbers and every directory is empty.\<close>

definition demo_sys :: "int set sys" where
  "demo_sys = \<lparr>
     sys_open = (\<lambda>s p. (if 7 \<in> s then -1 else 7, insert 7 s)),
     sys_openat = (\<lambda>s d n. (-1, s)),
     sys_fstat = (\<lambda>s fd. (0, 5, s)),
     sys_close = (\<lambda>s fd. s - {fd}),
     sys_getdents = (\<lambda>s fd n. (0, [], s)),
     sys_lseek_start = (\<lambda>s fd. (0, s)),
     sys_fsync = (\<lambda>s fd. (0, s)),
     ioctl_rewind = (\<lambda>s fd. (0, s)),
     ioctl_next = (\<lambda>s fd d. (0, d, s)),
     ioctl_apply = (\<lambda>s fd d. (0, d, s)),
     sys_sandbox_enter = (\<lambda>s fd fl. (0, s))\<rparr>"

lemma demo_sys_laws: "fd_laws demo_sys (\<lambda>s. s)"
  unfolding fd_laws_def by (auto simp: demo_sys_def)

theorem fsck_online_fds_witness:
  "\<exists>ctx s1 data' ctx' s2 h' s3. fsck_create_online demo_sys [] 0 {1} = (Inr ctx, s1) \<and> s1 = {1, 7} \<and>
    fsck_loop (fsck_online_ops demo_sys) fsck_handler_run None
      (entry_of (0, 0, 0, 0, []), [], (ctx, s1), demo_handler) = Some (0, data', [], (ctx', s2), h') \<and>
    fsck_destroy_online demo_sys ctx' s2 = Some s3 \<and> s3 = {1}"
proof -
  obtain ctx where ctx: "fsck_create_online demo_sys [] 0 {1} = (Inr ctx, {1, 7})"
    and st: "on_stack ctx = [Some \<lparr>od_id = -1, od_fd = 7, od_flags = 0, dent_start = 0, dent_off = 0\<rparr>]"
    and fl: "on_top ctx = 0" "on_flags ctx = 0"
    by (simp add: fsck_create_online_def demo_sys_def has_flag_def insert_commute)
  define ctx' where "ctx' = put_odir 0 \<lparr>od_id = -1, od_fd = 7, od_flags = FSCK_DIR_DONE, dent_start = 0,
    dent_off = 0\<rparr> ctx"
  let ?e = "entry_of (0, 0, 0, 0, [])"
  have step2: "next_loop_online demo_sys 0 ?e ctx' {1, 7} = Some (0, 0, ?e, ctx', {1, 7})"
    using st fl by (subst next_loop_online.simps)
      (simp add: ctx'_def put_odir_def get_odir_def has_flag_def FSCK_DIR_DONE_def)
  have step1: "next_loop_online demo_sys 0 ?e ctx {1, 7} = Some (0, 0, ?e, ctx', {1, 7})"
    using st fl step2 by (subst next_loop_online.simps)
      (simp add: get_odir_def has_flag_def demo_sys_def FSCK_RESULT_END_def ctx'_def FSCK_DIR_DONE_def)
  have run: "fsck_loop (fsck_online_ops demo_sys) fsck_handler_run None (?e, [], (ctx, {1, 7}), demo_handler) =
      Some (0, ?e, [], (ctx'\<lparr>on_top := 0\<rparr>, {1, 7}), demo_handler)"
    using step1 fl by (subst fsck_loop.simps)
      (simp add: fsck_online_ops_def fsck_next_online_def has_flag_def FSCK_RESULT_END_def)
  show ?thesis
    using fsck_online_fds [OF demo_sys_laws ctx run] ctx run by blast
qed

end
