(* ===== verification/Jansson.thy ===== *)
theory Jansson
  imports Backend_Types
begin

text \<open>
  The Jansson library as the program uses it, and the macros of \<open>json.h\<close> over it.  The library is not
  part of the program: the record \<open>jansson\<close> holds its functions, over a state \<open>'j\<close> of all the values
  that exist, and \<open>jansson_ok\<close> states what its manual promises of them.  A value stays readable for as
  long as the program can reach it: reference counts are not modelled, so \<open>json_incref\<close> and
  \<open>json_decref\<close> do nothing here and a function that steals a reference is the one that does not.
\<close>

section \<open>The library\<close>

text \<open>\<open>json_t *\<close>; a function on a value of the wrong type, or on \<open>NULL\<close>, fails without effect.\<close>

type_synonym jref = ptr

record 'j jansson =
  js_new_object :: "'j \<Rightarrow> jref \<times> 'j"
  js_new_array :: "'j \<Rightarrow> jref \<times> 'j"
  js_new_integer :: "int \<Rightarrow> 'j \<Rightarrow> jref \<times> 'j"
  js_stringn :: "bytes \<Rightarrow> 'j \<Rightarrow> jref \<times> 'j"
  js_stringn_nocheck :: "bytes \<Rightarrow> 'j \<Rightarrow> jref \<times> 'j"
  js_object_getn :: "'j \<Rightarrow> jref \<Rightarrow> bytes \<Rightarrow> jref"
  js_object_setn_nocheck :: "jref \<Rightarrow> bytes \<Rightarrow> jref \<Rightarrow> 'j \<Rightarrow> 'j"
  js_object_update :: "jref \<Rightarrow> jref \<Rightarrow> 'j \<Rightarrow> 'j"
  js_object_values :: "'j \<Rightarrow> jref \<Rightarrow> jref list"
  js_string_value :: "'j \<Rightarrow> jref \<Rightarrow> bytes option"
  js_string_setn :: "jref \<Rightarrow> bytes \<Rightarrow> 'j \<Rightarrow> int \<times> 'j"
  js_string_setn_nocheck :: "jref \<Rightarrow> bytes \<Rightarrow> 'j \<Rightarrow> int \<times> 'j"
  js_array_size :: "'j \<Rightarrow> jref \<Rightarrow> nat"
  js_array_get :: "'j \<Rightarrow> jref \<Rightarrow> nat \<Rightarrow> jref"
  js_array_append :: "jref \<Rightarrow> jref \<Rightarrow> 'j \<Rightarrow> 'j"
  js_array_insert :: "jref \<Rightarrow> nat \<Rightarrow> jref \<Rightarrow> 'j \<Rightarrow> 'j"
  js_array_remove :: "jref \<Rightarrow> nat \<Rightarrow> 'j \<Rightarrow> 'j"
  js_array_set :: "jref \<Rightarrow> nat \<Rightarrow> jref \<Rightarrow> 'j \<Rightarrow> 'j"
  js_integer_value :: "'j \<Rightarrow> jref \<Rightarrow> int"
  js_equal :: "'j \<Rightarrow> jref \<Rightarrow> jref \<Rightarrow> bool"
  js_copy :: "jref \<Rightarrow> 'j \<Rightarrow> jref \<times> 'j"
  js_loadb :: "bytes \<Rightarrow> 'j \<Rightarrow> jref \<times> 'j"
  js_dump_chunks :: "'j \<Rightarrow> jref \<Rightarrow> bytes list option"

text \<open>
  \<open>js_object_values\<close> are the values that \<open>json_object_iter\<close> and \<open>json_object_iter_next\<close> run through,
  \<open>js_string_value\<close> is \<open>json_string_value\<close> with the \<open>json_string_length\<close> bytes it points to,
  \<open>js_loadb\<close> is \<open>json_loadb\<close> with the flag \<open>JSON_REJECT_DUPLICATES\<close>, and \<open>js_dump_chunks\<close> are the
  pieces that \<open>json_dump_callback\<close> with the flag \<open>JSON_COMPACT\<close> gives to its callback, \<open>None\<close> if the
  value cannot be encoded.
\<close>

section \<open>The macros of json.h\<close>

definition json_object_sget :: "'j jansson \<Rightarrow> 'j \<Rightarrow> jref \<Rightarrow> string \<Rightarrow> jref" where
  "json_object_sget J j obj key = js_object_getn J j obj (str key)"

definition json_object_sset :: "'j jansson \<Rightarrow> jref \<Rightarrow> string \<Rightarrow> jref \<Rightarrow> 'j \<Rightarrow> 'j" where
  "json_object_sset J obj key value j = js_object_setn_nocheck J obj (str key) value j"

definition json_sstring :: "'j jansson \<Rightarrow> string \<Rightarrow> 'j \<Rightarrow> jref \<times> 'j" where
  "json_sstring J s j = js_stringn_nocheck J (str s) j"

definition json_object_sset_copy :: "'j jansson \<Rightarrow> jref \<Rightarrow> string \<Rightarrow> jref \<Rightarrow> 'j \<Rightarrow> 'j" where
  "json_object_sset_copy J obj key value j =
     (let (copy, j) = js_copy J value j in json_object_sset J obj key copy j)"

definition js_string_length :: "'j jansson \<Rightarrow> 'j \<Rightarrow> jref \<Rightarrow> nat" where
  "js_string_length J j r = (case js_string_value J j r of None \<Rightarrow> 0 | Some s \<Rightarrow> length s)"

section \<open>What the manual promises\<close>

text \<open>
  A value is seen through \<open>view\<close>: \<open>None\<close> where there is no value.  \<open>utf8\<close> says which byte strings are
  valid UTF-8.
\<close>

datatype jvalue =
    JObject "bytes \<Rightarrow> jref option"
  | JArray "jref list"
  | JString bytes
  | JInteger int
  | JOther

type_synonym 'j jview = "'j \<Rightarrow> jref \<Rightarrow> jvalue option"

definition as_object :: "jvalue option \<Rightarrow> bytes \<Rightarrow> jref option" where
  "as_object v k = (case v of Some (JObject m) \<Rightarrow> m k | _ \<Rightarrow> None)"

definition as_array :: "jvalue option \<Rightarrow> jref list" where
  "as_array v = (case v of Some (JArray xs) \<Rightarrow> xs | _ \<Rightarrow> [])"

definition as_string :: "jvalue option \<Rightarrow> bytes option" where
  "as_string v = (case v of Some (JString s) \<Rightarrow> Some s | _ \<Rightarrow> None)"

lemma as_simps [simp]:
  "as_object None k = None" "as_object (Some (JObject m)) k = m k"
  "as_object (Some (JArray xs)) k = None" "as_object (Some (JString s)) k = None"
  "as_array None = []" "as_array (Some (JObject m)) = []" "as_array (Some (JArray xs)) = xs"
  "as_array (Some (JString s)) = []"
  "as_object (Some (JInteger i)) k = None" "as_array (Some (JInteger i)) = []" "as_string (Some (JInteger i)) = None"
  "as_string None = None" "as_string (Some (JObject m)) = None"
  "as_string (Some (JArray xs)) = None" "as_string (Some (JString s)) = Some s"
  by (simp_all add: as_object_def as_array_def as_string_def)

text \<open>Allocation gives a value that did not exist, and leaves the others alone.\<close>

definition allocates :: "'j jview \<Rightarrow> jvalue \<Rightarrow> 'j \<Rightarrow> jref \<times> 'j \<Rightarrow> bool" where
  "allocates view v j r \<longleftrightarrow> fst r \<noteq> NULL \<and> view j (fst r) = None \<and> view (snd r) = (view j)(fst r \<mapsto> v)"

definition jansson_reads :: "'j jview \<Rightarrow> 'j jansson \<Rightarrow> bool" where
  "jansson_reads view J \<longleftrightarrow>
     (\<forall>j. view j NULL = None) \<and>
     (\<forall>j r k. js_object_getn J j r k = (case as_object (view j r) k of Some v \<Rightarrow> v | None \<Rightarrow> NULL)) \<and>
     (\<forall>j r. js_string_value J j r = as_string (view j r)) \<and>
     (\<forall>j r. js_array_size J j r = length (as_array (view j r))) \<and>
     (\<forall>j r i. js_array_get J j r i =
        (if i < length (as_array (view j r)) then as_array (view j r) ! i else NULL)) \<and>
     (\<forall>j r m. view j r = Some (JObject m) \<longrightarrow>
        (\<exists>ks. distinct ks \<and> set ks = dom m \<and> js_object_values J j r = map (the \<circ> m) ks)) \<and>
     (\<forall>j r. (\<forall>m. view j r \<noteq> Some (JObject m)) \<longrightarrow> js_object_values J j r = []) \<and>
     (\<forall>j r m k v. view j r = Some (JObject m) \<longrightarrow> m k = Some v \<longrightarrow> v \<noteq> NULL) \<and>
     (\<forall>j r xs. view j r = Some (JArray xs) \<longrightarrow> NULL \<notin> set xs)"

definition jansson_news :: "(bytes \<Rightarrow> bool) \<Rightarrow> 'j jview \<Rightarrow> 'j jansson \<Rightarrow> bool" where
  "jansson_news utf8 view J \<longleftrightarrow>
     (\<forall>j. allocates view (JObject Map.empty) j (js_new_object J j)) \<and>
     (\<forall>j. allocates view (JArray []) j (js_new_array J j)) \<and>
     (\<forall>j i. allocates view (JInteger i) j (js_new_integer J i j)) \<and>
     (\<forall>j s. if utf8 s then allocates view (JString s) j (js_stringn J s j)
            else fst (js_stringn J s j) = NULL \<and> view (snd (js_stringn J s j)) = view j) \<and>
     (\<forall>j s. allocates view (JString s) j (js_stringn_nocheck J s j)) \<and>
     (\<forall>j r v. view j r = Some v \<longrightarrow> allocates view v j (js_copy J r j))"

definition jansson_writes :: "(bytes \<Rightarrow> bool) \<Rightarrow> 'j jview \<Rightarrow> 'j jansson \<Rightarrow> bool" where
  "jansson_writes utf8 view J \<longleftrightarrow>
     (\<forall>j r m k v. view j r = Some (JObject m) \<longrightarrow> v \<noteq> NULL \<longrightarrow>
        view (js_object_setn_nocheck J r k v j) = (view j)(r \<mapsto> JObject (m(k \<mapsto> v)))) \<and>
     (\<forall>j r m o' m'. view j r = Some (JObject m) \<longrightarrow> view j o' = Some (JObject m') \<longrightarrow>
        view (js_object_update J r o' j) = (view j)(r \<mapsto> JObject (m ++ m'))) \<and>
     (\<forall>j r s s'. view j r = Some (JString s) \<longrightarrow>
        fst (js_string_setn_nocheck J r s' j) = 0 \<and>
        view (snd (js_string_setn_nocheck J r s' j)) = (view j)(r \<mapsto> JString s')) \<and>
     (\<forall>j r s s'. view j r = Some (JString s) \<longrightarrow> utf8 s' \<longrightarrow>
        js_string_setn J r s' j = js_string_setn_nocheck J r s' j) \<and>
     (\<forall>j r s'. \<not> utf8 s' \<longrightarrow> fst (js_string_setn J r s' j) = -1 \<and>
        view (snd (js_string_setn J r s' j)) = view j) \<and>
     (\<forall>j r xs v. view j r = Some (JArray xs) \<longrightarrow> v \<noteq> NULL \<longrightarrow>
        view (js_array_append J r v j) = (view j)(r \<mapsto> JArray (xs @ [v]))) \<and>
     (\<forall>j r xs i v. view j r = Some (JArray xs) \<longrightarrow> v \<noteq> NULL \<longrightarrow> i \<le> length xs \<longrightarrow>
        view (js_array_insert J r i v j) = (view j)(r \<mapsto> JArray (take i xs @ v # drop i xs))) \<and>
     (\<forall>j r xs i. view j r = Some (JArray xs) \<longrightarrow> i < length xs \<longrightarrow>
        view (js_array_remove J r i j) = (view j)(r \<mapsto> JArray (take i xs @ drop (Suc i) xs))) \<and>
     (\<forall>j r xs i v. view j r = Some (JArray xs) \<longrightarrow> v \<noteq> NULL \<longrightarrow> i < length xs \<longrightarrow>
        view (js_array_set J r i v j) = (view j)(r \<mapsto> JArray (xs[i := v])))"

definition jansson_ok :: "(bytes \<Rightarrow> bool) \<Rightarrow> 'j jview \<Rightarrow> 'j jansson \<Rightarrow> bool" where
  "jansson_ok utf8 view J \<longleftrightarrow> jansson_reads view J \<and> jansson_news utf8 view J \<and> jansson_writes utf8 view J"

end
