(* ===== verification/Xio.thy ===== *)
theory Xio
  imports C_Strings Backend_Types "HOL-Library.Monad_Syntax"
begin

text \<open>
  The wrappers of system calls in \<open>xstd.c\<close> that retry: \<open>xwritev\<close>, \<open>xfsync\<close> and \<open>xread\<close>.  The kernel is
  the record \<open>os\<close> over a state \<open>'w\<close> of the world.  A call returns its result, or minus the error number.
  A call of \<open>abort\<close>, and a loop that never ends, are the value \<open>None\<close>.
\<close>

section \<open>The kernel\<close>

definition EINTR :: int where "EINTR = 4"

record file_stat =
  st_size :: nat
  st_blksize :: nat

record 'w os =
  os_openat :: "int \<Rightarrow> bytes \<Rightarrow> u32 \<Rightarrow> 'w \<Rightarrow> int \<times> 'w"
  os_open :: "bytes \<Rightarrow> u32 \<Rightarrow> 'w \<Rightarrow> int \<times> 'w"
  os_close :: "int \<Rightarrow> 'w \<Rightarrow> 'w"
  os_fstat :: "int \<Rightarrow> 'w \<Rightarrow> (int \<times> file_stat) \<times> 'w"
  os_mmap :: "int \<Rightarrow> nat \<Rightarrow> 'w \<Rightarrow> bytes option \<times> 'w"
  os_read :: "int \<Rightarrow> nat \<Rightarrow> 'w \<Rightarrow> (int \<times> bytes) \<times> 'w"
  os_writev :: "int \<Rightarrow> bytes list \<Rightarrow> 'w \<Rightarrow> int \<times> 'w"
  os_fsync :: "int \<Rightarrow> 'w \<Rightarrow> int \<times> 'w"
  os_renameat :: "int \<Rightarrow> bytes \<Rightarrow> bytes \<Rightarrow> 'w \<Rightarrow> int \<times> 'w"
  os_unlinkat :: "int \<Rightarrow> bytes \<Rightarrow> 'w \<Rightarrow> int \<times> 'w"
  os_realtime :: "'w \<Rightarrow> timespec \<times> 'w"

text \<open>
  \<open>os_open\<close> is \<open>open\<close>, with mode 0600 where it creates; \<open>os_mmap\<close> gives the bytes of the mapping;
  \<open>os_renameat\<close> renames within one directory.
\<close>

section \<open>The wrappers\<close>

partial_function (option) xfsync :: "'w os \<Rightarrow> int \<Rightarrow> 'w \<Rightarrow> (int \<times> 'w) option" where
  "xfsync S fd w =
     (case os_fsync S fd w of (status, w) \<Rightarrow>
        if status = 0 then Some (0, w)
        else if status = - EIO then None
        else if status = - EINTR then xfsync S fd w
        else Some (-1, w))"

text \<open>
  The inner loop of \<open>xwritev\<close>: the vectors that are left after \<open>n\<close> bytes, \<open>None\<close> when nothing is left.
\<close>

fun iov_advance :: "nat \<Rightarrow> bytes list \<Rightarrow> bytes list option" where
  "iov_advance n [] = None"
| "iov_advance n (iov # iovs) =
     (if length iov \<le> n then (if iovs = [] then None else iov_advance (n - length iov) iovs)
      else Some (drop n iov # iovs))"

partial_function (option) xwritev :: "'w os \<Rightarrow> int \<Rightarrow> bytes list \<Rightarrow> 'w \<Rightarrow> (int \<times> 'w) option" where
  "xwritev S fd iovs w =
     (case os_writev S fd iovs w of (nbytes, w) \<Rightarrow>
        if nbytes < 0 then
          (if nbytes = - EIO then None
           else if nbytes = - EINTR then xwritev S fd iovs w
           else Some (-1, w))
        else (case iov_advance (nat nbytes) iovs of
                None \<Rightarrow> Some (0, w)
              | Some iovs \<Rightarrow> xwritev S fd iovs w))"

text \<open>\<open>xread\<close>: the bytes read so far are \<open>buf\<close>, of the \<open>bufsz\<close> that are wanted.\<close>

function xread_loop :: "'w os \<Rightarrow> int \<Rightarrow> nat \<Rightarrow> bytes \<Rightarrow> 'w \<Rightarrow> (int \<times> bytes) \<times> 'w" where
  "xread_loop S fd bufsz buf w =
     (if length buf < bufsz then
        (case os_read S fd (bufsz - length buf) w of ((len, data), w) \<Rightarrow>
           if len < 0 then ((-1, buf), w)
           else if data = [] then ((int (length buf), buf), w)
           else xread_loop S fd bufsz (buf @ data) w)
      else ((int (length buf), buf), w))"
  by pat_completeness auto
termination
  by (relation "measure (\<lambda>(S, fd, bufsz, buf, w). bufsz - length buf)")
    (auto simp flip: length_greater_0_conv)

declare xread_loop.simps [simp del]

definition xread :: "'w os \<Rightarrow> int \<Rightarrow> nat \<Rightarrow> 'w \<Rightarrow> (int \<times> bytes) \<times> 'w" where
  "xread S fd bufsz w = xread_loop S fd bufsz [] w"

definition xgetrealtime :: "'w os \<Rightarrow> 'w \<Rightarrow> timespec \<times> 'w" where
  "xgetrealtime S w = os_realtime S w"

section \<open>What the kernel promises of a directory and its files\<close>

text \<open>
  The directory that \<open>d\<close> is open on maps names to files, an open descriptor has a file, a file has its
  bytes.  Nobody else changes them.
\<close>

record 'w os_view =
  v_dir :: "'w \<Rightarrow> bytes \<Rightarrow> nat option"
  v_fd :: "'w \<Rightarrow> int \<Rightarrow> nat option"
  v_data :: "'w \<Rightarrow> nat \<Rightarrow> bytes"

definition os_quiet :: "'w os_view \<Rightarrow> 'w \<Rightarrow> 'w \<Rightarrow> bool" where
  "os_quiet V w w' \<longleftrightarrow> v_dir V w' = v_dir V w \<and> v_fd V w' = v_fd V w \<and> v_data V w' = v_data V w"

definition os_writes :: "'w os_view \<Rightarrow> 'w os \<Rightarrow> bool" where
  "os_writes V S \<longleftrightarrow>
     (\<forall>fd iovs w n w'. os_writev S fd iovs w = (n, w') \<longrightarrow>
        (if n < 0 then os_quiet V w w'
         else nat n \<le> length (concat iovs) \<and> v_dir V w' = v_dir V w \<and> v_fd V w' = v_fd V w \<and>
           (\<exists>i. v_fd V w fd = Some i \<and>
              v_data V w' = (v_data V w)(i := v_data V w i @ take (nat n) (concat iovs))))) \<and>
     (\<forall>fd w. os_quiet V w (snd (os_fsync S fd w)) \<and> fst (os_fsync S fd w) \<le> 0) \<and>
     (\<forall>fd w. os_quiet V w (snd (os_fstat S fd w)))"

definition os_dir_ok :: "int \<Rightarrow> 'w os_view \<Rightarrow> 'w os \<Rightarrow> bool" where
  "os_dir_ok d V S \<longleftrightarrow> os_writes V S \<and>
     (\<forall>name fl w fd w'. os_openat S d name fl w = (fd, w') \<longrightarrow> fd < 0 \<longrightarrow> os_quiet V w w') \<and>
     (\<forall>name w fd w'. os_openat S d name (O_CREAT OR O_WRONLY OR O_EXCL) w = (fd, w') \<longrightarrow> 0 \<le> fd \<longrightarrow>
        v_dir V w name = None \<and>
        (\<exists>i. i \<notin> ran (v_dir V w) \<and> i \<notin> ran (v_fd V w) \<and> v_dir V w' = (v_dir V w)(name \<mapsto> i) \<and>
           v_fd V w' = (v_fd V w)(fd \<mapsto> i) \<and> v_data V w' = (v_data V w)(i := []))) \<and>
     (\<forall>a b w n w'. os_renameat S d a b w = (n, w') \<longrightarrow>
        (if n = 0 then v_dir V w' = (v_dir V w)(b := v_dir V w a, a := None) \<and>
           v_fd V w' = v_fd V w \<and> v_data V w' = v_data V w
         else os_quiet V w w')) \<and>
     (\<forall>a w n w'. os_unlinkat S d a w = (n, w') \<longrightarrow>
        (if n = 0 then v_dir V w' = (v_dir V w)(a := None) \<and>
           v_fd V w' = v_fd V w \<and> v_data V w' = v_data V w
         else os_quiet V w w')) \<and>
     (\<forall>fd w. v_dir V (os_close S fd w) = v_dir V w \<and> v_data V (os_close S fd w) = v_data V w)"

section \<open>Facts\<close>

lemma os_quiet_refl [simp]: "os_quiet V w w"
  by (simp add: os_quiet_def)

lemma os_quiet_trans: "os_quiet V w w' \<Longrightarrow> os_quiet V w' w'' \<Longrightarrow> os_quiet V w w''"
  by (simp add: os_quiet_def)

lemma iov_advance_concat:
  "n \<le> length (concat iovs) \<Longrightarrow> (case iov_advance n iovs of
     None \<Rightarrow> n = length (concat iovs) | Some iovs' \<Rightarrow> concat iovs' = drop n (concat iovs))"
proof (induction n iovs rule: iov_advance.induct)
  case (2 n iov iovs)
  show ?case
  proof (cases "length iov \<le> n \<and> iovs \<noteq> []")
    case True
    then have "n - length iov \<le> length (concat iovs)" using "2.prems" by simp
    then have "case iov_advance (n - length iov) iovs of
        None \<Rightarrow> n - length iov = length (concat iovs)
      | Some iovs' \<Rightarrow> concat iovs' = drop (n - length iov) (concat iovs)"
      using "2.IH" True by blast
    then show ?thesis using True by (auto split: option.splits)
  qed (use "2.prems" in auto)
qed simp

lemma xfsync_quiet:
  assumes "xfsync S fd w = Some (status, w')" "os_writes V S"
  shows "os_quiet V w w' \<and> (status = 0 \<or> status = -1)"
proof -
  have "os_writes V S \<longrightarrow> os_quiet V w (snd (status, w')) \<and> fst (status, w') \<in> {0, -1}"
  proof (rule xfsync.raw_induct [OF _ assms(1)], goal_cases)
    case (1 f S fd w r)
    note IH = 1(1) [rule_format]
    show ?case
    proof
      assume ok: "os_writes V S"
      obtain e w1 where e: "os_fsync S fd w = (e, w1)" by fastforce
      then have q: "os_quiet V w w1" using ok unfolding os_writes_def by (metis snd_conv)
      have body: "(if e = 0 then Some (0, w1) else if e = - EIO then None
          else if e = - EINTR then f S fd w1 else Some (-1, w1)) = Some r"
        using 1(2) by (simp add: e)
      show "os_quiet V w (snd r) \<and> fst r \<in> {0, -1}"
      proof (cases "e = 0 \<or> e \<noteq> - EINTR")
        case True
        then show ?thesis using body q by (auto split: if_splits)
      next
        case False
        then have "f S fd w1 = Some r" using body by (simp split: if_splits)
        from IH [OF this ok] show ?thesis using os_quiet_trans [OF q] by blast
      qed
    qed
  qed
  then show ?thesis using assms(2) by auto
qed

text \<open>
  A call of \<open>xwritev\<close> that returns 0 has appended all the bytes of the vectors to the file, whatever
  the kernel took at a time; one that returns -1 has appended a part of them.
\<close>

lemma xwritev_appends:
  assumes "xwritev S fd iovs w = Some (status, w')" "os_writes V S"
  shows "v_dir V w' = v_dir V w \<and> v_fd V w' = v_fd V w \<and> (\<forall>i. v_fd V w fd = Some i \<longrightarrow>
    (\<exists>n \<le> length (concat iovs). (status = 0 \<longrightarrow> n = length (concat iovs)) \<and>
       v_data V w' = (v_data V w)(i := v_data V w i @ take n (concat iovs)))) \<and> (status = 0 \<or> status = -1)"
proof -
  let ?P = "\<lambda>iovs w fd r. v_dir V (snd r) = v_dir V w \<and> v_fd V (snd r) = v_fd V w \<and>
    (\<forall>i. v_fd V w fd = Some i \<longrightarrow> (\<exists>n \<le> length (concat iovs). (fst r = (0 :: int) \<longrightarrow> n = length (concat iovs)) \<and>
       v_data V (snd r) = (v_data V w)(i := v_data V w i @ take n (concat iovs)))) \<and> (fst r = 0 \<or> fst r = -1)"
  have "os_writes V S \<longrightarrow> ?P iovs w fd (status, w')"
  proof (rule xwritev.raw_induct [OF _ assms(1)], goal_cases)
    case (1 f S fd iovs w r)
    note IH = 1(1) [rule_format]
    show ?case
    proof
      assume ok: "os_writes V S"
      obtain n w1 where e: "os_writev S fd iovs w = (n, w1)" by fastforce
      note W = ok [unfolded os_writes_def, THEN conjunct1, rule_format, OF e]
      show "?P iovs w fd r"
      proof (cases "n < 0")
        case neg: True
        then have q: "os_quiet V w w1" using W by simp
        then have same: "?P iovs w1 fd r \<Longrightarrow> ?P iovs w fd r" by (simp add: os_quiet_def)
        show ?thesis
        proof (cases "n = - EINTR")
          case True
          then have "f S fd iovs w1 = Some r" using 1(2) neg by (simp add: e EIO_def EINTR_def)
          from IH [OF this ok] show ?thesis by (rule same)
        next
          case False
          then have "r = (-1, w1)" using 1(2) neg by (auto simp: e split: if_splits)
          then show ?thesis using q by (auto simp: os_quiet_def intro: exI [of _ 0])
        qed
      next
        case False
        then obtain i where le: "nat n \<le> length (concat iovs)" and w1: "v_dir V w1 = v_dir V w"
            "v_fd V w1 = v_fd V w" "v_fd V w fd = Some i"
            "v_data V w1 = (v_data V w)(i := v_data V w i @ take (nat n) (concat iovs))"
          using W by auto
        show ?thesis
        proof (cases "iov_advance (nat n) iovs")
          case None
          then have "r = (0, w1)" "nat n = length (concat iovs)"
            using 1(2) False iov_advance_concat [OF le] by (simp_all add: e)
          then show ?thesis using w1 by auto
        next
          case (Some rest)
          then have "f S fd rest w1 = Some r" and rest: "concat rest = drop (nat n) (concat iovs)"
            using 1(2) False iov_advance_concat [OF le] by (simp_all add: e)
          from IH [OF this(1) ok] obtain m where "m \<le> length (concat rest)"
            "fst r = 0 \<longrightarrow> m = length (concat rest)"
            "v_data V (snd r) = (v_data V w1)(i := v_data V w1 i @ take m (concat rest))"
            "v_dir V (snd r) = v_dir V w1 \<and> v_fd V (snd r) = v_fd V w1 \<and> (fst r = 0 \<or> fst r = -1)"
            using w1 by auto
          then show ?thesis using w1 le
            by (auto simp: rest take_add intro!: exI [of _ "nat n + m"])
        qed
      qed
    qed
  qed
  then show ?thesis using assms(2) by simp
qed

end
