(* ===== verification/Json_File.thy ===== *)
theory Json_File
  imports Jansson Xio Uuid Filename
begin

text \<open>
  \<open>json.c\<close>: reading and writing a JSON file.  The writer gathers the pieces that Jansson produces in a
  buffer of 32 KiB and hands the kernel whole blocks; a file is written under a temporary name and
  renamed when it is complete.
\<close>

section \<open>Searching an array\<close>

text \<open>The loop does not end when the value is not in the array.\<close>

partial_function (option) array_search_from ::
  "'j jansson \<Rightarrow> 'j \<Rightarrow> jref \<Rightarrow> jref \<Rightarrow> nat \<Rightarrow> nat option" where
  "array_search_from J j haystack needle idx =
     (if needle \<noteq> js_array_get J j haystack idx then array_search_from J j haystack needle (Suc idx)
      else Some idx)"

definition json_array_search :: "'j jansson \<Rightarrow> 'j \<Rightarrow> jref \<Rightarrow> jref \<Rightarrow> nat option" where
  "json_array_search J j haystack needle = array_search_from J j haystack needle 0"

section \<open>Writing\<close>

definition DUMP_BUFSIZE :: nat where "DUMP_BUFSIZE = 32 * 1024"

record dump_ctx =
  dc_fd :: int
  dc_blksize :: nat
  dc_data_len :: nat
  dc_buf :: bytes

text \<open>
  \<open>buf_len -= new_len\<close> cannot wrap around: \<open>new_len\<close> is then the remainder modulo a divisor of
  \<open>DUMP_BUFSIZE\<close> of a number that is at least \<open>DUMP_BUFSIZE\<close> (\<open>dump_rest\<close> below).
\<close>

definition dump_cb :: "'w os \<Rightarrow> bytes \<Rightarrow> dump_ctx \<Rightarrow> 'w \<Rightarrow> (int \<times> dump_ctx \<times> 'w) option" where
  "dump_cb S buf ctx w =
     (let new_len = dc_data_len ctx + length buf in
      if new_len \<le> DUMP_BUFSIZE then
        Some (0, ctx\<lparr>dc_buf := blit (dc_buf ctx) (dc_data_len ctx) buf, dc_data_len := new_len\<rparr>, w)
      else do {
        let new_len = new_len mod dc_blksize ctx;
        let buf_len = length buf - new_len;
        (status, w) \<leftarrow> xwritev S (dc_fd ctx) [take (dc_data_len ctx) (dc_buf ctx), take buf_len buf] w;
        (if status \<noteq> 0 then Some (-1, ctx, w)
         else Some (0, ctx\<lparr>dc_buf := blit (dc_buf ctx) 0 (drop buf_len buf), dc_data_len := new_len\<rparr>, w))
      })"

text \<open>\<open>json_dump_callback\<close> passes the pieces to the callback until that fails.\<close>

fun json_dump_callback :: "'w os \<Rightarrow> bytes list \<Rightarrow> dump_ctx \<Rightarrow> 'w \<Rightarrow> (int \<times> dump_ctx \<times> 'w) option" where
  "json_dump_callback S [] ctx w = Some (0, ctx, w)"
| "json_dump_callback S (c # cs) ctx w = do {
     (status, ctx, w) \<leftarrow> dump_cb S c ctx w;
     (if status \<noteq> 0 then Some (-1, ctx, w) else json_dump_callback S cs ctx w)
   }"

text \<open>\<open>junk\<close> is what the buffer on the stack holds before anything is stored in it.\<close>

definition json_dumpfd_ex ::
  "'w os \<Rightarrow> 'j jansson \<Rightarrow> bytes \<Rightarrow> 'j \<Rightarrow> jref \<Rightarrow> int \<Rightarrow> 'w \<Rightarrow> (int \<times> 'w) option" where
  "json_dumpfd_ex S J junk j json fd w =
     (case os_fstat S fd w of ((status, st), w) \<Rightarrow>
        if status \<noteq> 0 then Some (-1, w)
        else
          (let blksize = st_blksize st;
               blksize = (if blksize = 0 \<or> DUMP_BUFSIZE mod blksize \<noteq> 0 then DUMP_BUFSIZE else blksize);
               ctx = \<lparr>dc_fd = fd, dc_blksize = blksize, dc_data_len = 0, dc_buf = junk\<rparr>
           in case js_dump_chunks J j json of
                None \<Rightarrow> Some (-1, w)
              | Some chunks \<Rightarrow> do {
                  (status, ctx, w) \<leftarrow> json_dump_callback S chunks ctx w;
                  (if status \<noteq> 0 then Some (-1, w)
                   else do {
                     (status, w) \<leftarrow> (if dc_data_len ctx > 0
                                     then xwritev S fd [take (dc_data_len ctx) (dc_buf ctx)] w
                                     else Some (0, w));
                     (if status \<noteq> 0 then Some (-1, w)
                      else do {
                        (status, w) \<leftarrow> xfsync S fd w;
                        Some (if status \<noteq> 0 then -1 else 0, w)
                      })
                   })
                }))"

definition TMPNAME_MAX :: nat where "TMPNAME_MAX = NAME_MAX + 21"

text \<open>\<open>%016\<close> with \<open>PRIx64\<close>.\<close>

definition hex64 :: "u64 \<Rightarrow> bytes" where
  "hex64 v = base16_encode (rev (le_bytes 8 v))"

text \<open>
  The steps after the file is open.  \<open>dumping\<close> is the call of \<open>json_dumpfd_ex\<close>.
\<close>

definition dump_and_rename ::
  "'w os \<Rightarrow> (int \<Rightarrow> 'w \<Rightarrow> (int \<times> 'w) option) \<Rightarrow> int \<Rightarrow> bytes \<Rightarrow> bytes \<Rightarrow> int \<Rightarrow> 'w \<Rightarrow> (int \<times> 'w) option" where
  "dump_and_rename S dumping dirfd tmp_name name fd w =
     (let fail = (\<lambda>w. let w = snd (os_unlinkat S dirfd tmp_name w) in Some (-1, os_close S fd w))
      in do {
        (status, w) \<leftarrow> dumping fd w;
        (if status \<noteq> 0 then fail w
         else
           (case os_renameat S dirfd tmp_name name w of (status, w) \<Rightarrow>
              if status \<noteq> 0 then fail w
              else do {
                (status, w) \<leftarrow> xfsync S dirfd w;
                (if status \<noteq> 0 then fail w else Some (0, os_close S fd w))
              }))
      })"

text \<open>
  The pointer \<open>tmp_name\<close> moves by \<open>NAME_MAX - name_len\<close>, a negative number, to before the start of the
  buffer: what \<open>openat\<close> then reads is undefined, \<open>None\<close>.
\<close>

partial_function (option) json_dump_file_at ::
  "'w os \<Rightarrow> (int \<Rightarrow> 'w \<Rightarrow> (int \<times> 'w) option) \<Rightarrow> int \<Rightarrow> bytes \<Rightarrow> prng \<Rightarrow> 'w \<Rightarrow> (int \<times> prng \<times> 'w) option" where
  "json_dump_file_at S dumping dirfd name rng w =
     (case prng_rand rng of (r, rng) \<Rightarrow>
        let buf = name @ str ''.'' @ hex64 r @ str ''.tmp'' in
        if length buf > TMPNAME_MAX then Some (-1, rng, w)
        else if length buf > NAME_MAX then None
        else
          (case os_openat S dirfd buf (O_CREAT OR O_WRONLY OR O_EXCL) w of (fd, w) \<Rightarrow>
             if fd = - EEXIST then json_dump_file_at S dumping dirfd name rng w
             else if fd < 0 then Some (-1, rng, w)
             else do {
               (status, w) \<leftarrow> dump_and_rename S dumping dirfd buf name fd w;
               Some (status, rng, w)
             }))"

section \<open>Reading\<close>

definition json_load_file_at :: "'w os \<Rightarrow> 'j jansson \<Rightarrow> int \<Rightarrow> bytes \<Rightarrow> 'j \<Rightarrow> 'w \<Rightarrow> jref \<times> 'j \<times> 'w" where
  "json_load_file_at S J dirfd name j w =
     (case os_openat S dirfd name O_RDONLY w of (fd, w) \<Rightarrow>
        if fd < 0 then (NULL, j, w)
        else
          (case os_fstat S fd w of ((status, st), w) \<Rightarrow>
             if status \<noteq> 0 then (NULL, j, os_close S fd w)
             else
               (case os_mmap S fd (st_size st) w of
                  (None, w) \<Rightarrow> (NULL, j, os_close S fd w)
                | (Some buf, w) \<Rightarrow>
                    (case js_loadb J buf j of (result, j) \<Rightarrow> (result, j, os_close S fd w)))))"

section \<open>Facts\<close>

text \<open>The writer's buffer never runs over, and its arithmetic never wraps around.\<close>

lemma dump_rest:
  assumes "(n :: nat) dvd DUMP_BUFSIZE" "0 < n" "data_len \<le> DUMP_BUFSIZE" "DUMP_BUFSIZE < data_len + len"
  shows "(data_len + len) mod n \<le> len" "(data_len + len) mod n < n" "n \<le> DUMP_BUFSIZE"
    "n dvd data_len + (len - (data_len + len) mod n)"
proof -
  obtain k x where k: "DUMP_BUFSIZE = n * k" and x: "data_len + len = DUMP_BUFSIZE + x"
    using assms(1,4) by (metis dvdE less_imp_add_positive)
  have "(data_len + len) mod n = x mod n" unfolding x k by simp
  also have "\<dots> \<le> data_len + len - DUMP_BUFSIZE" using x by simp
  also have "\<dots> \<le> len" using assms(3) by simp
  finally show le: "(data_len + len) mod n \<le> len" .
  show "(data_len + len) mod n < n" using assms(2) by simp
  show "n \<le> DUMP_BUFSIZE" using assms(1) by (rule dvd_imp_le) (simp add: DUMP_BUFSIZE_def)
  have "data_len + (len - (data_len + len) mod n) = (data_len + len) - (data_len + len) mod n"
    using le by simp
  then show "n dvd data_len + (len - (data_len + len) mod n)" by simp
qed

text \<open>
  Between two calls of \<open>dump_cb\<close>: the file has grown by whole blocks, and these blocks with the buffer
  are the pieces that came so far.
\<close>

definition dumped :: "'w os_view \<Rightarrow> nat \<Rightarrow> bytes \<Rightarrow> 'w \<Rightarrow> dump_ctx \<Rightarrow> 'w \<Rightarrow> bool" where
  "dumped V i sofar w0 ctx w \<longleftrightarrow>
     dc_blksize ctx dvd DUMP_BUFSIZE \<and> 0 < dc_blksize ctx \<and> length (dc_buf ctx) = DUMP_BUFSIZE \<and>
     dc_data_len ctx \<le> DUMP_BUFSIZE \<and> v_fd V w0 (dc_fd ctx) = Some i \<and>
     v_dir V w = v_dir V w0 \<and> v_fd V w = v_fd V w0 \<and>
     (\<exists>blocks. dc_blksize ctx dvd length blocks \<and> sofar = blocks @ take (dc_data_len ctx) (dc_buf ctx) \<and>
        v_data V w = (v_data V w0)(i := v_data V w0 i @ blocks))"

text \<open>What a failed call leaves: only the one file can have changed.\<close>

definition spoiled :: "'w os_view \<Rightarrow> nat \<Rightarrow> 'w \<Rightarrow> 'w \<Rightarrow> bool" where
  "spoiled V i w0 w \<longleftrightarrow> v_dir V w = v_dir V w0 \<and> v_fd V w = v_fd V w0 \<and>
     (\<exists>d. v_data V w = (v_data V w0)(i := d))"

lemma dumped_spoiled: "dumped V i sofar w0 ctx w \<Longrightarrow> spoiled V i w0 w"
  by (auto simp: dumped_def spoiled_def)

lemma spoiled_trans: "spoiled V i w0 w \<Longrightarrow> spoiled V i w w' \<Longrightarrow> spoiled V i w0 w'"
  by (auto simp: spoiled_def)

lemma xwritev_spoils:
  assumes "xwritev S fd iovs w = Some (status, w')" "os_writes V S" "v_fd V w fd = Some i"
  shows "spoiled V i w w'"
  using xwritev_appends [OF assms(1,2)] assms(3) by (auto simp: spoiled_def)

lemma xwritev_complete:
  assumes "xwritev S fd iovs w = Some (0, w')" "os_writes V S" "v_fd V w fd = Some i"
  shows "v_dir V w' = v_dir V w" "v_fd V w' = v_fd V w"
    "v_data V w' = (v_data V w)(i := v_data V w i @ concat iovs)"
  using xwritev_appends [OF assms(1,2)] assms(3) by auto

lemma dump_cb_step:
  assumes "dumped V i sofar w0 ctx w" "dump_cb S buf ctx w = Some (status, ctx', w')" "os_writes V S"
  shows "if status = 0 then dumped V i (sofar @ buf) w0 ctx' w' \<and> dc_fd ctx' = dc_fd ctx
    else status = -1 \<and> spoiled V i w0 w'"
proof -
  obtain blocks where D: "dc_blksize ctx dvd DUMP_BUFSIZE" "0 < dc_blksize ctx"
    "length (dc_buf ctx) = DUMP_BUFSIZE" "dc_data_len ctx \<le> DUMP_BUFSIZE"
    "v_fd V w0 (dc_fd ctx) = Some i" "v_dir V w = v_dir V w0" "v_fd V w = v_fd V w0"
    "dc_blksize ctx dvd length blocks" "sofar = blocks @ take (dc_data_len ctx) (dc_buf ctx)"
    "v_data V w = (v_data V w0)(i := v_data V w0 i @ blocks)"
    using assms(1) by (auto simp: dumped_def)
  show ?thesis
  proof (cases "dc_data_len ctx + length buf \<le> DUMP_BUFSIZE")
    case True
    then have "status = 0" "w' = w" "ctx' = ctx\<lparr>dc_buf := blit (dc_buf ctx) (dc_data_len ctx) buf,
        dc_data_len := dc_data_len ctx + length buf\<rparr>"
      using assms(2) by (auto simp: dump_cb_def)
    then show ?thesis using D True by (auto simp: dumped_def buf_simps)
  next
    case False
    define r where "r = (dc_data_len ctx + length buf) mod dc_blksize ctx"
    have r: "r \<le> length buf" "r \<le> DUMP_BUFSIZE" "dc_blksize ctx dvd dc_data_len ctx + (length buf - r)"
      using dump_rest [OF D(1,2,4), of "length buf"] False by (auto simp: r_def)
    let ?iov = "[take (dc_data_len ctx) (dc_buf ctx), take (length buf - r) buf]"
    obtain st w1 where x: "xwritev S (dc_fd ctx) ?iov w = Some (st, w1)"
      and res: "(status, ctx', w') = (if st \<noteq> 0 then (-1, ctx, w1) else
         (0, ctx\<lparr>dc_buf := blit (dc_buf ctx) 0 (drop (length buf - r) buf), dc_data_len := r\<rparr>, w1))"
      using assms(2) False by (auto simp: dump_cb_def Let_def r_def split: bind_splits if_splits)
    have fd: "v_fd V w (dc_fd ctx) = Some i" using D by simp
    show ?thesis
    proof (cases "st = 0")
      case True
      note W = xwritev_complete [OF x [unfolded True] assms(3) fd]
      have "take r (blit (dc_buf ctx) 0 (drop (length buf - r) buf)) = drop (length buf - r) buf"
        using take_blit_end [of 0 "dc_buf ctx" "drop (length buf - r) buf"] r(1) by simp
      moreover have "length (blit (dc_buf ctx) 0 (drop (length buf - r) buf)) = DUMP_BUFSIZE"
        using length_blit [of 0 "drop (length buf - r) buf" "dc_buf ctx"] r D(3) by simp
      moreover have "dc_blksize ctx dvd length (blocks @ concat ?iov)"
        using D(3,4,8) r(3) by simp
      ultimately show ?thesis using res True D W r
        by (auto simp: dumped_def intro!: exI [of _ "blocks @ concat ?iov"])
    next
      case False
      then show ?thesis
        using res spoiled_trans [OF dumped_spoiled [OF assms(1)] xwritev_spoils [OF x assms(3) fd]] by simp
    qed
  qed
qed

lemma json_dump_callback_steps:
  "dumped V i sofar w0 ctx w \<Longrightarrow> json_dump_callback S cs ctx w = Some (status, ctx', w') \<Longrightarrow>
   os_writes V S \<Longrightarrow>
   if status = 0 then dumped V i (sofar @ concat cs) w0 ctx' w' \<and> dc_fd ctx' = dc_fd ctx
   else status = -1 \<and> spoiled V i w0 w'"
proof (induction S cs ctx w arbitrary: sofar rule: json_dump_callback.induct)
  case (2 S c cs ctx w)
  obtain st ctx1 w1 where c: "dump_cb S c ctx w = Some (st, ctx1, w1)"
    using "2.prems"(2) by (auto split: bind_splits)
  note step = dump_cb_step [OF "2.prems"(1) c "2.prems"(3)]
  show ?case
  proof (cases "st = 0")
    case True
    with step have "dumped V i (sofar @ c) w0 ctx1 w1" "dc_fd ctx1 = dc_fd ctx" by simp_all
    moreover have "json_dump_callback S cs ctx1 w1 = Some (status, ctx', w')"
      using "2.prems"(2) c True by simp
    ultimately show ?thesis using "2.IH" [OF c] True "2.prems"(3) by fastforce
  next
    case False
    then show ?thesis using step "2.prems"(2) c by simp
  qed
qed simp

lemma json_dumpfd_complete:
  assumes "os_writes V S" "length junk = DUMP_BUFSIZE" "v_fd V w fd = Some i"
    "json_dumpfd_ex S J junk j json fd w = Some (status, w')"
  shows "spoiled V i w w' \<and> (status = 0 \<longrightarrow> (\<exists>cs. js_dump_chunks J j json = Some cs \<and>
    v_data V w' i = v_data V w i @ concat cs))"
proof -
  obtain st0 st w0 where f: "os_fstat S fd w = ((st0, st), w0)" by (metis surj_pair)
  have q: "os_quiet V w w0" using assms(1) f unfolding os_writes_def by (metis snd_conv)
  then have sp0: "spoiled V i w w0"
    by (auto simp: os_quiet_def spoiled_def intro: exI [of _ "v_data V w i"])
  define blk where "blk = (if st_blksize st = 0 \<or> DUMP_BUFSIZE mod st_blksize st \<noteq> 0 then DUMP_BUFSIZE
    else st_blksize st)"
  define ctx where "ctx = \<lparr>dc_fd = fd, dc_blksize = blk, dc_data_len = 0, dc_buf = junk\<rparr>"
  have blk: "blk dvd DUMP_BUFSIZE" "0 < blk" by (auto simp: blk_def DUMP_BUFSIZE_def)
  have start: "dumped V i [] w0 ctx w0"
    using blk assms(2,3) q by (simp add: dumped_def ctx_def os_quiet_def)
  show ?thesis
  proof (cases "st0 = 0 \<and> js_dump_chunks J j json \<noteq> None")
    case False
    then have "status = -1 \<and> w' = w0"
      using assms(4) f by (auto simp: json_dumpfd_ex_def Let_def split: if_splits)
    then show ?thesis using sp0 by simp
  next
    case True
    then obtain cs where cs: "js_dump_chunks J j json = Some cs" by blast
    obtain st1 ctx1 w1 where d: "json_dump_callback S cs ctx w0 = Some (st1, ctx1, w1)"
      and k: "(if st1 \<noteq> 0 then Some (-1, w1) else do {
          (status, w) \<leftarrow> (if dc_data_len ctx1 > 0
                          then xwritev S fd [take (dc_data_len ctx1) (dc_buf ctx1)] w1 else Some (0, w1));
          (if status \<noteq> 0 then Some (-1, w)
           else do { (status, w) \<leftarrow> xfsync S fd w; Some (if status \<noteq> 0 then -1 else 0, w) })
        }) = Some (status, w')"
      using assms(4) True cs f
      by (auto simp: json_dumpfd_ex_def Let_def ctx_def blk_def split: bind_splits)
    note D = json_dump_callback_steps [OF start d assms(1)]
    show ?thesis
    proof (cases "st1 = 0")
      case False
      then show ?thesis using D k spoiled_trans [OF sp0] by auto
    next
      case st1: True
      then have D1: "dumped V i (concat cs) w0 ctx1 w1" "dc_fd ctx1 = fd" using D by (simp_all add: ctx_def)
      then obtain blocks where B: "v_fd V w1 fd = Some i" "v_dir V w1 = v_dir V w0" "v_fd V w1 = v_fd V w0"
        "concat cs = blocks @ take (dc_data_len ctx1) (dc_buf ctx1)"
        "v_data V w1 = (v_data V w0)(i := v_data V w0 i @ blocks)"
        using assms(3) q by (auto simp: dumped_def os_quiet_def)
      obtain st2 w2 where x: "(if dc_data_len ctx1 > 0
          then xwritev S fd [take (dc_data_len ctx1) (dc_buf ctx1)] w1 else Some (0, w1)) = Some (st2, w2)"
        and k2: "(if st2 \<noteq> 0 then Some (-1, w2)
           else do { (status, w) \<leftarrow> xfsync S fd w2; Some (if status \<noteq> 0 then -1 else 0, w) }) = Some (status, w')"
        using k st1 by (auto split: bind_splits)
      have sp2: "spoiled V i w1 w2"
      proof (cases "dc_data_len ctx1 > 0")
        case True
        then show ?thesis using x xwritev_spoils [OF _ assms(1) B(1)] by simp
      qed (use x in \<open>auto simp: spoiled_def intro: exI [of _ "v_data V w1 i"]\<close>)
      note sp = spoiled_trans [OF spoiled_trans [OF sp0 dumped_spoiled [OF D1(1)]] sp2]
      show ?thesis
      proof (cases "st2 = 0")
        case False
        then show ?thesis using sp k2 by simp
      next
        case st2: True
        then obtain st3 where y: "xfsync S fd w2 = Some (st3, w')" "status = (if st3 \<noteq> 0 then -1 else 0)"
          using k2 by (auto split: bind_splits)
        have q3: "os_quiet V w2 w'" using xfsync_quiet [OF y(1) assms(1)] by simp
        have "v_data V w2 i = v_data V w0 i @ concat cs"
        proof (cases "dc_data_len ctx1 > 0")
          case True
          then show ?thesis using xwritev_complete(3) [OF _ assms(1) B(1)] x st2 B by simp
        qed (use x B in simp)
        then show ?thesis using sp q3 cs q by (auto simp: os_quiet_def spoiled_def)
      qed
    qed
  qed
qed

end
