(* ===== verification/Jansson_Demo.thy ===== *)
theory Jansson_Demo
  imports Jansson
begin

text \<open>
  A small implementation of the library, on which the promises of \<open>jansson_ok\<close> hold: the values are
  cells in an association list.  The witnesses of the theorems about JSON files run on it.
\<close>

datatype cell = CObject "(bytes \<times> jref) list" | CArray "jref list" | CString bytes | CInteger int

type_synonym cells = "(jref \<times> cell) list"

definition cell_value :: "cell \<Rightarrow> jvalue" where
  "cell_value c = (case c of
     CObject kvs \<Rightarrow> JObject (map_of (filter (\<lambda>p. snd p \<noteq> NULL) kvs))
   | CArray xs \<Rightarrow> JArray (filter (\<lambda>x. x \<noteq> NULL) xs)
   | CString s \<Rightarrow> JString s
   | CInteger i \<Rightarrow> JInteger i)"

definition cell_at :: "cells \<Rightarrow> jref \<Rightarrow> cell option" where
  "cell_at j r = (if r = NULL then None else map_of j r)"

definition cells_view :: "cells jview" where
  "cells_view j r = map_option cell_value (cell_at j r)"

definition cells_new :: "cell \<Rightarrow> cells \<Rightarrow> jref \<times> cells" where
  "cells_new c j = (let r = Suc (foldr max (map fst j) 0) in (r, (r, c) # j))"

definition cells_put :: "jref \<Rightarrow> cell \<Rightarrow> cells \<Rightarrow> cells" where
  "cells_put r c j = (if r = NULL then j else (r, c) # j)"

definition obj_at :: "cells \<Rightarrow> jref \<Rightarrow> (bytes \<times> jref) list" where
  "obj_at j r = (case cell_at j r of Some (CObject kvs) \<Rightarrow> filter (\<lambda>p. snd p \<noteq> NULL) kvs | _ \<Rightarrow> [])"

definition arr_at :: "cells \<Rightarrow> jref \<Rightarrow> jref list" where
  "arr_at j r = (case cell_at j r of Some (CArray xs) \<Rightarrow> filter (\<lambda>x. x \<noteq> NULL) xs | _ \<Rightarrow> [])"

definition demo_utf8 :: "bytes \<Rightarrow> bool" where
  "demo_utf8 s \<longleftrightarrow> (\<forall>b \<in> set s. b < 128)"

text \<open>\<open>txt\<close> is what \<open>js_dump_chunks\<close> produces and \<open>root\<close>, \<open>store\<close> what \<open>js_loadb\<close> makes of any file.\<close>

definition demo_jansson :: "bytes list \<Rightarrow> jref \<Rightarrow> cells \<Rightarrow> cells jansson" where
  "demo_jansson txt root store = \<lparr>
     js_new_object = cells_new (CObject []),
     js_new_array = cells_new (CArray []),
     js_new_integer = \<lambda>i. cells_new (CInteger i),
     js_stringn = \<lambda>s j. if demo_utf8 s then cells_new (CString s) j else (NULL, j),
     js_stringn_nocheck = \<lambda>s. cells_new (CString s),
     js_object_getn = \<lambda>j r k. (case map_of (obj_at j r) k of Some v \<Rightarrow> v | None \<Rightarrow> NULL),
     js_object_setn_nocheck = \<lambda>r k v j. cells_put r (CObject ((k, v) # obj_at j r)) j,
     js_object_update = \<lambda>r r' j. cells_put r (CObject (obj_at j r' @ obj_at j r)) j,
     js_object_values = \<lambda>j r. map (the \<circ> map_of (obj_at j r)) (rev (remdups (map fst (obj_at j r)))),
     js_string_value = \<lambda>j r. (case cell_at j r of Some (CString s) \<Rightarrow> Some s | _ \<Rightarrow> None),
     js_string_setn = \<lambda>r s j. if demo_utf8 s then (0, cells_put r (CString s) j) else (-1, j),
     js_string_setn_nocheck = \<lambda>r s j. (0, cells_put r (CString s) j),
     js_array_size = \<lambda>j r. length (arr_at j r),
     js_array_get = \<lambda>j r i. if i < length (arr_at j r) then arr_at j r ! i else NULL,
     js_array_append = \<lambda>r v j. cells_put r (CArray (arr_at j r @ [v])) j,
     js_array_insert = \<lambda>r i v j. cells_put r (CArray (take i (arr_at j r) @ v # drop i (arr_at j r))) j,
     js_array_remove = \<lambda>r i j. cells_put r (CArray (take i (arr_at j r) @ drop (Suc i) (arr_at j r))) j,
     js_array_set = \<lambda>r i v j. cells_put r (CArray ((arr_at j r)[i := v])) j,
     js_integer_value = \<lambda>j r. (case cell_at j r of Some (CInteger i) \<Rightarrow> i | _ \<Rightarrow> 0),
     js_equal = \<lambda>j r r'. cell_at j r = cell_at j r',
     js_copy = \<lambda>r j. (case cell_at j r of Some c \<Rightarrow> cells_new c j | None \<Rightarrow> (NULL, j)),
     js_loadb = \<lambda>buf j. (root, store @ j),
     js_dump_chunks = \<lambda>j r. Some txt\<rparr>"

section \<open>It keeps the promises\<close>

lemma cells_new_allocates: "allocates cells_view (cell_value c) j (cells_new c j)"
proof -
  let ?r = "Suc (foldr max (map fst j) 0)"
  have "x \<le> foldr max xs 0" if "x \<in> set xs" for x :: nat and xs using that by (induction xs) auto
  then have "?r \<notin> set (map fst j)" by fastforce
  then have "map_of j ?r = None" by (simp add: map_of_eq_None_iff)
  then show ?thesis
    by (auto simp: allocates_def cells_new_def cells_view_def cell_at_def NULL_def Let_def fun_eq_iff)
qed

lemma obj_at_view: "map_of (obj_at j r) = as_object (cells_view j r)"
  by (rule ext) (auto simp: obj_at_def cells_view_def cell_value_def split: option.splits cell.splits)

lemma arr_at_view: "arr_at j r = as_array (cells_view j r)"
  by (auto simp: arr_at_def cells_view_def cell_value_def split: option.splits cell.splits)

lemma cells_put_view:
  "cells_view j r = Some v \<Longrightarrow> cells_view (cells_put r c j) = (cells_view j)(r \<mapsto> cell_value c)"
  by (auto simp: cells_put_def cells_view_def cell_at_def fun_eq_iff split: if_splits)

lemma obj_at_no_null: "\<forall>p \<in> set (obj_at j r). snd p \<noteq> NULL"
  by (auto simp: obj_at_def split: option.splits cell.splits)

lemma arr_at_no_null: "NULL \<notin> set (arr_at j r)"
  by (auto simp: arr_at_def split: option.splits cell.splits)

lemma obj_at_filter: "filter (\<lambda>p. snd p \<noteq> NULL) (obj_at j r) = obj_at j r"
  using obj_at_no_null [of j r] by (auto simp: filter_id_conv)

lemma arr_filter: "NULL \<notin> set xs \<Longrightarrow> filter (\<lambda>x. x \<noteq> NULL) xs = xs"
  by (auto simp: filter_id_conv)

lemma demo_reads: "jansson_reads cells_view (demo_jansson txt root store)"
proof -
  have vals: "\<exists>ks. distinct ks \<and> set ks = dom m \<and>
      map (the \<circ> map_of (obj_at j r)) (rev (remdups (map fst (obj_at j r)))) = map (the \<circ> m) ks"
    if "cells_view j r = Some (JObject m)" for j r m
  proof -
    have m: "m = map_of (obj_at j r)" by (simp add: obj_at_view that fun_eq_iff)
    have "distinct (rev (remdups (map fst (obj_at j r)))) \<and> set (rev (remdups (map fst (obj_at j r)))) = dom m"
      unfolding m by (simp add: dom_map_of_conv_image_fst)
    then show ?thesis unfolding m by blast
  qed
  have none: "obj_at j r = []" if "\<forall>m. cells_view j r \<noteq> Some (JObject m)" for j r
    using that by (auto simp: obj_at_def cells_view_def cell_value_def split: option.splits cell.splits)
  have nn: "v \<noteq> NULL" if "cells_view j r = Some (JObject m)" "m k = Some v" for j r m k v
    using that obj_at_no_null [of j r] map_of_SomeD [of "obj_at j r" k v] by (force simp: obj_at_view)
  have an: "NULL \<notin> set xs" if "cells_view j r = Some (JArray xs)" for j r xs
    using that arr_at_no_null [of j r] by (simp add: arr_at_view)
  have st: "(case cell_at j r of Some (CString s) \<Rightarrow> Some s | _ \<Rightarrow> None) = as_string (cells_view j r)" for j r
    by (auto simp: cells_view_def cell_value_def as_string_def split: option.splits cell.splits)
  show ?thesis
    unfolding jansson_reads_def
    by (intro conjI allI impI)
      (use vals nn an in \<open>auto simp: demo_jansson_def obj_at_view arr_at_view st none cells_view_def [of _ NULL] cell_at_def [of _ NULL]\<close>)
qed

lemma demo_news: "jansson_news demo_utf8 cells_view (demo_jansson txt root store)"
proof -
  have c: "cell_at j r = Some c \<Longrightarrow> allocates cells_view (cell_value c) j (cells_new c j)" for j r c
    by (rule cells_new_allocates)
  show ?thesis
    unfolding jansson_news_def
    using cells_new_allocates [of "CObject []"] cells_new_allocates [of "CArray []"]
      cells_new_allocates [of "CInteger _"] cells_new_allocates [of "CString _"]
    by (auto simp: demo_jansson_def cell_value_def [of "CObject []"] cell_value_def [of "CArray []"]
        cell_value_def [of "CInteger _"] cell_value_def [of "CString _"] cells_view_def intro: c)
qed

lemma put_object:
  assumes "cells_view j r = Some v" "\<forall>p \<in> set kvs. snd p \<noteq> NULL"
  shows "cells_view (cells_put r (CObject kvs) j) = (cells_view j)(r \<mapsto> JObject (map_of kvs))"
proof -
  have "filter (\<lambda>p. snd p \<noteq> NULL) kvs = kvs" using assms(2) by (simp add: filter_id_conv)
  then show ?thesis by (simp add: cells_put_view [OF assms(1)] cell_value_def)
qed

lemma put_array:
  assumes "cells_view j r = Some v" "NULL \<notin> set xs"
  shows "cells_view (cells_put r (CArray xs) j) = (cells_view j)(r \<mapsto> JArray xs)"
  by (simp add: cells_put_view [OF assms(1)] cell_value_def arr_filter [OF assms(2)])

lemma put_string:
  "cells_view j r = Some v \<Longrightarrow> cells_view (cells_put r (CString s) j) = (cells_view j)(r \<mapsto> JString s)"
  by (simp add: cells_put_view cell_value_def)

lemma obj_at_eq: "cells_view j r = Some (JObject m) \<Longrightarrow> map_of (obj_at j r) = m"
  by (simp add: obj_at_view fun_eq_iff)

lemma arr_at_eq: "cells_view j r = Some (JArray xs) \<Longrightarrow> arr_at j r = xs \<and> NULL \<notin> set xs"
  using arr_at_no_null [of j r] by (simp add: arr_at_view)

lemma demo_writes: "jansson_writes demo_utf8 cells_view (demo_jansson txt root store)"
proof -
  have set': "NULL \<notin> set (xs[i := v])" if "NULL \<notin> set xs" "v \<noteq> NULL" for xs i v
    using that set_update_subset_insert [of xs i v] by auto
  have sub: "NULL \<notin> set (take i xs)" "NULL \<notin> set (drop i xs)" if "NULL \<notin> set xs" for xs i
    using that by (auto dest: in_set_takeD in_set_dropD)
  have a: "cells_view (cells_put r (CArray (f (arr_at j r))) j) = (cells_view j)(r \<mapsto> JArray (f xs))"
    if "cells_view j r = Some (JArray xs)" "NULL \<notin> set xs \<Longrightarrow> NULL \<notin> set (f xs)" for j r xs f
    using arr_at_eq [OF that(1)] put_array [OF that(1), of "f xs"] that(2) by simp
  have o: "cells_view (cells_put r (CObject ((k, v) # obj_at j r)) j) = (cells_view j)(r \<mapsto> JObject (m(k \<mapsto> v)))"
    if "cells_view j r = Some (JObject m)" "v \<noteq> NULL" for j r m k v
    using put_object [OF that(1), of "(k, v) # obj_at j r"] that obj_at_no_null [of j r]
    by (simp add: obj_at_eq)
  have u: "cells_view (cells_put r (CObject (obj_at j o' @ obj_at j r)) j) = (cells_view j)(r \<mapsto> JObject (m ++ m'))"
    if "cells_view j r = Some (JObject m)" "cells_view j o' = Some (JObject m')" for j r m o' m'
    using put_object [OF that(1), of "obj_at j o' @ obj_at j r"] that
      obj_at_no_null [of j r] obj_at_no_null [of j o']
    by (simp add: obj_at_eq ball_Un)
  show ?thesis
    unfolding jansson_writes_def
  proof (intro conjI allI impI, goal_cases)
    case (8 j r xs v)
    then show ?case using a [of j r xs "\<lambda>xs. xs @ [v]"] by (simp add: demo_jansson_def)
  next
    case (9 j r xs i v)
    then show ?case using a [of j r xs "\<lambda>xs. take i xs @ v # drop i xs"] sub [of xs i]
      by (simp add: demo_jansson_def)
  next
    case (10 j r xs i)
    then show ?case using a [of j r xs "\<lambda>xs. take i xs @ drop (Suc i) xs"] sub [of xs]
      by (simp add: demo_jansson_def)
  next
    case (11 j r xs i v)
    then show ?case using a [of j r xs "\<lambda>xs. xs[i := v]"] set' [of xs v i] by (simp add: demo_jansson_def)
  qed (simp_all add: demo_jansson_def o u put_string)
qed

lemma demo_jansson_ok: "jansson_ok demo_utf8 cells_view (demo_jansson txt root store)"
  by (simp add: jansson_ok_def demo_reads demo_news demo_writes)

end
