(* ===== verification/Json_Props.thy ===== *)
theory Json_Props
  imports Json_File Jansson_Demo
begin

text \<open>
  What the writer of \<open>json.c\<close> does to the file that it replaces, and a small kernel on which it runs.
\<close>

section \<open>Replacing a file\<close>

definition v_file :: "'w os_view \<Rightarrow> 'w \<Rightarrow> bytes \<Rightarrow> bytes option" where
  "v_file V w name = map_option (v_data V w) (v_dir V w name)"

lemma v_file_quiet: "os_quiet V w w' \<Longrightarrow> v_file V w' = v_file V w"
  by (rule ext) (simp add: os_quiet_def v_file_def)

text \<open>What \<open>json_dump_file_at\<close> needs to know of \<open>json_dumpfd_ex\<close>: \<open>txt\<close> is what it writes.\<close>

definition dumps :: "'w os_view \<Rightarrow> (int \<Rightarrow> 'w \<Rightarrow> (int \<times> 'w) option) \<Rightarrow> bytes option \<Rightarrow> bool" where
  "dumps V dumping txt \<longleftrightarrow> (\<forall>fd w i status w'. v_fd V w fd = Some i \<longrightarrow> dumping fd w = Some (status, w') \<longrightarrow>
     spoiled V i w w' \<and> (status = 0 \<longrightarrow> (\<exists>t. txt = Some t \<and> v_data V w' i = v_data V w i @ t)))"

lemma json_dumpfd_dumps:
  assumes "os_writes V S" "length junk = DUMP_BUFSIZE"
  shows "dumps V (json_dumpfd_ex S J junk j json) (map_option concat (js_dump_chunks J j json))"
  using json_dumpfd_complete [OF assms] unfolding dumps_def by fastforce

text \<open>Only the file under \<open>name\<close> can have changed, and it is complete if it did.\<close>

definition replaced :: "'w os_view \<Rightarrow> bytes \<Rightarrow> bytes option \<Rightarrow> int \<Rightarrow> 'w \<Rightarrow> 'w \<Rightarrow> bool" where
  "replaced V name txt status w w' \<longleftrightarrow>
     (v_file V w' name = v_file V w name \<or> txt \<noteq> None \<and> v_file V w' name = txt) \<and>
     (status = 0 \<longrightarrow> txt \<noteq> None \<and> v_file V w' name = txt) \<and>
     (\<forall>n. n \<noteq> name \<longrightarrow> v_file V w n \<noteq> None \<longrightarrow> v_file V w' n = v_file V w n)"

lemma dump_and_rename_replaces:
  assumes os: "os_dir_ok d V S" and dumps: "dumps V dumping txt" and tmp: "tmp \<noteq> name"
    and w1: "v_dir V w tmp = None" "v_dir V w1 = (v_dir V w)(tmp \<mapsto> i)" "v_fd V w1 fd = Some i"
      "i \<notin> ran (v_dir V w)" "v_data V w1 = (v_data V w)(i := [])"
    and run: "dump_and_rename S dumping d tmp name fd w1 = Some (status, w')"
  shows "replaced V name txt status w w'"
proof -
  have writes: "os_writes V S" using os by (simp add: os_dir_ok_def)
  have old: "v_file V w1 n = v_file V w n" if "n \<noteq> tmp" for n
    using w1 that by (auto simp: v_file_def ran_def map_option_case split: option.splits)
  obtain st w2 where d: "dumping fd w1 = Some (st, w2)"
    using run by (auto simp: dump_and_rename_def Let_def split: bind_splits)
  have sp: "spoiled V i w1 w2" and good: "st = 0 \<longrightarrow> (\<exists>t. txt = Some t \<and> v_data V w2 i = t)"
    using dumps [unfolded dumps_def, rule_format, OF w1(3) d] w1(5) by auto
  have file2: "v_file V w2 n = v_file V w n" if "n \<noteq> tmp" for n
  proof -
    have "v_dir V w n \<noteq> Some i" using w1(4) by (auto simp: ran_def)
    then show ?thesis using sp w1 that
      by (auto simp: spoiled_def v_file_def map_option_case split: option.splits)
  qed
  have unlinked: "\<forall>n. n \<noteq> tmp \<longrightarrow> v_file V (os_close S fd (snd (os_unlinkat S d tmp u))) n = v_file V u n" for u
  proof -
    obtain e u1 where e: "os_unlinkat S d tmp u = (e, u1)" by fastforce
    then have "if e = 0 then v_dir V u1 = (v_dir V u)(tmp := None) \<and> v_fd V u1 = v_fd V u \<and> v_data V u1 = v_data V u
       else os_quiet V u u1" using os unfolding os_dir_ok_def by blast
    moreover have "v_dir V (os_close S fd u1) = v_dir V u1 \<and> v_data V (os_close S fd u1) = v_data V u1"
      using os unfolding os_dir_ok_def by blast
    ultimately show ?thesis by (auto simp: e v_file_def os_quiet_def split: if_splits)
  qed
  have tmpw: "n \<noteq> tmp" if "v_file V w n \<noteq> None" for n using w1(1) that by (auto simp: v_file_def)
  have failed: "replaced V name txt (-1) w (os_close S fd (snd (os_unlinkat S d tmp u)))"
    if "\<forall>n. n \<noteq> tmp \<longrightarrow> v_file V u n = v_file V w n" for u
    using unlinked [of u] that tmp tmpw by (simp add: replaced_def)
  obtain e w3 where e: "os_renameat S d tmp name w2 = (e, w3)" by fastforce
  then have ren: "if e = 0 then v_dir V w3 = (v_dir V w2)(name := v_dir V w2 tmp, tmp := None) \<and>
      v_fd V w3 = v_fd V w2 \<and> v_data V w3 = v_data V w2 else os_quiet V w2 w3"
    using os unfolding os_dir_ok_def by blast
  consider (dump) "st \<noteq> 0" | (rename) "st = 0" "e \<noteq> 0" | (complete) "st = 0" "e = 0" by blast
  then show ?thesis
  proof cases
    case dump
    then have "status = -1" "w' = os_close S fd (snd (os_unlinkat S d tmp w2))"
      using run d by (simp_all add: dump_and_rename_def Let_def)
    then show ?thesis using failed [of w2] file2 by simp
  next
    case rename
    then have "status = -1" "w' = os_close S fd (snd (os_unlinkat S d tmp w3))"
      using run d e by (simp_all add: dump_and_rename_def Let_def)
    then show ?thesis using failed [of w3] file2 v_file_quiet [of V w2 w3] ren rename by simp
  next
    case complete
    obtain t where t: "txt = Some t" "v_data V w2 i = t" using good complete by blast
    have w3: "v_file V w3 name = txt" "\<forall>n. n \<noteq> name \<longrightarrow> n \<noteq> tmp \<longrightarrow> v_file V w3 n = v_file V w n"
      using ren complete t sp w1(2) file2 tmp by (auto simp: v_file_def spoiled_def fun_upd_def)
    obtain st4 w4 where x: "xfsync S d w3 = Some (st4, w4)"
      and res: "(status, w') = (if st4 \<noteq> 0 then (-1, os_close S fd (snd (os_unlinkat S d tmp w4)))
         else (0, os_close S fd w4))"
      using run d e complete by (auto simp: dump_and_rename_def Let_def split: bind_splits if_splits)
    have w4: "v_file V w4 = v_file V w3" using v_file_quiet xfsync_quiet [OF x writes] by metis
    have closed: "v_file V (os_close S fd w4) = v_file V w4"
      using os by (intro ext) (simp add: os_dir_ok_def v_file_def)
    show ?thesis
    proof (cases "st4 = 0")
      case True
      then show ?thesis using res w3 t tmpw closed by (simp add: replaced_def w4)
    next
      case False
      then show ?thesis using res w3 t tmp tmpw unlinked [of w4] by (simp add: replaced_def w4)
    qed
  qed
qed

lemma dump_file_replaces:
  assumes "json_dump_file_at S dumping d name rng w = Some r" "os_dir_ok d V S" "dumps V dumping txt"
  shows "replaced V name txt (fst r) w (snd (snd r))"
proof -
  have "os_dir_ok d V S \<longrightarrow> dumps V dumping txt \<longrightarrow> replaced V name txt (fst r) w (snd (snd r))"
  proof (rule json_dump_file_at.raw_induct [OF _ assms(1)], goal_cases)
    case (1 f S dumping d name rng w r)
    note IH = 1(1) [rule_format]
    show ?case
    proof (intro impI)
      assume os: "os_dir_ok d V S" and dumps: "dumps V dumping txt"
      obtain x rng1 where x: "prng_rand rng = (x, rng1)" by fastforce
      define tmp where "tmp = name @ str ''.'' @ hex64 x @ str ''.tmp''"
      have tmp: "tmp \<noteq> name" by (simp add: tmp_def str_def)
      obtain fd w1 where o: "os_openat S d tmp (O_CREAT OR O_WRONLY OR O_EXCL) w = (fd, w1)" by fastforce
      have body: "(if length tmp > TMPNAME_MAX then Some (-1, rng1, w)
        else if length tmp > NAME_MAX then None
        else if fd = - EEXIST then f S dumping d name rng1 w1
        else if fd < 0 then Some (-1, rng1, w1)
        else do { (status, w) \<leftarrow> dump_and_rename S dumping d tmp name fd w1; Some (status, rng1, w) }) = Some r"
        using 1(2) by (simp only: x prod.case Let_def o tmp_def [symmetric])
      have "fd < 0 \<Longrightarrow> os_quiet V w w1"
        using os o unfolding os_dir_ok_def by blast
      then have quiet: "fd < 0 \<Longrightarrow> v_file V w1 = v_file V w" by (simp add: v_file_quiet)
      consider (long) "length tmp > TMPNAME_MAX" | (again) "fd = - EEXIST" "f S dumping d name rng1 w1 = Some r"
        | (failed) "fd < 0" "r = (-1, rng1, w1)"
        | (opened) status w' where "0 \<le> fd" "dump_and_rename S dumping d tmp name fd w1 = Some (status, w')"
            "r = (status, rng1, w')"
        using body by (auto split: if_splits bind_splits)
      then show "replaced V name txt (fst r) w (snd (snd r))"
      proof cases
        case long
        then show ?thesis using body by (auto simp: replaced_def)
      next
        case again
        then have "fd < 0" by (simp add: EEXIST_def)
        then show ?thesis using IH [OF again(2) os dumps] quiet by (simp add: replaced_def)
      next
        case failed
        then show ?thesis using quiet by (simp add: replaced_def)
      next
        case opened
        have "v_dir V w tmp = None \<and> (\<exists>i. i \<notin> ran (v_dir V w) \<and> i \<notin> ran (v_fd V w) \<and>
            v_dir V w1 = (v_dir V w)(tmp \<mapsto> i) \<and> v_fd V w1 = (v_fd V w)(fd \<mapsto> i) \<and>
            v_data V w1 = (v_data V w)(i := []))"
          using os o opened(1) unfolding os_dir_ok_def by blast
        then obtain i where "v_dir V w tmp = None" "i \<notin> ran (v_dir V w)" "v_dir V w1 = (v_dir V w)(tmp \<mapsto> i)"
          "v_fd V w1 = (v_fd V w)(fd \<mapsto> i)" "v_data V w1 = (v_data V w)(i := [])" by blast
        then show ?thesis
          using dump_and_rename_replaces [OF os dumps tmp, of w w1 i fd] opened(2,3) by simp
      qed
    qed
  qed
  then show ?thesis using assms by blast
qed


section \<open>A kernel with one directory\<close>

record demo_fs =
  df_dir :: "(bytes \<times> nat) list"
  df_fds :: "(int \<times> nat) list"
  df_data :: "nat \<Rightarrow> bytes"

definition demo_view :: "demo_fs os_view" where
  "demo_view = \<lparr>v_dir = \<lambda>w. map_of (df_dir w), v_fd = \<lambda>w. map_of (df_fds w), v_data = df_data\<rparr>"

definition df_new :: "demo_fs \<Rightarrow> nat" where
  "df_new w = Suc (sum_list (map snd (df_dir w)) + sum_list (map snd (df_fds w)))"

definition df_openat :: "bytes \<Rightarrow> u32 \<Rightarrow> demo_fs \<Rightarrow> int \<times> demo_fs" where
  "df_openat name fl w =
     (case map_of (df_dir w) name of
        Some i \<Rightarrow> if fl AND O_EXCL \<noteq> 0 then (- EEXIST, w) else (3, w\<lparr>df_fds := (3, i) # df_fds w\<rparr>)
      | None \<Rightarrow> if fl AND O_CREAT = 0 then (- ENOENT, w)
                else (3, w\<lparr>df_dir := (name, df_new w) # df_dir w, df_fds := (3, df_new w) # df_fds w,
                          df_data := (df_data w)(df_new w := [])\<rparr>))"

definition df_writev :: "int \<Rightarrow> bytes list \<Rightarrow> demo_fs \<Rightarrow> int \<times> demo_fs" where
  "df_writev fd iovs w =
     (case map_of (df_fds w) fd of
        None \<Rightarrow> (- EINVAL, w)
      | Some i \<Rightarrow> (let d = take 7 (concat iovs)
                  in (int (length d), w\<lparr>df_data := (df_data w)(i := df_data w i @ d)\<rparr>)))"

definition df_renameat :: "bytes \<Rightarrow> bytes \<Rightarrow> demo_fs \<Rightarrow> int \<times> demo_fs" where
  "df_renameat a b w =
     (case map_of (df_dir w) a of
        None \<Rightarrow> (- ENOENT, w)
      | Some i \<Rightarrow> (0, w\<lparr>df_dir := filter (\<lambda>p. fst p \<noteq> a) ((b, i) # df_dir w)\<rparr>))"

definition demo_os :: "demo_fs os" where
  "demo_os = \<lparr>os_openat = \<lambda>d name fl w. df_openat name fl w, os_open = df_openat,
     os_close = \<lambda>fd w. w\<lparr>df_fds := filter (\<lambda>p. fst p \<noteq> fd) (df_fds w)\<rparr>,
     os_fstat = \<lambda>fd w. ((0, \<lparr>st_size = 0, st_blksize = 4096\<rparr>), w),
     os_mmap = \<lambda>fd n w. (map_option (df_data w) (map_of (df_fds w) fd), w),
     os_read = \<lambda>fd n w. ((0, []), w), os_writev = df_writev, os_fsync = \<lambda>fd w. (0, w),
     os_renameat = \<lambda>d. df_renameat,
     os_unlinkat = \<lambda>d a w. (0, w\<lparr>df_dir := filter (\<lambda>p. fst p \<noteq> a) (df_dir w)\<rparr>),
     os_realtime = \<lambda>w. (\<lparr>tv_sec = 1700000000, tv_nsec = 5\<rparr>, w)\<rparr>"

lemma map_of_filter_key: "map_of (filter (\<lambda>p. fst p \<noteq> a) xs) = (map_of xs)(a := None)"
  by (induction xs) auto

lemma ran_le_sum: "i \<in> ran (map_of xs) \<Longrightarrow> i \<le> sum_list (map snd xs)" for xs :: "('a \<times> nat) list"
  by (force simp: ran_def dest!: map_of_SomeD intro!: member_le_sum_list)

lemma df_new_fresh: "df_new w \<notin> ran (map_of (df_dir w))" "df_new w \<notin> ran (map_of (df_fds w))"
  using ran_le_sum [of "df_new w"] by (fastforce simp: df_new_def)+

lemma df_writev_ok:
  assumes "os_writev demo_os fd iovs w = (n, w')"
  shows "if n < 0 then os_quiet demo_view w w'
    else nat n \<le> length (concat iovs) \<and> v_dir demo_view w' = v_dir demo_view w \<and>
      v_fd demo_view w' = v_fd demo_view w \<and>
      (\<exists>i. v_fd demo_view w fd = Some i \<and> v_data demo_view w' =
         (v_data demo_view w)(i := v_data demo_view w i @ take (nat n) (concat iovs)))"
  using assms by (auto simp: demo_os_def df_writev_def demo_view_def os_quiet_def Let_def EINVAL_def
      min_def split: option.splits)

lemma df_renameat_ok:
  assumes "os_renameat demo_os d a b w = (n, w')"
  shows "if n = 0 then v_dir demo_view w' = (v_dir demo_view w)(b := v_dir demo_view w a, a := None) \<and>
      v_fd demo_view w' = v_fd demo_view w \<and> v_data demo_view w' = v_data demo_view w
    else os_quiet demo_view w w'"
  using assms by (auto simp: demo_os_def df_renameat_def demo_view_def os_quiet_def ENOENT_def
      map_of_filter_key fun_upd_twist split: option.splits if_splits)

lemma df_creat_ok:
  assumes "os_openat demo_os d name (O_CREAT OR O_WRONLY OR O_EXCL) w = (fd, w')" "0 \<le> fd"
  shows "v_dir demo_view w name = None \<and>
    (\<exists>i. i \<notin> ran (v_dir demo_view w) \<and> i \<notin> ran (v_fd demo_view w) \<and>
       v_dir demo_view w' = (v_dir demo_view w)(name \<mapsto> i) \<and>
       v_fd demo_view w' = (v_fd demo_view w)(fd \<mapsto> i) \<and>
       v_data demo_view w' = (v_data demo_view w)(i := []))"
proof -
  have "(O_CREAT OR O_WRONLY OR O_EXCL) AND O_EXCL \<noteq> 0" "(O_CREAT OR O_WRONLY OR O_EXCL) AND O_CREAT \<noteq> 0"
    by (simp_all add: O_CREAT_def O_WRONLY_def O_EXCL_def)
  then show ?thesis
    using assms df_new_fresh [of w]
    by (auto simp: demo_os_def df_openat_def demo_view_def EEXIST_def split: option.splits)
qed

lemma demo_os_writes: "os_writes demo_view demo_os"
  unfolding os_writes_def using df_writev_ok by (auto simp: demo_os_def)

lemma demo_os_ok: "os_dir_ok d demo_view demo_os"
proof -
  have o: "os_openat demo_os d name fl w = (fd, w') \<longrightarrow> fd < 0 \<longrightarrow> os_quiet demo_view w w'" for name fl w fd w'
    by (auto simp: demo_os_def df_openat_def split: option.splits if_splits)
  have u: "os_unlinkat demo_os d a w = (n, w') \<longrightarrow>
    (if n = 0 then v_dir demo_view w' = (v_dir demo_view w)(a := None) \<and>
      v_fd demo_view w' = v_fd demo_view w \<and> v_data demo_view w' = v_data demo_view w
     else os_quiet demo_view w w')" for a w n w'
    by (auto simp: demo_os_def demo_view_def map_of_filter_key)
  have c: "v_dir demo_view (os_close demo_os fd w) = v_dir demo_view w \<and>
      v_data demo_view (os_close demo_os fd w) = v_data demo_view w" for fd w
    by (simp add: demo_os_def demo_view_def)
  note all = demo_os_writes allI [OF allI [OF allI [OF allI [OF allI [OF o]]]]]
    allI [OF allI [OF allI [OF allI [OF impI [OF impI [OF df_creat_ok]]]]]]
    allI [OF allI [OF allI [OF allI [OF allI [OF impI [OF df_renameat_ok]]]]]]
    allI [OF allI [OF allI [OF allI [OF u]]]] allI [OF allI [OF c]]
  show ?thesis
    unfolding os_dir_ok_def by (intro conjI [OF all(1)] conjI [OF all(2)] conjI [OF all(3)] conjI [OF all(4)] conjI [OF all(5)] all(6))
qed

text \<open>
  C39: the temporary name is the file's name with 21 bytes appended.  If that is longer than \<open>NAME_MAX\<close>, the
  code means to drop the excess from the front, but moves the pointer to before the buffer, so that for
  the names of 235 to 255 bytes, which are valid, what happens is undefined.
\<close>

theorem json_dump_long_name:
  "234 < length name \<Longrightarrow> length name \<le> NAME_MAX \<Longrightarrow> json_dump_file_at S dumping d name rng w = None"
  by (subst json_dump_file_at.simps)
    (simp add: hex64_def TMPNAME_MAX_def NAME_MAX_def Let_def split: prod.splits)

theorem json_dump_long_name_witness:
  "json_dump_file_at demo_os (\<lambda>fd w. Some (0, w)) 5 (replicate 240 97) prng_zero
     \<lparr>df_dir = [], df_fds = [], df_data = \<lambda>_. []\<rparr> = None"
  by (rule json_dump_long_name) (simp_all add: NAME_MAX_def)

text \<open>Storing \<open>{}\<close> over an old file.\<close>

definition demo_fs0 :: demo_fs where
  "demo_fs0 = \<lparr>df_dir = [(str ''b'', 1)], df_fds = [], df_data = (\<lambda>_. [])(1 := str ''old'')\<rparr>"

lemma demo_dumpfd:
  assumes "js_dump_chunks J j json = Some [str ''{'', str ''}'']" "length junk = DUMP_BUFSIZE"
    "map_of (df_fds w) fd = Some i"
  shows "json_dumpfd_ex demo_os J junk j json fd w =
    Some (0, w\<lparr>df_data := (df_data w)(i := df_data w i @ str ''{}'')\<rparr>)"
proof -
  have "take (Suc (Suc 0)) (blit (blit junk 0 (str ''{'')) (Suc 0) (str ''}'')) = str ''{}''"
    using assms(2) take_blit_end [of 1 "blit junk 0 (str ''{'')" "str ''}''"]
      take_blit_end [of 0 junk "str ''{''"]
    by (simp add: length_blit DUMP_BUFSIZE_def str_def numeral_2_eq_2)
  then show ?thesis
    using assms by (simp add: json_dumpfd_ex_def demo_os_def dump_cb_def DUMP_BUFSIZE_def xwritev.simps
      xfsync.simps df_writev_def)
qed

definition demo_txt :: "cells jansson" where
  "demo_txt = demo_jansson [str ''{'', str ''}''] NULL []"


end
