(* ===== verification/C_Numbers.thy ===== *)
theory C_Numbers
  imports C_Strings
begin

text \<open>
  Numbers in strings: \<open>strtoull\<close> and \<open>strtoll\<close> in base 10, as the C standard defines them, and the
  conversions of \<open>printf\<close> for 64-bit integers.  The string is the memory up to its NUL.
\<close>

definition isspace :: "u8 \<Rightarrow> bool" where
  "isspace b \<longleftrightarrow> b = 32 \<or> 9 \<le> b \<and> b \<le> 13"

definition isdigit :: "u8 \<Rightarrow> bool" where
  "isdigit b \<longleftrightarrow> 48 \<le> b \<and> b \<le> 57"

definition digits_value :: "bytes \<Rightarrow> nat" where
  "digits_value ds = foldl (\<lambda>v d. 10 * v + unat (d - 48)) 0 ds"

text \<open>
  The subject sequence: whether there is a minus sign, the digits, and the offset of what follows.  With
  no digit there is no conversion, and the offset is 0.
\<close>

definition strto :: "bytes \<Rightarrow> bool \<times> bytes \<times> nat" where
  "strto s =
     (let sp = length (takeWhile isspace s);
          t = drop sp s;
          neg = (t \<noteq> [] \<and> hd t = ch CHR ''-'');
          sign = (if t \<noteq> [] \<and> (hd t = ch CHR ''-'' \<or> hd t = 43) then 1 else 0);
          ds = takeWhile isdigit (drop sign t)
      in (neg, ds, if ds = [] then 0 else sp + sign + length ds))"

text \<open>The value, and the offset that is stored to \<open>end\<close>.\<close>

definition strtoull :: "bytes \<Rightarrow> u64 \<times> nat" where
  "strtoull s =
     (let (neg, ds, e) = strto (cstr s); v = digits_value ds
      in (if 2 ^ 64 \<le> v then - 1 else if neg then - of_nat v else of_nat v, e))"

definition LLONG_MAX :: int where "LLONG_MAX = 2 ^ 63 - 1"
definition LLONG_MIN :: int where "LLONG_MIN = - (2 ^ 63)"

definition strtoll :: "bytes \<Rightarrow> int \<times> nat" where
  "strtoll s =
     (let (neg, ds, e) = strto (cstr s); v = (if neg then - int (digits_value ds) else int (digits_value ds))
      in (if v < LLONG_MIN then LLONG_MIN else if LLONG_MAX < v then LLONG_MAX else v, e))"

text \<open>\<open>%\<close> with \<open>PRIi64\<close>.\<close>

definition dec_int :: "int \<Rightarrow> bytes" where
  "dec_int v = (if v < 0 then ch CHR ''-'' # dec (nat (- v)) else dec (nat v))"

section \<open>Facts\<close>

lemma digits_value_append: "digits_value (ds @ [d]) = 10 * digits_value ds + unat (d - 48)"
  by (simp add: digits_value_def)

lemma digit_unat: "k < 10 \<Longrightarrow> unat ((48 :: u8) + of_nat k - 48) = k"
proof -
  assume "k < 10"
  then have "unat (of_nat k :: u8) = k" by (simp add: unsigned_of_nat take_bit_nat_eq_self)
  then show ?thesis by simp
qed

lemma digits_value_dec: "digits_value (dec n) = n"
proof (induction n rule: dec.induct)
  case (1 n)
  show ?case
  proof (cases "n < 10")
    case True
    then show ?thesis using digit_unat [of n] by (subst dec.simps) (simp add: digits_value_def)
  next
    case False
    then show ?thesis
      using 1 digit_unat [of "n mod 10"] by (subst dec.simps) (simp add: digits_value_append)
  qed
qed

lemma dec_isdigit: "b \<in> set (dec n) \<Longrightarrow> isdigit b"
  using dec_digits [of n] by (auto simp: isdigit_def)

lemma takeWhile_dec: "takeWhile isdigit (dec n) = dec n"
  using dec_isdigit [of _ n] by (simp add: takeWhile_eq_all_conv)

lemma digit_no_space: "isdigit b \<Longrightarrow> \<not> isspace b \<and> b \<noteq> 45 \<and> b \<noteq> 43"
proof -
  assume *: "isdigit b"
  have "b \<noteq> 32" "b \<noteq> 45" "b \<noteq> 43" "\<not> b \<le> 13"
    using * by (auto simp: isdigit_def word_le_nat_alt)
  then show ?thesis by (auto simp: isspace_def)
qed

lemma strto_dec: "strto (dec n) = (False, dec n, length (dec n))"
proof -
  obtain d ds where d: "dec n = d # ds" using dec_nonempty [of n] by (cases "dec n") auto
  then have "isdigit d" using dec_isdigit [of d n] by simp
  then have "\<not> isspace d" "d \<noteq> 45" "d \<noteq> 43" using digit_no_space by auto
  then show ?thesis using takeWhile_dec [of n] by (simp add: strto_def Let_def d)
qed

lemma strtoull_dec: "n < 2 ^ 64 \<Longrightarrow> strtoull (dec n) = (of_nat n, length (dec n))"
  using dec_no_nul [of n] by (simp add: strtoull_def cstr_id strto_dec digits_value_dec)

lemma strtoll_dec: "n < 2 ^ 63 \<Longrightarrow> strtoll (dec n) = (int n, length (dec n))"
proof -
  assume n: "n < 2 ^ 63"
  then have "int n < 2 ^ 63" using of_nat_less_iff [of n "2 ^ 63", where 'a = int] by simp
  then show ?thesis using dec_no_nul [of n]
    by (simp add: strtoll_def cstr_id strto_dec digits_value_dec LLONG_MIN_def LLONG_MAX_def)
qed

end
