(* ===== verification/Chromium_Types.thy ===== *)
theory Chromium_Types
  imports Json_File C_Numbers Md5 Hashmap_Table
begin

text \<open>
  \<open>backend_chromium.c\<close>: the state of the backend, its environment, and the three hash tables that find
  an entry by its id, by its GUID, and by its folder and name.  An entry is a \<open>struct node_entry\<close> on the
  heap \<open>cs_nodes\<close>; the tables hold pointers to entries.
\<close>

section \<open>State\<close>

datatype dirty_level = DIRTY_LEVEL_NONE | DIRTY_LEVEL_METADATA | DIRTY_LEVEL_DATA

fun dirty_rank :: "dirty_level \<Rightarrow> nat" where
  "dirty_rank DIRTY_LEVEL_NONE = 0"
| "dirty_rank DIRTY_LEVEL_METADATA = 1"
| "dirty_rank DIRTY_LEVEL_DATA = 2"

instantiation dirty_level :: linorder
begin

definition less_eq_dirty_level :: "dirty_level \<Rightarrow> dirty_level \<Rightarrow> bool" where
  "a \<le> b \<longleftrightarrow> dirty_rank a \<le> dirty_rank b"

definition less_dirty_level :: "dirty_level \<Rightarrow> dirty_level \<Rightarrow> bool" where
  "a < b \<longleftrightarrow> dirty_rank a < dirty_rank b"

instance
proof
  fix a b :: dirty_level
  show "a \<le> b \<Longrightarrow> b \<le> a \<Longrightarrow> a = b"
    unfolding less_eq_dirty_level_def by (cases a; cases b) simp_all
qed (auto simp: less_eq_dirty_level_def less_dirty_level_def)

end

record node_entry =
  ne_id :: u64
  ne_parent_id :: u64
  ne_guid :: bytes
  ne_name :: "bytes option"
  ne_node :: jref
  ne_children :: jref

record chromium_ctx =
  cc_watcher :: ptr
  cc_id_map :: "ptr hashmap option"
  cc_assoc_map :: "ptr hashmap option"
  cc_guid_map :: "ptr hashmap option"
  cc_store :: jref
  cc_checksum :: jref
  cc_roots :: jref
  cc_fake_root :: jref
  cc_max_id :: u64
  cc_cd :: int
  cc_dirty :: dirty_level
  cc_dirfd :: int
  cc_name :: bytes
  cc_flags :: u32
  cc_watcher_flags :: u32

text \<open>\<open>struct bookmark_gcookie\<close> and \<open>struct bookmark_lcookie\<close>.\<close>

datatype chromium_cookie =
    GCookie (gc_store: jref) (gc_checksum: jref)
  | LCookie (lc_children: jref) (lc_idx: nat)

text \<open>
  The whole state: the context, the JSON values, the world outside, the state of the random number
  generator, and the heap of entries and cookies, whose addresses from \<open>cs_brk\<close> on are free.
\<close>

record ('j, 'w) chromium_state =
  cs_ctx :: chromium_ctx
  cs_j :: 'j
  cs_w :: 'w
  cs_rng :: prng
  cs_nodes :: "ptr \<Rightarrow> node_entry option"
  cs_cookies :: "ptr \<Rightarrow> chromium_cookie option"
  cs_brk :: ptr

text \<open>
  The environment.  \<open>ce_hash\<close> is the hash of \<open>hash.c\<close> under the seed of the process: \<open>hash_digest_one\<close>
  of the bytes, or \<open>hash_update\<close> with them piece by piece.  \<open>ce_iconv\<close> gives the converted bytes, \<open>None\<close>
  on an error.  \<open>ce_junk\<close> is what a buffer on the stack holds before it is written.
\<close>

record ('j, 'w) chromium_env =
  ce_js :: "'j jansson"
  ce_os :: "'w os"
  ce_hash :: "bytes \<Rightarrow> u64"
  ce_junk :: bytes
  ce_iconv_open :: "'w \<Rightarrow> int \<times> 'w"
  ce_iconv :: "int \<Rightarrow> bytes \<Rightarrow> 'w \<Rightarrow> bytes option \<times> 'w"
  ce_watcher_create :: "int \<Rightarrow> bytes \<Rightarrow> u32 \<Rightarrow> 'w \<Rightarrow> ptr \<times> 'w"
  ce_watcher_poll :: "ptr \<Rightarrow> 'w \<Rightarrow> int \<times> 'w"
  ce_watcher_destroy :: "ptr \<Rightarrow> 'w \<Rightarrow> 'w"
  ce_sandbox_enter :: "int \<Rightarrow> u32 \<Rightarrow> 'w \<Rightarrow> int \<times> 'w"
  ce_basename_opendir :: "bytes \<Rightarrow> 'w \<Rightarrow> (int \<times> bytes) \<times> 'w"
  ce_faccessat :: "int \<Rightarrow> bytes \<Rightarrow> 'w \<Rightarrow> int \<times> 'w"

definition BACKEND_FILENAME_GUID :: u32 where "BACKEND_FILENAME_GUID = 0x10000"
definition WATCHER_FALLBACK :: u32 where "WATCHER_FALLBACK = 1"
definition WATCHER_NOOP :: u32 where "WATCHER_NOOP = 2"
definition WATCHER_SANDBOX_FLAGS_OFFSET :: nat where "WATCHER_SANDBOX_FLAGS_OFFSET = 16"
definition BOOKMARKS_ROOT_ID :: u64 where "BOOKMARKS_ROOT_ID = 0"
definition EPOCH_DIFF :: int where "EPOCH_DIFF = 11644473600"
definition TIMESPEC_SEC_MAX :: int where "TIMESPEC_SEC_MAX = 9211727563253"

definition valid_ts_sec :: "int \<Rightarrow> bool" where
  "valid_ts_sec sec \<longleftrightarrow> 0 \<le> sec \<and> sec \<le> TIMESPEC_SEC_MAX"

section \<open>The tables\<close>

definition hash_assoc :: "(bytes \<Rightarrow> u64) \<Rightarrow> u64 \<Rightarrow> bytes \<Rightarrow> u64" where
  "hash_assoc h parent_id name = h (le_bytes 8 parent_id @ name)"

definition hash_id :: "(bytes \<Rightarrow> u64) \<Rightarrow> u64 \<Rightarrow> u64" where
  "hash_id h i = h (le_bytes 8 i)"

text \<open>
  The callbacks of the tables, on a pointer to an entry.  A pointer that is not one reads as an entry
  with no name here; the tables hold none (\<open>maps_ok\<close>).
\<close>

definition no_entry :: node_entry where
  "no_entry = \<lparr>ne_id = 0, ne_parent_id = 0, ne_guid = [], ne_name = None, ne_node = NULL, ne_children = NULL\<rparr>"

definition entry_at :: "(ptr \<Rightarrow> node_entry option) \<Rightarrow> ptr \<Rightarrow> node_entry" where
  "entry_at nodes p = (case nodes p of Some e \<Rightarrow> e | None \<Rightarrow> no_entry)"

definition assocmap_comp :: "(ptr \<Rightarrow> node_entry option) \<Rightarrow> u64 \<Rightarrow> bytes \<Rightarrow> ptr \<Rightarrow> int" where
  "assocmap_comp nodes parent_id name p =
     (let e = entry_at nodes p in
      if parent_id \<noteq> ne_parent_id e then -1
      else if ne_name e \<noteq> Some name then -1
      else 0)"

definition assocmap_hash :: "(bytes \<Rightarrow> u64) \<Rightarrow> (ptr \<Rightarrow> node_entry option) \<Rightarrow> ptr \<Rightarrow> u64" where
  "assocmap_hash h nodes p =
     (let e = entry_at nodes p in hash_assoc h (ne_parent_id e) (case ne_name e of Some n \<Rightarrow> n | None \<Rightarrow> []))"

definition guidmap_comp :: "(ptr \<Rightarrow> node_entry option) \<Rightarrow> bytes \<Rightarrow> ptr \<Rightarrow> int" where
  "guidmap_comp nodes guid p = (if guid = ne_guid (entry_at nodes p) then 0 else 1)"

definition guidmap_hash :: "(bytes \<Rightarrow> u64) \<Rightarrow> (ptr \<Rightarrow> node_entry option) \<Rightarrow> ptr \<Rightarrow> u64" where
  "guidmap_hash h nodes p = h (ne_guid (entry_at nodes p))"

definition idmap_comp :: "(ptr \<Rightarrow> node_entry option) \<Rightarrow> u64 \<Rightarrow> ptr \<Rightarrow> int" where
  "idmap_comp nodes i p = (if i \<noteq> ne_id (entry_at nodes p) then -1 else 0)"

definition idmap_hash :: "(bytes \<Rightarrow> u64) \<Rightarrow> (ptr \<Rightarrow> node_entry option) \<Rightarrow> ptr \<Rightarrow> u64" where
  "idmap_hash h nodes p = hash_id h (ne_id (entry_at nodes p))"

text \<open>
  \<open>None\<close> when the search aborts or the table does not exist, \<open>Some None\<close> when there is no such entry,
  else the entry with the position that \<open>hashmap_search\<close> stores to \<open>entry_id_ptr\<close>.
\<close>

definition lookup_assoc ::
  "(bytes \<Rightarrow> u64) \<Rightarrow> (ptr \<Rightarrow> node_entry option) \<Rightarrow> ptr hashmap option \<Rightarrow> u64 \<Rightarrow> bytes \<Rightarrow> (ptr \<times> int) option option" where
  "lookup_assoc h nodes m parent_id name = do {
     m \<leftarrow> m;
     hashmap_search (assocmap_comp nodes parent_id name) m (hash_assoc h parent_id name)
   }"

definition lookup_guid ::
  "(bytes \<Rightarrow> u64) \<Rightarrow> (ptr \<Rightarrow> node_entry option) \<Rightarrow> ptr hashmap option \<Rightarrow> bytes \<Rightarrow> (ptr \<times> int) option option" where
  "lookup_guid h nodes m guid = do {
     m \<leftarrow> m;
     hashmap_search (guidmap_comp nodes guid) m (h guid)
   }"

definition lookup_id ::
  "(bytes \<Rightarrow> u64) \<Rightarrow> (ptr \<Rightarrow> node_entry option) \<Rightarrow> ptr hashmap option \<Rightarrow> u64 \<Rightarrow> (ptr \<times> node_entry) option option" where
  "lookup_id h nodes m i = do {
     m \<leftarrow> m;
     r \<leftarrow> hashmap_search (idmap_comp nodes i) m (hash_id h i);
     (case r of
        None \<Rightarrow> Some None
      | Some (p, _) \<Rightarrow> do { e \<leftarrow> nodes p; Some (Some (p, e)) })
   }"

section \<open>GUIDs and names\<close>

text \<open>A negative status, or 0 with the GUID.\<close>

definition parse_guid :: "bytes option \<Rightarrow> int \<times> bytes" where
  "parse_guid s =
     (case s of
        None \<Rightarrow> (-1, [])
      | Some s \<Rightarrow> if length s \<noteq> UUID_HEX_LEN then (-1, []) else uuid_hex2bin s)"

text \<open>\<open>struct lookup_ctx\<close>.\<close>

record lookup_ctx =
  lx_hashcode :: u64
  lx_entry_id :: int
  lx_guid :: bytes

text \<open>
  The result: status, what is stored to \<open>lctx\<close>, what is stored to \<open>entry_ptr\<close>.  \<open>lx_guid\<close> matters only
  where names are GUIDs.
\<close>

definition lookup_name ::
  "('j, 'w) chromium_env \<Rightarrow> ('j, 'w) chromium_state \<Rightarrow> u64 \<Rightarrow> bytes \<Rightarrow> (int \<times> lookup_ctx \<times> ptr option) option" where
  "lookup_name E s parent_id name =
     (let ctx = cs_ctx s; h = ce_hash E; nodes = cs_nodes s in
      if has_flag (cc_flags ctx) BACKEND_FILENAME_GUID then
        (case parse_guid (Some name) of (status, guid) \<Rightarrow>
           if status \<noteq> 0 then Some (-1, \<lparr>lx_hashcode = 0, lx_entry_id = 0, lx_guid = guid\<rparr>, None)
           else do {
             r \<leftarrow> lookup_guid h nodes (cc_guid_map ctx) guid;
             (case r of
                None \<Rightarrow> Some (-1, \<lparr>lx_hashcode = h guid, lx_entry_id = 0, lx_guid = guid\<rparr>, None)
              | Some (p, entry_id) \<Rightarrow> do {
                  e \<leftarrow> nodes p;
                  Some (if ne_parent_id e \<noteq> parent_id then -1 else 0,
                    \<lparr>lx_hashcode = h guid, lx_entry_id = entry_id, lx_guid = guid\<rparr>, Some p)
                })
           })
      else do {
        r \<leftarrow> lookup_assoc h nodes (cc_assoc_map ctx) parent_id name;
        Some (case r of
            None \<Rightarrow> (-1, \<lparr>lx_hashcode = hash_assoc h parent_id name, lx_entry_id = 0, lx_guid = []\<rparr>, None)
          | Some (p, entry_id) \<Rightarrow>
              (0, \<lparr>lx_hashcode = hash_assoc h parent_id name, lx_entry_id = entry_id, lx_guid = []\<rparr>, Some p))
      })"

end
