(* ===== verification/Chromium_Nodes.thy ===== *)
theory Chromium_Nodes
  imports Chromium_Types
begin

text \<open>
  The fields of a bookmark node: what \<open>backend_chromium.c\<close> reads from a node of the store (ids, time
  stamps, attributes) and how it builds a new one.
\<close>

section \<open>Reading\<close>

text \<open>
  The value of a string of JSON is in memory with a NUL after it.  \<open>parse_id\<close> gives the id, \<open>None\<close> where
  the source returns -1.
\<close>

definition parse_id :: "'j jansson \<Rightarrow> 'j \<Rightarrow> jref \<Rightarrow> u64 option" where
  "parse_id J j node =
     (case js_string_value J j (json_object_sget J j node ''id'') of
        None \<Rightarrow> None
      | Some s \<Rightarrow>
          (if s = [] then None
           else
             (let (id_val, end_off) = strtoull (s @ [0]) in
              if (s @ [0]) ! end_off \<noteq> 0 then None
              else if id_val > BOOKMARKFS_MAX_ID then None
              else Some id_val)))"

text \<open>\<open>parse_ts\<close> with a \<open>time_t\<close> of 64 bits; the division is on a number that is not negative.\<close>

definition parse_ts :: "bytes \<Rightarrow> timespec option" where
  "parse_ts s =
     (let (microsecs, end_off) = strtoll (s @ [0]) in
      if (s @ [0]) ! end_off \<noteq> 0 \<or> microsecs < 0 \<or> microsecs = LLONG_MAX then None
      else
        (let secs = microsecs div 1000000 - EPOCH_DIFF;
             secs = (if secs < 0 then 0 else secs)
         in Some \<lparr>tv_sec = secs, tv_nsec = (microsecs mod 1000000) * 1000\<rparr>))"

text \<open>
  The result of \<open>parse_stats\<close>: status, and the attributes with those fields set that the source sets
  before it returns.
\<close>

definition parse_stats :: "'j jansson \<Rightarrow> 'j \<Rightarrow> node_entry \<Rightarrow> bookmark_stat \<Rightarrow> int \<times> bookmark_stat" where
  "parse_stats J j ent buf =
     (let node = ne_node ent in
      case js_string_value J j (json_object_sget J j node ''date_last_used'') of
        None \<Rightarrow> (- EIO, buf)
      | Some atime \<Rightarrow>
          (case parse_ts atime of
             None \<Rightarrow> (- EIO, buf)
           | Some atime \<Rightarrow>
               (let buf = buf\<lparr>bs_atime := atime\<rparr>;
                    mtime_node = json_object_sget J j node ''date_modified'';
                    mtime_node = (if mtime_node = NULL then json_object_sget J j node ''date_added'' else mtime_node)
                in case js_string_value J j mtime_node of
                     None \<Rightarrow> (- EIO, buf)
                   | Some mtime \<Rightarrow>
                       (case parse_ts mtime of
                          None \<Rightarrow> (- EIO, buf)
                        | Some mtime \<Rightarrow>
                            (0, buf\<lparr>bs_mtime := mtime,
                               value_len := (if ne_children ent = NULL
                                  then int (js_string_length J j (json_object_sget J j node ''url'')) else -1)\<rparr>)))))"

text \<open>
  \<open>parse_entry\<close>: what it stores in \<open>buf\<close>, \<open>Inl\<close> where the source returns -1.  The assertions of
  \<open>debug_assert\<close> that fail are \<open>None\<close>.
\<close>

definition parse_entry ::
  "('j, 'w) chromium_env \<Rightarrow> ('j, 'w) chromium_state \<Rightarrow> jref \<Rightarrow> nat \<Rightarrow> bool \<Rightarrow> bookmark_entry \<Rightarrow>
    (int + bookmark_entry) option" where
  "parse_entry E s node off with_stat buf =
     (let J = ce_js E; j = cs_j s in do {
        i \<leftarrow> parse_id J j node;
        r \<leftarrow> lookup_id (ce_hash E) (cs_nodes s) (cc_id_map (cs_ctx s)) i;
        (case r of
           None \<Rightarrow> Some (Inl (-1))
         | Some (p, ent) \<Rightarrow>
             (case ne_name ent of
                None \<Rightarrow> Some (Inl (-1))
              | Some name \<Rightarrow> do {
                  name \<leftarrow> (if has_flag (cc_flags (cs_ctx s)) BACKEND_FILENAME_GUID
                           then js_string_value J j (json_object_sget J j (ne_node ent) ''guid'')
                           else Some name);
                  let buf = buf\<lparr>be_name := name, be_off := off, be_stat := (be_stat buf)\<lparr>bs_id := i\<rparr>\<rparr>;
                  (if with_stat then
                     (case parse_stats J j ent (be_stat buf) of (status, st) \<Rightarrow>
                        Some (if status \<noteq> 0 then Inl (-1) else Inr (buf\<lparr>be_stat := st\<rparr>)))
                   else Some (Inr (buf\<lparr>be_stat := (be_stat buf)
                          \<lparr>value_len := (if ne_children ent = NULL then 0 else -1)\<rparr>\<rparr>)))
                }))
      })"

text \<open>The attributes; the enum of the source.\<close>

datatype xattr_id = BM_XATTR_NULL | BM_XATTR_DATE_ADDED | BM_XATTR_GUID | BM_XATTR_TITLE

definition get_xattr_id :: "bytes option \<Rightarrow> u32 \<Rightarrow> xattr_id option" where
  "get_xattr_id name flags =
     (case name of
        None \<Rightarrow> Some BM_XATTR_NULL
      | Some name \<Rightarrow>
          (if name = str ''date_added'' then Some BM_XATTR_DATE_ADDED
           else if has_flag flags BACKEND_FILENAME_GUID then
             (if name = str ''title'' then Some BM_XATTR_TITLE else None)
           else (if name = str ''guid'' then Some BM_XATTR_GUID else None)))"

definition get_xattr_val ::
  "'j jansson \<Rightarrow> 'j \<Rightarrow> jref \<Rightarrow> bytes option \<Rightarrow> u32 \<Rightarrow> int + xattr_id \<times> jref" where
  "get_xattr_val J j node xattr_name flags =
     (case get_xattr_id xattr_name flags of
        None \<Rightarrow> Inl (- ENOATTR)
      | Some xid \<Rightarrow>
          (let value = json_object_sget J j node
                 (case xid of BM_XATTR_NULL \<Rightarrow> ''url'' | BM_XATTR_DATE_ADDED \<Rightarrow> ''date_added''
                  | BM_XATTR_GUID \<Rightarrow> ''guid'' | BM_XATTR_TITLE \<Rightarrow> ''name'')
           in if value = NULL then Inl (if xattr_name = None then - EIO else - EISDIR)
              else Inr (xid, value)))"

section \<open>Building\<close>

text \<open>
  \<open>build_tsnode\<close> with a time.  The product is \<open>None\<close> where it overflows 64 bits (undefined in C); \<open>/\<close>
  truncates, and \<open>tv_nsec\<close> is not negative.
\<close>

definition build_tsnode :: "'j jansson \<Rightarrow> timespec \<Rightarrow> 'j \<Rightarrow> (jref \<times> 'j) option" where
  "build_tsnode J ts j =
     (let secs = tv_sec ts + EPOCH_DIFF;
          microsecs = secs * 1000000 + tv_nsec ts div 1000
      in if microsecs < LLONG_MIN \<or> LLONG_MAX < microsecs then None
         else
           (let txt = dec_int microsecs
            in if length txt < 32 then Some (js_stringn_nocheck J txt j) else None))"

text \<open>\<open>build_tsnode(NULL, ...)\<close> takes the time of now.\<close>

definition build_tsnode_now ::
  "('j, 'w) chromium_env \<Rightarrow> 'j \<Rightarrow> 'w \<Rightarrow> (jref \<times> 'j \<times> 'w) option" where
  "build_tsnode_now E j w =
     (case xgetrealtime (ce_os E) w of (now, w) \<Rightarrow> do {
        (node, j) \<leftarrow> build_tsnode (ce_js E) now j;
        Some (node, j, w)
      })"

definition node_mtime_now ::
  "('j, 'w) chromium_env \<Rightarrow> jref \<Rightarrow> ('j, 'w) chromium_state \<Rightarrow> (jref \<times> ('j, 'w) chromium_state) option" where
  "node_mtime_now E node s = do {
     (tsnode, j, w) \<leftarrow> build_tsnode_now E (cs_j s) (cs_w s);
     Some (tsnode, s\<lparr>cs_j := json_object_sset (ce_js E) node ''date_modified'' tsnode j, cs_w := w\<rparr>)
   }"

text \<open>\<open>None\<close> where the source returns -1; the text of an id of 64 bits always fits its buffer.\<close>

definition build_node_id :: "'j jansson \<Rightarrow> jref \<Rightarrow> u64 \<Rightarrow> 'j \<Rightarrow> (u64 \<times> 'j) option" where
  "build_node_id J node max_id j =
     (let id_val = max_id + 1 in
      if id_val > BOOKMARKFS_MAX_ID then None
      else
        (let txt = dec (unat id_val) in
         if length txt \<ge> 24 then None
         else
           (let (id_node, j) = js_stringn_nocheck J txt j
            in Some (id_val, json_object_sset J node ''id'' id_node j))))"

text \<open>
  \<open>continue\<close> in a \<open>do\<close> ... \<open>while (0)\<close> leaves the loop: a GUID that is taken is not generated anew, and
  the hash code is not stored.  The result: the GUID, the hash code if stored, and the new state.
\<close>

definition build_node_guid ::
  "('j, 'w) chromium_env \<Rightarrow> jref \<Rightarrow> ('j, 'w) chromium_state \<Rightarrow> (bytes \<times> u64 option \<times> ('j, 'w) chromium_state) option" where
  "build_node_guid E node s =
     (case uuid_generate_random (cs_rng s) of (guid, rng) \<Rightarrow> do {
        taken \<leftarrow> lookup_guid (ce_hash E) (cs_nodes s) (cc_guid_map (cs_ctx s)) guid;
        let hashcode = (if taken \<noteq> None then None else Some (ce_hash E guid));
        let (guid_node, j) = js_stringn_nocheck (ce_js E) (uuid_bin2hex guid) (cs_j s);
        Some (guid, hashcode, s\<lparr>cs_rng := rng, cs_j := json_object_sset (ce_js E) node ''guid'' guid_node j\<rparr>)
      })"

text \<open>\<open>struct build_node_ctx\<close>: the GUID and hash code for the caller, and the attributes of the new node.\<close>

record build_node_ctx =
  bc_guid :: bytes
  bc_hashcode :: u64
  bc_stat :: "bookmark_stat option"

text \<open>
  The steps of \<open>build_node\<close>.  \<open>bctx\<close> has \<open>bc_stat = Some _\<close> where \<open>stat_buf\<close> is not \<open>NULL\<close>.  The result: the
  status, the context, the state; the new name is the old one in other memory.
\<close>

definition build_node_fields ::
  "('j, 'w) chromium_env \<Rightarrow> jref \<Rightarrow> bool \<Rightarrow> ('j, 'w) chromium_state \<Rightarrow> (timespec \<times> ('j, 'w) chromium_state) option" where
  "build_node_fields E node is_dir s =
     (let J = ce_js E; j = cs_j s;
          (v, j) = (if is_dir then js_new_array J j else json_sstring J '''' j);
          j = json_object_sset J node (if is_dir then ''children'' else ''url'') v j;
          (t, j) = json_sstring J (if is_dir then ''folder'' else ''url'') j;
          j = json_object_sset J node ''type'' t j;
          (ts, w) = xgetrealtime (ce_os E) (cs_w s)
      in do {
        (date_added, j) \<leftarrow> build_tsnode J ts j;
        let j = json_object_sset J node ''date_added'' date_added j;
        let j = json_object_sset_copy J node ''date_last_used'' date_added j;
        Some (ts, s\<lparr>cs_j := j, cs_w := w\<rparr>)
      })"

definition build_node ::
  "('j, 'w) chromium_env \<Rightarrow> jref \<Rightarrow> bytes \<Rightarrow> bool \<Rightarrow> build_node_ctx \<Rightarrow> ('j, 'w) chromium_state \<Rightarrow>
    (int \<times> build_node_ctx \<times> ('j, 'w) chromium_state) option" where
  "build_node E node name is_dir bctx s = do {
     (ts, s) \<leftarrow> build_node_fields E node is_dir s;
     (case build_node_id (ce_js E) node (cc_max_id (cs_ctx s)) (cs_j s) of
        None \<Rightarrow> Some (- EIO, bctx, s)
      | Some (max_id, j) \<Rightarrow>
          (let s = s\<lparr>cs_ctx := (cs_ctx s)\<lparr>cc_max_id := max_id\<rparr>\<rparr>;
               (name_node, j) = js_stringn (ce_js E) name j;
               s = s\<lparr>cs_j := j\<rparr>
           in if name_node = NULL then Some (- EPERM, bctx, s)
              else do {
                let s = s\<lparr>cs_j := json_object_sset (ce_js E) node ''name'' name_node j\<rparr>;
                (bctx, s) \<leftarrow>
                  (if has_flag (cc_flags (cs_ctx s)) BACKEND_FILENAME_GUID then
                     Some (bctx, s\<lparr>cs_j := json_object_sset_copy (ce_js E) node ''guid'' name_node (cs_j s)\<rparr>)
                   else do {
                     (guid, hc, s) \<leftarrow> build_node_guid E node s;
                     Some (bctx\<lparr>bc_guid := guid, bc_hashcode := (case hc of Some h \<Rightarrow> h | None \<Rightarrow> bc_hashcode bctx)\<rparr>, s)
                   });
                Some (0, bctx\<lparr>bc_stat := map_option (\<lambda>_. \<lparr>bs_id = cc_max_id (cs_ctx s),
                    value_len = (if is_dir then -1 else 0), bs_atime = ts, bs_mtime = ts\<rparr>) (bc_stat bctx)\<rparr>, s)
              }))
   }"

end
