(* ===== verification/Chromium_Walk.thy ===== *)
theory Chromium_Walk
  imports Chromium_Nodes
begin

text \<open>
  The traversal of the bookmark tree in \<open>backend_chromium.c\<close> (\<open>iter_node\<close>, \<open>iter_roots\<close>), with its explicit
  stack of at most 128 folders, and the check sum of the store that is computed by it.
\<close>

section \<open>The traversal\<close>

definition MAX_NODE_ITER_DEPTH :: nat where "MAX_NODE_ITER_DEPTH = 128"

text \<open>
  \<open>struct node_iter\<close>: the array of children, the next index, and the data of the parent for the callback.
  The top of the stack comes first.  The callback works on a state \<open>'d\<close> in which \<open>hp\<close> are the JSON values;
  it returns its status, the state, and the data for the children of the node.
\<close>

record 'p node_iter =
  ni_children :: jref
  ni_idx :: nat
  ni_parent :: 'p

type_synonym ('d, 'p) node_iter_func = "'d \<Rightarrow> jref \<Rightarrow> jref \<Rightarrow> 'p \<Rightarrow> (int \<times> 'd \<times> 'p) option"

text \<open>
  \<open>at\<close> tells where the loop is: at its head, or at the label \<open>get_children\<close> with a node.  The value \<open>None\<close>
  means that the callback aborts, or that the loop does not end.
\<close>

partial_function (option) iter_loop ::
  "'j jansson \<Rightarrow> ('d \<Rightarrow> 'j) \<Rightarrow> nat \<Rightarrow> ('d, 'p) node_iter_func \<Rightarrow> jref option \<Rightarrow> 'p node_iter list \<Rightarrow> 'd \<Rightarrow>
    (int \<times> 'd) option" where
  "iter_loop J hp iter_stack_size cb at stk d =
     (case stk of
        [] \<Rightarrow> None
      | it # below \<Rightarrow>
          (case at of
             None \<Rightarrow>
               (let node = js_array_get J (hp d) (ni_children it) (ni_idx it);
                    it = it\<lparr>ni_idx := Suc (ni_idx it)\<rparr>
                in if node = NULL then
                     (if below = [] then Some (0, d)
                      else iter_loop J hp iter_stack_size cb None below d)
                   else iter_loop J hp iter_stack_size cb (Some node) (it # below) d)
           | Some node \<Rightarrow>
               (let children = json_object_sget J (hp d) node ''children'' in do {
                  (status, d, parent_data) \<leftarrow> cb d node children (ni_parent it);
                  (if status \<noteq> 0 then Some (-1, d)
                   else if children = NULL then iter_loop J hp iter_stack_size cb None stk d
                   else if length stk = iter_stack_size then Some (-1, d)
                   else iter_loop J hp iter_stack_size cb None
                          (\<lparr>ni_children = children, ni_idx = 0, ni_parent = parent_data\<rparr> # stk) d)
                })))"

definition iter_node ::
  "'j jansson \<Rightarrow> ('d \<Rightarrow> 'j) \<Rightarrow> nat \<Rightarrow> ('d, 'p) node_iter_func \<Rightarrow> jref \<Rightarrow> 'p \<Rightarrow> 'd \<Rightarrow> (int \<times> 'd) option" where
  "iter_node J hp iter_stack_size cb node parent_data d =
     iter_loop J hp iter_stack_size cb (Some node)
       [\<lparr>ni_children = NULL, ni_idx = 0, ni_parent = parent_data\<rparr>] d"

fun iter_values ::
  "'j jansson \<Rightarrow> ('d \<Rightarrow> 'j) \<Rightarrow> ('d, 'p) node_iter_func \<Rightarrow> 'p \<Rightarrow> jref list \<Rightarrow> int \<Rightarrow> 'd \<Rightarrow> (int \<times> 'd) option" where
  "iter_values J hp cb parent_data [] status d = Some (status, d)"
| "iter_values J hp cb parent_data (node # nodes) status d = do {
     (status, d) \<leftarrow> iter_node J hp MAX_NODE_ITER_DEPTH cb node parent_data d;
     (if status \<noteq> 0 then Some (status, d) else iter_values J hp cb parent_data nodes status d)
   }"

text \<open>The members of \<open>roots\<close> are listed before the loop: the callbacks do not change this object.\<close>

definition iter_roots ::
  "'j jansson \<Rightarrow> ('d \<Rightarrow> 'j) \<Rightarrow> jref \<Rightarrow> ('d, 'p) node_iter_func \<Rightarrow> 'p \<Rightarrow> 'd \<Rightarrow> (int \<times> 'd) option" where
  "iter_roots J hp roots cb parent_data d =
     iter_values J hp cb parent_data (js_object_values J (hp d) roots) (-1) d"

section \<open>The check sum\<close>

text \<open>\<open>struct chksum_iter_ctx\<close>, without the buffer that \<open>chksum_utf16\<close> keeps for the next string.\<close>

record ('j, 'w) chksum_ctx =
  kx_mdctx :: md5_ctx
  kx_cd :: int
  kx_j :: 'j
  kx_w :: 'w

definition chksum_utf16 ::
  "('j, 'w) chromium_env \<Rightarrow> bytes \<Rightarrow> ('j, 'w) chksum_ctx \<Rightarrow> int \<times> ('j, 'w) chksum_ctx" where
  "chksum_utf16 E s ctx =
     (case ce_iconv E (kx_cd ctx) s (kx_w ctx) of
        (None, w) \<Rightarrow> (-1, ctx\<lparr>kx_w := w\<rparr>)
      | (Some out, w) \<Rightarrow> (0, ctx\<lparr>kx_w := w, kx_mdctx := md5_update (kx_mdctx ctx) out\<rparr>))"

definition chksum_iter_cb ::
  "('j, 'w) chromium_env \<Rightarrow> (('j, 'w) chksum_ctx, unit) node_iter_func" where
  "chksum_iter_cb E ctx node children parent_data =
     (let J = ce_js E; j = kx_j ctx;
          feed = (\<lambda>s ctx. ctx\<lparr>kx_mdctx := md5_update (kx_mdctx ctx) s\<rparr>)
      in do {
        i \<leftarrow> js_string_value J j (json_object_sget J j node ''id'');
        let ctx = feed i ctx;
        name \<leftarrow> js_string_value J j (json_object_sget J j node ''name'');
        (case chksum_utf16 E name ctx of (status, ctx) \<Rightarrow>
           if status \<noteq> 0 then Some (-1, ctx, ())
           else if children \<noteq> NULL then Some (0, feed (str ''folder'') ctx, ())
           else
             (let ctx = feed (str ''url'') ctx in do {
                url \<leftarrow> js_string_value J j (json_object_sget J j node ''url'');
                Some (0, feed url ctx, ())
              }))
      })"

definition init_iconv :: "('j, 'w) chromium_env \<Rightarrow> 'w \<Rightarrow> int option \<times> 'w" where
  "init_iconv E w =
     (case ce_iconv_open E w of (cd, w) \<Rightarrow> if cd = -1 then (None, w) else (Some cd, w))"

text \<open>The result: the hexadecimal text of the check sum, \<open>None\<close> inside where the source returns -1.\<close>

definition chksum_root ::
  "('j, 'w) chromium_env \<Rightarrow> ('j, 'w) chromium_state \<Rightarrow> (bytes option \<times> ('j, 'w) chromium_state) option" where
  "chksum_root E s =
     (case (if cc_cd (cs_ctx s) = -1 then init_iconv E (cs_w s) else (Some (cc_cd (cs_ctx s)), cs_w s)) of
        (None, w) \<Rightarrow> Some (None, s\<lparr>cs_w := w\<rparr>)
      | (Some cd, w) \<Rightarrow>
          (let s = s\<lparr>cs_w := w, cs_ctx := (cs_ctx s)\<lparr>cc_cd := cd\<rparr>\<rparr>;
               md0 = md5_init \<lparr>md5_st = (0, 0, 0, 0), md5_len = 0, md5_off = 0, md5_buf = take MD5_BLOCK_SIZE (ce_junk E)\<rparr>;
               kx = \<lparr>kx_mdctx = md0, kx_cd = cd, kx_j = cs_j s, kx_w = w\<rparr>
           in do {
             (status, kx) \<leftarrow> iter_roots (ce_js E) kx_j (cc_roots (cs_ctx s)) (chksum_iter_cb E) () kx;
             let s = s\<lparr>cs_w := kx_w kx\<rparr>;
             Some (if status \<noteq> 0 then None else Some (base16_encode (md5_digest (kx_mdctx kx))), s)
           }))"

end
