(* ===== verification/Chromium_Store.thy ===== *)
theory Chromium_Store
  imports Chromium_Walk
begin

text \<open>
  The store of the Chromium backend: loading it and building the lookup tables, saving it, making a new
  one, and the creation, sandboxing and destruction of the backend.
\<close>

section \<open>The heap of entries\<close>

definition new_node :: "node_entry \<Rightarrow> ('j, 'w) chromium_state \<Rightarrow> ptr \<times> ('j, 'w) chromium_state" where
  "new_node e s = (cs_brk s, s\<lparr>cs_nodes := (cs_nodes s)(cs_brk s \<mapsto> e), cs_brk := Suc (cs_brk s)\<rparr>)"

definition free_node :: "ptr \<Rightarrow> ('j, 'w) chromium_state \<Rightarrow> ('j, 'w) chromium_state" where
  "free_node p s = s\<lparr>cs_nodes := (cs_nodes s)(p := None)\<rparr>"

definition put_node :: "ptr \<Rightarrow> node_entry \<Rightarrow> ('j, 'w) chromium_state \<Rightarrow> ('j, 'w) chromium_state" where
  "put_node p e s = s\<lparr>cs_nodes := (cs_nodes s)(p \<mapsto> e)\<rparr>"

text \<open>The tables go away; the entries are those of the table of ids.\<close>

definition free_maps :: "ptr hashmap option \<Rightarrow> ('j, 'w) chromium_state \<Rightarrow> ('j, 'w) chromium_state" where
  "free_maps id_map s =
     (case id_map of None \<Rightarrow> s | Some m \<Rightarrow> fold free_node (hashmap_foreach m) s)"

text \<open>Insertion into a table that may not exist: the source dereferences the pointer.\<close>

definition map_insert :: "(ptr \<Rightarrow> u64) \<Rightarrow> ptr hashmap option \<Rightarrow> u64 \<Rightarrow> ptr \<Rightarrow> ptr hashmap option" where
  "map_insert H m hashcode p = do { m \<leftarrow> m; hashmap_insert H m hashcode p }"

definition map_remove :: "(ptr \<Rightarrow> u64) \<Rightarrow> ptr hashmap option \<Rightarrow> ptr \<Rightarrow> int \<Rightarrow> ptr hashmap option" where
  "map_remove H m p entry_id = do { m \<leftarrow> m; hashmap_update H m p None entry_id }"

section \<open>Building the tables\<close>

text \<open>\<open>struct idmap_iter_ctx\<close> with the state.\<close>

record ('j, 'w) idmap_iter_ctx =
  im_id_map :: "ptr hashmap"
  im_guid_map :: "ptr hashmap"
  im_assoc_map :: "ptr hashmap option"
  im_max_id :: u64
  im_s :: "('j, 'w) chromium_state"

definition im_json :: "('j, 'w) idmap_iter_ctx \<Rightarrow> 'j" where
  "im_json c = cs_j (im_s c)"

text \<open>The end of the callback: the label \<open>end\<close>.\<close>

definition maps_iter_end ::
  "u64 \<Rightarrow> ptr \<Rightarrow> ('j, 'w) idmap_iter_ctx \<Rightarrow> (int \<times> ('j, 'w) idmap_iter_ctx \<times> ptr) option" where
  "maps_iter_end i p c = Some (0, c\<lparr>im_max_id := (if i > im_max_id c then i else im_max_id c)\<rparr>, p)"

text \<open>The new entry gets a name, and goes to the table of names, if the name can be a file name.\<close>

definition maps_iter_name ::
  "('j, 'w) chromium_env \<Rightarrow> node_entry \<Rightarrow> bytes \<Rightarrow> ptr \<Rightarrow> node_entry \<Rightarrow> ('j, 'w) idmap_iter_ctx \<Rightarrow>
    ('j, 'w) idmap_iter_ctx option" where
  "maps_iter_name E parent name p e c =
     (case im_assoc_map c of
        None \<Rightarrow> Some c
      | Some assoc_map \<Rightarrow>
          (if ne_name parent = None \<and> ne_id parent \<noteq> BOOKMARKS_ROOT_ID then Some c
           else if fst (validate_filename name (length name)) \<noteq> 0 then Some c
           else do {
             let h = ce_hash E;
             let hashcode = hash_assoc h (ne_id parent) name;
             found \<leftarrow> hashmap_search (assocmap_comp (cs_nodes (im_s c)) (ne_id parent) name) assoc_map hashcode;
             (if found \<noteq> None then Some c
              else do {
                let s = put_node p (e\<lparr>ne_name := Some name\<rparr>) (im_s c);
                m \<leftarrow> hashmap_insert (assocmap_hash h (cs_nodes s)) assoc_map hashcode p;
                Some (c\<lparr>im_assoc_map := Some m, im_s := s\<rparr>)
              })
           }))"

definition maps_iter_cb ::
  "('j, 'w) chromium_env \<Rightarrow> (('j, 'w) idmap_iter_ctx, ptr) node_iter_func" where
  "maps_iter_cb E c node children parent_ptr =
     (let J = ce_js E; h = ce_hash E; j = im_json c; nodes = cs_nodes (im_s c) in do {
        parent \<leftarrow> nodes parent_ptr;
        (case parse_id J j node of
           None \<Rightarrow> Some (-1, c, parent_ptr)
         | Some i \<Rightarrow> do {
             found \<leftarrow> hashmap_search (idmap_comp nodes i) (im_id_map c) (hash_id h i);
             (if found \<noteq> None then Some (-1, c, parent_ptr)
              else
                (case parse_guid (js_string_value J j (json_object_sget J j node ''guid'')) of (status, guid) \<Rightarrow>
                   if status \<noteq> 0 then Some (-1, c, parent_ptr)
                   else do {
                     found \<leftarrow> hashmap_search (guidmap_comp nodes guid) (im_guid_map c) (h guid);
                     (if found \<noteq> None then Some (-1, c, parent_ptr)
                      else
                        (case js_string_value J j (json_object_sget J j node ''name'') of
                           None \<Rightarrow> Some (-1, c, parent_ptr)
                         | Some name \<Rightarrow> do {
                             let e = \<lparr>ne_id = i, ne_parent_id = ne_id parent, ne_guid = guid, ne_name = None,
                                      ne_node = node, ne_children = children\<rparr>;
                             let (p, s) = new_node e (im_s c);
                             id_map \<leftarrow> hashmap_insert (idmap_hash h (cs_nodes s)) (im_id_map c) (hash_id h i) p;
                             guid_map \<leftarrow> hashmap_insert (guidmap_hash h (cs_nodes s)) (im_guid_map c) (h guid) p;
                             let s = (if ne_id parent = BOOKMARKS_ROOT_ID
                                      then s\<lparr>cs_j := js_array_append J (ne_children parent) node (cs_j s)\<rparr> else s);
                             c \<leftarrow> maps_iter_name E parent name p e
                                    (c\<lparr>im_id_map := id_map, im_guid_map := guid_map, im_s := s\<rparr>);
                             maps_iter_end i p c
                           }))
                   }))
           })
      })"

text \<open>\<open>bookmarks::kRootNodeUuid\<close>.\<close>

definition root_guid :: bytes where
  "root_guid = [0x25, 0x09, 0xa7, 0xdc, 0x21, 0x5d, 0x52, 0xf7, 0xa4, 0x29, 0x8d, 0x80, 0x43, 0x1c, 0x6c, 0x75]"

text \<open>The node above the roots of the store: a folder with no children yet, and the state with it.\<close>

definition build_root :: "'j jansson \<Rightarrow> 'j \<Rightarrow> jref \<times> jref \<times> 'j" where
  "build_root J j =
     (let (ts_node, j) = json_sstring J ''0'' j;
          (root, j) = js_new_object J j;
          (children, j) = js_new_array J j;
          j = json_object_sset J root ''children'' children j;
          j = json_object_sset J root ''date_added'' ts_node j;
          j = json_object_sset_copy J root ''date_last_used'' ts_node j;
          j = json_object_sset_copy J root ''date_modified'' ts_node j
      in (root, children, j))"

definition root_entry :: "jref \<Rightarrow> jref \<Rightarrow> node_entry" where
  "root_entry root children = \<lparr>ne_id = BOOKMARKS_ROOT_ID, ne_parent_id = BOOKMARKS_ROOT_ID,
     ne_guid = root_guid, ne_name = Some [], ne_node = root, ne_children = children\<rparr>"

text \<open>The context of the traversal before its first step, with the pointer to the root entry.\<close>

definition build_maps_init ::
  "('j, 'w) chromium_env \<Rightarrow> ('j, 'w) chromium_state \<Rightarrow> (('j, 'w) idmap_iter_ctx \<times> ptr) option" where
  "build_maps_init E s =
     (let h = ce_hash E; (root, children, j) = build_root (ce_js E) (cs_j s);
          (p, s) = new_node (root_entry root children) (s\<lparr>cs_j := j\<rparr>)
      in do {
        id_map \<leftarrow> hashmap_insert (idmap_hash h (cs_nodes s)) hashmap_create (hash_id h BOOKMARKS_ROOT_ID) p;
        guid_map \<leftarrow> hashmap_insert (guidmap_hash h (cs_nodes s)) hashmap_create (h root_guid) p;
        Some (\<lparr>im_id_map = id_map, im_guid_map = guid_map,
               im_assoc_map = (if has_flag (cc_flags (cs_ctx s)) BACKEND_FILENAME_GUID then None
                               else Some hashmap_create),
               im_max_id = 0, im_s = s\<rparr>, p)
      })"

definition build_maps ::
  "('j, 'w) chromium_env \<Rightarrow> ('j, 'w) chromium_state \<Rightarrow> (int \<times> ('j, 'w) chromium_state) option" where
  "build_maps E s = do {
     (c, p) \<leftarrow> build_maps_init E s;
     let root = ne_node (entry_at (cs_nodes (im_s c)) p);
     (status, c) \<leftarrow> iter_roots (ce_js E) im_json (cc_roots (cs_ctx s)) (maps_iter_cb E) p c;
     let s = im_s c;
     (if status \<noteq> 0 then Some (-1, free_maps (Some (im_id_map c)) s)
      else
        (let s = free_maps (cc_id_map (cs_ctx s)) s in
         Some (0, s\<lparr>cs_ctx := (cs_ctx s)\<lparr>cc_id_map := Some (im_id_map c), cc_guid_map := Some (im_guid_map c),
           cc_assoc_map := im_assoc_map c, cc_max_id := im_max_id c, cc_fake_root := root\<rparr>\<rparr>)))
   }"

section \<open>Loading\<close>

text \<open>The watcher blocks the signals for its thread while it is created.  \<open>False\<close> where the source returns -1.\<close>

definition init_watcher ::
  "('j, 'w) chromium_env \<Rightarrow> ('j, 'w) chromium_state \<Rightarrow> bool \<times> ('j, 'w) chromium_state" where
  "init_watcher E s =
     (let ctx = cs_ctx s;
          (wt, w) = ce_watcher_create E (cc_dirfd ctx) (cc_name ctx) (cc_watcher_flags ctx) (cs_w s)
      in (wt \<noteq> NULL, s\<lparr>cs_w := w, cs_ctx := ctx\<lparr>cc_watcher := wt\<rparr>\<rparr>))"

text \<open>From the label \<open>do_load\<close> on.\<close>

definition do_load ::
  "('j, 'w) chromium_env \<Rightarrow> ('j, 'w) chromium_state \<Rightarrow> (int \<times> ('j, 'w) chromium_state) option" where
  "do_load E s =
     (let J = ce_js E;
          (store, j, w) = json_load_file_at (ce_os E) J (cc_dirfd (cs_ctx s)) (cc_name (cs_ctx s)) (cs_j s) (cs_w s);
          s = s\<lparr>cs_j := j, cs_w := w\<rparr>
      in if store = NULL then Some (-1, s)
         else
           (let checksum = json_object_sget J j store ''checksum'';
                version = json_object_sget J j store ''version'';
                roots = json_object_sget J j store ''roots''
            in if checksum = NULL then Some (-1, s)
               else if js_integer_value J j version \<noteq> 1 then Some (-1, s)
               else if roots = NULL then Some (-1, s)
               else do {
                 (status, s) \<leftarrow> build_maps E (s\<lparr>cs_ctx := (cs_ctx s)\<lparr>cc_roots := roots\<rparr>\<rparr>);
                 (if status \<noteq> 0 then Some (-1, s)
                  else
                    (let ctx = (cs_ctx s)\<lparr>cc_store := store, cc_checksum := checksum\<rparr>;
                         ctx = (if \<not> has_flag (cc_flags ctx) BACKEND_READONLY
                                then ctx\<lparr>cc_dirty := DIRTY_LEVEL_NONE\<rparr> else ctx)
                     in Some (0, s\<lparr>cs_ctx := ctx\<rparr>)))
               }))"

definition store_load ::
  "('j, 'w) chromium_env \<Rightarrow> ('j, 'w) chromium_state \<Rightarrow> (int \<times> ('j, 'w) chromium_state) option" where
  "store_load E s =
     (let ctx = cs_ctx s in
      if cc_watcher ctx = NULL then
        (case init_watcher E s of (ok, s) \<Rightarrow> if ok then do_load E s else Some (- EIO, s))
      else if cc_dirty ctx > DIRTY_LEVEL_NONE then Some (0, s)
      else
        (case ce_watcher_poll E (cc_watcher ctx) (cs_w s) of (r, w) \<Rightarrow>
           let s = s\<lparr>cs_w := w\<rparr> in
           if r = - EAGAIN then (if cc_store ctx = NULL then do_load E s else Some (0, s))
           else if r = 0 then do_load E (s\<lparr>cs_ctx := ctx\<lparr>cc_store := NULL\<rparr>\<rparr>)
           else if r = - ENOENT then Some (- ENXIO, s)
           else Some (- EIO, s)))"

section \<open>Saving\<close>

definition store_save ::
  "('j, 'w) chromium_env \<Rightarrow> ('j, 'w) chromium_state \<Rightarrow> (int \<times> ('j, 'w) chromium_state) option" where
  "store_save E s =
     (if cc_dirty (cs_ctx s) = DIRTY_LEVEL_NONE then Some (0, s)
      else do {
        (failed, s) \<leftarrow>
          (if cc_dirty (cs_ctx s) > DIRTY_LEVEL_METADATA then do {
             (sum, s) \<leftarrow> chksum_root E s;
             (case sum of
                None \<Rightarrow> Some (True, s)
              | Some txt \<Rightarrow>
                  (let (checksum, j) = js_stringn_nocheck (ce_js E) txt (cs_j s)
                   in Some (False, s\<lparr>cs_j := json_object_sset (ce_js E) (cc_store (cs_ctx s)) ''checksum'' checksum j\<rparr>)))
           }
           else Some (False, s));
        (if failed then Some (-1, s)
         else do {
           let ctx = cs_ctx s;
           (status, rng, w) \<leftarrow> json_dump_file_at (ce_os E)
             (json_dumpfd_ex (ce_os E) (ce_js E) (ce_junk E) (cs_j s) (cc_store ctx))
             (cc_dirfd ctx) (cc_name ctx) (cs_rng s) (cs_w s);
           let s = s\<lparr>cs_rng := rng, cs_w := w\<rparr>;
           (if status \<noteq> 0 then Some (-1, s)
            else
              (let w = snd (ce_watcher_poll E (cc_watcher ctx) w)
               in Some (0, s\<lparr>cs_w := w, cs_ctx := ctx\<lparr>cc_dirty := DIRTY_LEVEL_NONE\<rparr>\<rparr>)))
         })
      })"

section \<open>A new store\<close>

definition INIT_ROOT_NODE ::
  "'j jansson \<Rightarrow> jref \<times> jref \<times> jref \<times> jref \<Rightarrow> jref \<Rightarrow> string \<Rightarrow> string \<Rightarrow> string \<Rightarrow> string \<Rightarrow> 'j \<Rightarrow> 'j" where
  "INIT_ROOT_NODE J shared roots key rid name guid j =
     (let (children, date_added, zero_str, type) = shared;
          (root, j) = js_new_object J j;
          (v, j) = json_sstring J rid j; j = json_object_sset J root ''id'' v j;
          (v, j) = json_sstring J guid j; j = json_object_sset J root ''guid'' v j;
          (v, j) = json_sstring J name j; j = json_object_sset J root ''name'' v j;
          j = json_object_sset J root ''children'' children j;
          j = json_object_sset J root ''date_added'' date_added j;
          j = json_object_sset J root ''date_last_used'' zero_str j;
          j = json_object_sset J root ''date_modified'' zero_str j;
          j = json_object_sset J root ''type'' type j
      in json_object_sset J roots key root j)"

definition store_new :: "'j jansson \<Rightarrow> timespec \<Rightarrow> 'j \<Rightarrow> (jref \<times> 'j) option" where
  "store_new J btime j = do {
     (date_added, j) \<leftarrow> build_tsnode J btime j;
     let (children, j) = js_new_array J j;
     let (type, j) = json_sstring J ''folder'' j;
     let (zero_str, j) = json_sstring J ''0'' j;
     let (roots, j) = js_new_object J j;
     let shared = (children, date_added, zero_str, type);
     let j = INIT_ROOT_NODE J shared roots ''bookmark_bar'' ''1'' ''Bookmarks bar''
               ''0bc5d13f-2cba-5d74-951f-3f233fe6c908'' j;
     let j = INIT_ROOT_NODE J shared roots ''other'' ''2'' ''Other bookmarks''
               ''82b081ec-3dd3-529c-8475-ab6c344590dd'' j;
     let j = INIT_ROOT_NODE J shared roots ''synced'' ''3'' ''Mobile bookmarks''
               ''4cf2e351-0e85-532b-bb37-df045d8f8d0f'' j;
     let (store, j) = js_new_object J j;
     let (v, j) = json_sstring J ''1e54fbb25d92a354f7aeaf576726429e'' j;
     let j = json_object_sset J store ''checksum'' v j;
     let j = json_object_sset J store ''roots'' roots j;
     let (v, j) = js_new_integer J 1 j;
     let j = json_object_sset J store ''version'' v j;
     Some (store, j)
   }"

section \<open>Options\<close>

text \<open>An option is a key with an optional value; the result is \<open>None\<close> where the source returns -1.\<close>

fun parse_mkfsopts :: "conf_opts \<Rightarrow> timespec \<Rightarrow> timespec option" where
  "parse_mkfsopts [] btime = Some btime"
| "parse_mkfsopts ((key, val) # opts) btime =
     (if key = str ''date_added'' then
        (case val of
           None \<Rightarrow> None
         | Some v \<Rightarrow> (case parse_ts v of None \<Rightarrow> None | Some t \<Rightarrow> parse_mkfsopts opts t))
      else None)"

text \<open>\<open>struct parsed_mntopts\<close> is the pair of the flags for the watcher and the other flags.\<close>

fun parse_mntopts_loop :: "conf_opts \<Rightarrow> u32 \<times> u32 \<Rightarrow> (u32 \<times> u32) option" where
  "parse_mntopts_loop [] parsed = Some parsed"
| "parse_mntopts_loop ((key, val) # opts) (watcher_flags, other_flags) =
     (if key = str ''filename'' then
        (case val of
           None \<Rightarrow> None
         | Some v \<Rightarrow>
             (if v = str ''guid'' then parse_mntopts_loop opts (watcher_flags, other_flags OR BACKEND_FILENAME_GUID)
              else if v = str ''title'' then
                parse_mntopts_loop opts (watcher_flags, other_flags AND NOT BACKEND_FILENAME_GUID)
              else None))
      else if key = str ''watcher'' then
        (case val of
           None \<Rightarrow> None
         | Some v \<Rightarrow>
             (if v = str ''native'' then parse_mntopts_loop opts (0, other_flags)
              else if v = str ''fallback'' then parse_mntopts_loop opts (WATCHER_FALLBACK, other_flags)
              else if v = str ''none'' then parse_mntopts_loop opts (WATCHER_NOOP, other_flags)
              else None))
      else None)"

definition parse_mntopts :: "conf_opts \<Rightarrow> u32 \<Rightarrow> (u32 \<times> u32) option" where
  "parse_mntopts opts flags =
     (if has_flag flags BACKEND_FSCK_ONLY then Some (WATCHER_NOOP, 0)
      else parse_mntopts_loop opts (if has_flag flags BACKEND_READONLY then 0 else WATCHER_NOOP, 0))"

section \<open>Life of the backend\<close>

text \<open>
  The state before \<open>backend_create\<close> has no context: \<open>j\<close>, \<open>w\<close>, \<open>rng\<close> are what there is.  The result is
  \<open>None\<close> where the source returns -1; the last component are the names of the attributes.  Linux.
\<close>

definition chromium_ctx_init :: "bytes \<Rightarrow> int \<Rightarrow> u32 \<Rightarrow> u32 \<Rightarrow> chromium_ctx" where
  "chromium_ctx_init name dirfd flags watcher_flags = \<lparr>cc_watcher = NULL, cc_id_map = None,
     cc_assoc_map = None, cc_guid_map = None, cc_store = NULL, cc_checksum = NULL, cc_roots = NULL,
     cc_fake_root = NULL, cc_max_id = 0, cc_cd = -1, cc_dirty = DIRTY_LEVEL_NONE, cc_dirfd = dirfd,
     cc_name = name, cc_flags = flags, cc_watcher_flags = watcher_flags\<rparr>"

definition backend_create_chromium ::
  "('j, 'w) chromium_env \<Rightarrow> backend_conf \<Rightarrow> 'w \<Rightarrow> (chromium_ctx \<times> create_resp \<times> bytes list) option \<times> 'w" where
  "backend_create_chromium E conf w =
     (let flags = conf_flags conf;
          (bad_time, w) =
            (if \<not> has_flag flags BACKEND_READONLY then
               (case xgetrealtime (ce_os E) w of (now, w) \<Rightarrow> (\<not> valid_ts_sec (tv_sec now), w))
             else (False, w))
      in if bad_time then (None, w)
         else
           (case parse_mntopts (conf_opts conf) flags of
              None \<Rightarrow> (None, w)
            | Some (opt_watcher, opt_other) \<Rightarrow>
                (case ce_basename_opendir E (store_path conf) w of ((dirfd, name), w) \<Rightarrow>
                   if dirfd < 0 then (None, w)
                   else
                     (case ce_faccessat E dirfd name w of (r, w) \<Rightarrow>
                        if r \<noteq> 0 then (None, os_close (ce_os E) dirfd w)
                        else
                          (let sandbox_flags =
                                 (if has_flag flags BACKEND_NO_SANDBOX then SANDBOX_NOOP
                                  else if has_flag flags BACKEND_NO_LANDLOCK then SANDBOX_NO_LANDLOCK
                                  else 0);
                               watcher_flags = opt_watcher OR push_bit WATCHER_SANDBOX_FLAGS_OFFSET sandbox_flags;
                               resp = resp_init\<lparr>resp_bookmarks_root_id := BOOKMARKS_ROOT_ID,
                                 resp_flags := (if has_flag watcher_flags WATCHER_NOOP then BACKEND_EXCLUSIVE else 0)\<rparr>;
                               xattr_names = [str (if has_flag opt_other BACKEND_FILENAME_GUID then ''title'' else ''guid''),
                                 str ''date_added'']
                           in (Some (chromium_ctx_init name dirfd (flags OR opt_other) watcher_flags, resp,
                                 xattr_names), w))))))"

text \<open>What is left of the state; the result of \<open>store_save\<close> is not looked at.\<close>

definition backend_destroy_chromium ::
  "('j, 'w) chromium_env \<Rightarrow> ('j, 'w) chromium_state \<Rightarrow> ('j, 'w) chromium_state option" where
  "backend_destroy_chromium E s = do {
     s \<leftarrow> (if \<not> has_flag (cc_flags (cs_ctx s)) BACKEND_READONLY then map_option snd (store_save E s) else Some s);
     let w = (if cc_watcher (cs_ctx s) \<noteq> NULL then ce_watcher_destroy E (cc_watcher (cs_ctx s)) (cs_w s) else cs_w s);
     let s = free_maps (cc_id_map (cs_ctx s)) (s\<lparr>cs_w := w\<rparr>);
     Some (if cc_dirfd (cs_ctx s) \<ge> 0 then s\<lparr>cs_w := os_close (ce_os E) (cc_dirfd (cs_ctx s)) (cs_w s)\<rparr> else s)
   }"

definition backend_sandbox_chromium ::
  "('j, 'w) chromium_env \<Rightarrow> ('j, 'w) chromium_state \<Rightarrow> int \<times> ('j, 'w) chromium_state" where
  "backend_sandbox_chromium E s =
     (let flags = cc_flags (cs_ctx s) in
      if has_flag flags BACKEND_NO_SANDBOX then (0, s)
      else
        (case (if \<not> has_flag flags BACKEND_READONLY then init_iconv E (cs_w s)
               else (Some (cc_cd (cs_ctx s)), cs_w s)) of
           (None, w) \<Rightarrow> (-1, s\<lparr>cs_w := w\<rparr>)
         | (Some cd, w) \<Rightarrow>
             (case init_watcher E (s\<lparr>cs_w := w, cs_ctx := (cs_ctx s)\<lparr>cc_cd := cd\<rparr>\<rparr>) of (ok, s) \<Rightarrow>
                if \<not> ok then (-1, s)
                else
                  (let sandbox_flags = (if has_flag flags BACKEND_READONLY then SANDBOX_READONLY else 0)
                         OR (if has_flag flags BACKEND_NO_LANDLOCK then SANDBOX_NO_LANDLOCK else 0);
                       (r, w) = ce_sandbox_enter E (cc_dirfd (cs_ctx s)) sandbox_flags (cs_w s)
                   in (r, s\<lparr>cs_w := w\<rparr>)))))"

definition backend_mkfs_chromium ::
  "('j, 'w) chromium_env \<Rightarrow> backend_conf \<Rightarrow> 'j \<Rightarrow> 'w \<Rightarrow> (int \<times> 'j \<times> 'w) option" where
  "backend_mkfs_chromium E conf j w =
     (case xgetrealtime (ce_os E) w of (now, w) \<Rightarrow>
        case parse_mkfsopts (conf_opts conf) now of
          None \<Rightarrow> Some (-1, j, w)
        | Some btime \<Rightarrow>
            (let open_flags = O_CREAT OR O_WRONLY OR O_TRUNC;
                 open_flags = (if \<not> has_flag (conf_flags conf) BACKEND_MKFS_FORCE then open_flags OR O_EXCL
                               else open_flags)
             in case os_open (ce_os E) (store_path conf) open_flags w of (fd, w) \<Rightarrow>
                  if fd < 0 then Some (-1, j, w)
                  else do {
                    (store, j) \<leftarrow> store_new (ce_js E) btime j;
                    (status, w) \<leftarrow> json_dumpfd_ex (ce_os E) (ce_js E) (ce_junk E) j store fd w;
                    Some (status, j, os_close (ce_os E) fd w)
                  }))"

end
