(* ===== verification/Chromium_Read.thy ===== *)
theory Chromium_Read
  imports Chromium_Store
begin

text \<open>
  The operations of the Chromium backend that a read-only file system needs, and the consistency check:
  \<open>bookmark_lookup\<close>, \<open>bookmark_get\<close>, \<open>bookmark_list\<close>, \<open>bookmark_check\<close> and \<open>cookie_free\<close>.  A callback works on
  the caller's data \<open>'u\<close>.  An argument \<open>cookie_ptr\<close> of \<open>None\<close> is a null pointer, else it is what the
  pointer points to before; the result has what it points to after the call.
\<close>

section \<open>Finding an entry\<close>

text \<open>What every operation starts with: the entry of an id, if it exists and can be seen.\<close>

definition find_visible ::
  "('j, 'w) chromium_env \<Rightarrow> ('j, 'w) chromium_state \<Rightarrow> u64 \<Rightarrow> (ptr \<times> node_entry) option option" where
  "find_visible E s i = do {
     r \<leftarrow> lookup_id (ce_hash E) (cs_nodes s) (cc_id_map (cs_ctx s)) i;
     Some (case r of None \<Rightarrow> None | Some (p, e) \<Rightarrow> if ne_name e = None then None else Some (p, e))
   }"

definition bookmark_lookup_chromium ::
  "('j, 'w) chromium_env \<Rightarrow> u64 \<Rightarrow> bytes option \<Rightarrow> bookmark_stat option \<Rightarrow> ('j, 'w) chromium_state \<Rightarrow>
    (int \<times> bookmark_stat option \<times> ('j, 'w) chromium_state) option" where
  "bookmark_lookup_chromium E i name stat_buf s = do {
     (status, s) \<leftarrow> store_load E s;
     (if status < 0 then Some (status, stat_buf, s)
      else do {
        r \<leftarrow> find_visible E s i;
        (case r of
           None \<Rightarrow> Some (- ESTALE, stat_buf, s)
         | Some (p, e) \<Rightarrow>
             (let answer = (\<lambda>e i. case stat_buf of
                  None \<Rightarrow> Some (0, stat_buf, s)
                | Some buf \<Rightarrow>
                    (case parse_stats (ce_js E) (cs_j s) e (buf\<lparr>bs_id := i\<rparr>) of (status, buf) \<Rightarrow>
                       Some (status, Some buf, s)))
              in case name of
                   None \<Rightarrow> answer e i
                 | Some name \<Rightarrow>
                     (if ne_children e = NULL then Some (- ENOTDIR, stat_buf, s)
                      else do {
                        (status, _, q) \<leftarrow> lookup_name E s i name;
                        (if status \<noteq> 0 then Some (- ENOENT, stat_buf, s)
                         else do {
                           q \<leftarrow> q;
                           e \<leftarrow> cs_nodes s q;
                           (if stat_buf = None then Some (0, stat_buf, s)
                            else
                              (case parse_id (ce_js E) (cs_j s) (ne_node e) of
                                 None \<Rightarrow> Some (- EIO, stat_buf, s)
                               | Some i \<Rightarrow> answer e i))
                         })
                      })))
      })
   }"

section \<open>Cookies\<close>

definition new_cookie :: "chromium_cookie \<Rightarrow> ('j, 'w) chromium_state \<Rightarrow> ptr \<times> ('j, 'w) chromium_state" where
  "new_cookie c s = (cs_brk s, s\<lparr>cs_cookies := (cs_cookies s)(cs_brk s \<mapsto> c), cs_brk := Suc (cs_brk s)\<rparr>)"

definition put_cookie :: "ptr \<Rightarrow> chromium_cookie \<Rightarrow> ('j, 'w) chromium_state \<Rightarrow> ('j, 'w) chromium_state" where
  "put_cookie p c s = s\<lparr>cs_cookies := (cs_cookies s)(p \<mapsto> c)\<rparr>"

text \<open>The cookie of a caller, \<open>None\<close> outside if the pointer is not one to a cookie of ours.\<close>

definition get_cookie :: "('j, 'w) chromium_state \<Rightarrow> ptr option \<Rightarrow> chromium_cookie option option" where
  "get_cookie s cookie_ptr =
     (case cookie_ptr of
        None \<Rightarrow> Some None
      | Some p \<Rightarrow> if p = NULL then Some None else map_option Some (cs_cookies s p))"

text \<open>A cookie is made, or the old one is filled anew.\<close>

definition set_cookie ::
  "ptr option \<Rightarrow> chromium_cookie \<Rightarrow> ('j, 'w) chromium_state \<Rightarrow> ptr option \<times> ('j, 'w) chromium_state" where
  "set_cookie cookie_ptr c s =
     (case cookie_ptr of
        None \<Rightarrow> (None, s)
      | Some p \<Rightarrow>
          (if p = NULL then (case new_cookie c s of (p, s) \<Rightarrow> (Some p, s))
           else (Some p, put_cookie p c s)))"

definition cookie_free_chromium :: "ptr \<Rightarrow> ('j, 'w) chromium_state \<Rightarrow> ('j, 'w) chromium_state" where
  "cookie_free_chromium p s = (if p = NULL then s else s\<lparr>cs_cookies := (cs_cookies s)(p := None)\<rparr>)"

section \<open>Reading a value\<close>

definition bookmark_get_chromium ::
  "('j, 'w) chromium_env \<Rightarrow> u64 \<Rightarrow> bytes option \<Rightarrow> ('u \<Rightarrow> bytes \<Rightarrow> int \<times> 'u) \<Rightarrow> 'u \<Rightarrow> ptr option \<Rightarrow>
    ('j, 'w) chromium_state \<Rightarrow> (int \<times> ptr option \<times> 'u \<times> ('j, 'w) chromium_state) option" where
  "bookmark_get_chromium E i xattr_name callback u cookie_ptr s = do {
     (status, s) \<leftarrow> store_load E s;
     (if status < 0 then Some (status, cookie_ptr, u, s)
      else do {
        cookie \<leftarrow> get_cookie s cookie_ptr;
        let ctx = cs_ctx s;
        (if (case cookie of
               Some (GCookie st ck) \<Rightarrow>
                 st = cc_store ctx \<or> xattr_name = None \<and> js_equal (ce_js E) (cs_j s) ck (cc_checksum ctx)
             | _ \<Rightarrow> False)
         then Some (- EAGAIN, cookie_ptr, u, s)
         else do {
           r \<leftarrow> find_visible E s i;
           (case r of
              None \<Rightarrow> Some (- ESTALE, cookie_ptr, u, s)
            | Some (p, e) \<Rightarrow>
                (if ne_id e = BOOKMARKS_ROOT_ID then
                   Some (if xattr_name = None then - EISDIR else - ENOATTR, cookie_ptr, u, s)
                 else
                   (case get_xattr_val (ce_js E) (cs_j s) (ne_node e) xattr_name (cc_flags ctx) of
                      Inl err \<Rightarrow> Some (err, cookie_ptr, u, s)
                    | Inr (_, value_node) \<Rightarrow>
                        (case js_string_value (ce_js E) (cs_j s) value_node of
                           None \<Rightarrow> Some (- EIO, cookie_ptr, u, s)
                         | Some value \<Rightarrow>
                             (case callback u value of (status, u) \<Rightarrow>
                                if status < 0 then Some (status, cookie_ptr, u, s)
                                else
                                  (case set_cookie cookie_ptr (GCookie (cc_store ctx) (cc_checksum ctx)) s of
                                     (cookie_ptr, s) \<Rightarrow> Some (status, cookie_ptr, u, s)))))))
         })
      })
   }"

section \<open>Listing a folder\<close>

partial_function (option) list_loop ::
  "('j, 'w) chromium_env \<Rightarrow> ('j, 'w) chromium_state \<Rightarrow> jref \<Rightarrow> bool \<Rightarrow> ('u \<Rightarrow> bookmark_entry \<Rightarrow> int \<times> 'u) \<Rightarrow> nat \<Rightarrow>
    bookmark_entry \<Rightarrow> 'u \<Rightarrow> (int \<times> 'u) option" where
  "list_loop E s children with_stat callback idx junk u =
     (let child = js_array_get (ce_js E) (cs_j s) children idx in
      if child = NULL then Some (0, u)
      else do {
        r \<leftarrow> parse_entry E s child (idx + 1) with_stat junk;
        (case r of
           Inl _ \<Rightarrow> list_loop E s children with_stat callback (Suc idx) junk u
         | Inr buf \<Rightarrow>
             (case callback u buf of (status, u) \<Rightarrow>
                if status \<noteq> 0 then Some (status, u)
                else list_loop E s children with_stat callback (Suc idx) junk u))
      })"

text \<open>
  \<open>junk\<close> is what the entry on the stack holds before its fields are set.  The cookie holds a copy of the
  array, so that a folder that changes while it is being listed keeps its offsets.
\<close>

definition bookmark_list_chromium ::
  "('j, 'w) chromium_env \<Rightarrow> u64 \<Rightarrow> nat \<Rightarrow> u32 \<Rightarrow> ('u \<Rightarrow> bookmark_entry \<Rightarrow> int \<times> 'u) option \<Rightarrow> 'u \<Rightarrow> ptr option \<Rightarrow>
    bookmark_entry \<Rightarrow> ('j, 'w) chromium_state \<Rightarrow> (int \<times> ptr option \<times> 'u \<times> ('j, 'w) chromium_state) option" where
  "bookmark_list_chromium E i off flags callback u cookie_ptr junk s = do {
     (status, s) \<leftarrow> store_load E s;
     (if status < 0 then Some (status, cookie_ptr, u, s)
      else do {
        cookie \<leftarrow> get_cookie s cookie_ptr;
        let do_list = (\<lambda>children. case callback of
              None \<Rightarrow> Some (status, u)
            | Some cb \<Rightarrow> list_loop E s children (has_flag flags LIST_WITHSTAT) cb off junk u);
        (case (if off > 0 then cookie else None) of
           Some c \<Rightarrow> do {
             (status, u) \<leftarrow> do_list (lc_children c);
             Some (status, cookie_ptr, u, s)
           }
         | None \<Rightarrow> do {
             r \<leftarrow> find_visible E s i;
             (case r of
                None \<Rightarrow> Some (- ESTALE, cookie_ptr, u, s)
              | Some (p, e) \<Rightarrow>
                  (if ne_children e = NULL then Some (- ENOTDIR, cookie_ptr, u, s)
                   else do {
                     (status, u) \<leftarrow> do_list (ne_children e);
                     (if cookie_ptr = None then Some (status, cookie_ptr, u, s)
                      else
                        (let (children, j) = (if callback = None then (ne_children e, cs_j s)
                                              else js_copy (ce_js E) (ne_children e) (cs_j s));
                             idx = (case cookie of Some c \<Rightarrow> lc_idx c | None \<Rightarrow> 0);
                             (cookie_ptr, s) = set_cookie cookie_ptr (LCookie children idx) (s\<lparr>cs_j := j\<rparr>)
                         in Some (status, cookie_ptr, u, s)))
                   }))
           })
      })
   }"

section \<open>Checking a folder\<close>

type_synonym 'u chromium_check_cb = "int \<Rightarrow> u64 \<Rightarrow> u64 \<Rightarrow> bytes \<Rightarrow> 'u \<Rightarrow> int \<times> 'u"

text \<open>The result: the status, the index to go on with, the caller's data.\<close>

partial_function (option) fsck_next_chromium ::
  "('j, 'w) chromium_env \<Rightarrow> ('j, 'w) chromium_state \<Rightarrow> u64 \<Rightarrow> jref \<Rightarrow> 'u chromium_check_cb \<Rightarrow> nat \<Rightarrow> 'u \<Rightarrow>
    (int \<times> nat \<times> 'u) option" where
  "fsck_next_chromium E s parent_id children callback idx u =
     (let J = ce_js E; j = cs_j s; child = js_array_get J j children idx; idx = Suc idx in
      if child = NULL then Some (0, idx, u)
      else do {
        i \<leftarrow> parse_id J j child;
        r \<leftarrow> lookup_id (ce_hash E) (cs_nodes s) (cc_id_map (cs_ctx s)) i;
        (if (case r of None \<Rightarrow> True | Some (p, e) \<Rightarrow> ne_name e \<noteq> None)
         then fsck_next_chromium E s parent_id children callback idx u
         else do {
           name \<leftarrow> js_string_value J j (json_object_sget J j child ''name'');
           (result, extra) \<leftarrow>
             (case validate_filename_fsck name (length name) of
                (status, Some (result, extra)) \<Rightarrow> Some (result, extra)
              | (status, None) \<Rightarrow> do {
                  found \<leftarrow> lookup_assoc (ce_hash E) (cs_nodes s) (cc_assoc_map (cs_ctx s)) parent_id name;
                  (case found of
                     None \<Rightarrow> Some (NAME_DUPLICATE, BOOKMARKS_ROOT_ID)
                   | Some (q, _) \<Rightarrow> do { e \<leftarrow> cs_nodes s q; Some (NAME_DUPLICATE, ne_id e) })
                });
           (case callback result i extra name u of (status, u) \<Rightarrow>
              if status = 0 then fsck_next_chromium E s parent_id children callback idx u
              else Some (status, idx, u))
         })
      })"

text \<open>\<open>BOOKMARKFS_NAME_INVALID_REASON_NOTUTF8\<close> is 256.\<close>

definition NAME_INVALID_REASON_NOTUTF8 :: u64 where "NAME_INVALID_REASON_NOTUTF8 = 256"

definition fsck_apply_chromium ::
  "('j, 'w) chromium_env \<Rightarrow> u64 \<Rightarrow> fsck_data \<Rightarrow> 'u chromium_check_cb \<Rightarrow> 'u \<Rightarrow> ('j, 'w) chromium_state \<Rightarrow>
    (int \<times> 'u \<times> ('j, 'w) chromium_state) option" where
  "fsck_apply_chromium E parent_id fsck_data callback u s =
     (let i = fd_id fsck_data; name = cstr (fd_name fsck_data); h = ce_hash E;
          call = (\<lambda>result extra s. case callback result i extra name u of (status, u) \<Rightarrow> Some (status, u, s))
      in do {
        r \<leftarrow> lookup_id h (cs_nodes s) (cc_id_map (cs_ctx s)) i;
        (case r of
           None \<Rightarrow> Some (- ENOENT, u, s)
         | Some (p, e) \<Rightarrow>
             (if ne_parent_id e \<noteq> parent_id then Some (- ENOENT, u, s)
              else if ne_name e \<noteq> None then Some (0, u, s)
              else
                (case validate_filename_fsck (fd_name fsck_data) (length name) of
                   (_, Some (result, extra)) \<Rightarrow> call result extra s
                 | (_, None) \<Rightarrow> do {
                     assoc_map \<leftarrow> cc_assoc_map (cs_ctx s);
                     let hashcode_assoc = hash_assoc h i name;
                     found \<leftarrow> hashmap_search (assocmap_comp (cs_nodes s) parent_id name) assoc_map hashcode_assoc;
                     (if found \<noteq> None then call NAME_DUPLICATE (ne_id e) s
                      else
                        (case js_stringn (ce_js E) name (cs_j s) of (name_node, j) \<Rightarrow>
                           if name_node = NULL then call NAME_INVALID NAME_INVALID_REASON_NOTUTF8 (s\<lparr>cs_j := j\<rparr>)
                           else do {
                             let j = json_object_sset (ce_js E) (ne_node e) ''name'' name_node j;
                             let s = put_node p (e\<lparr>ne_name := Some name\<rparr>) (s\<lparr>cs_j := j\<rparr>);
                             m \<leftarrow> hashmap_insert (assocmap_hash h (cs_nodes s)) assoc_map hashcode_assoc p;
                             Some (0, u, s\<lparr>cs_ctx := (cs_ctx s)\<lparr>cc_dirty := DIRTY_LEVEL_DATA, cc_assoc_map := Some m\<rparr>\<rparr>)
                           }))
                   }))
        )
      })"

definition bookmark_check_chromium ::
  "('j, 'w) chromium_env \<Rightarrow> u64 \<Rightarrow> fsck_data option \<Rightarrow> 'u chromium_check_cb option \<Rightarrow> 'u \<Rightarrow> ptr option \<Rightarrow>
    ('j, 'w) chromium_state \<Rightarrow> (int \<times> ptr option \<times> 'u \<times> ('j, 'w) chromium_state) option" where
  "bookmark_check_chromium E parent_id fsck_data callback u cookie_ptr s =
     (if has_flag (cc_flags (cs_ctx s)) BACKEND_FILENAME_GUID then Some (- EPERM, cookie_ptr, u, s)
      else do {
        (status, s) \<leftarrow> store_load E s;
        (if status < 0 then Some (status, cookie_ptr, u, s)
         else do {
           cookie \<leftarrow> get_cookie s cookie_ptr;
           let idx = (case cookie of Some c \<Rightarrow> lc_idx c | None \<Rightarrow> 0);
           r \<leftarrow> find_visible E s parent_id;
           (case r of
              None \<Rightarrow> Some (- ESTALE, cookie_ptr, u, s)
            | Some (p, e) \<Rightarrow>
                (let children = ne_children e in
                 if children = NULL then Some (- ENOTDIR, cookie_ptr, u, s)
                 else do {
                   (status, idx, u, s) \<leftarrow>
                     (case callback of
                        None \<Rightarrow> Some (status, 0, u, s)
                      | Some cb \<Rightarrow>
                          (case fsck_data of
                             None \<Rightarrow> do {
                               (status, idx, u) \<leftarrow> fsck_next_chromium E s parent_id children cb idx u;
                               Some (status, idx, u, s)
                             }
                           | Some d \<Rightarrow> do {
                               (status, u, s) \<leftarrow> fsck_apply_chromium E parent_id d cb u s;
                               Some (status, idx, u, s)
                             }));
                   let (cookie_ptr, s) = set_cookie cookie_ptr
                         (LCookie (case cookie of Some c \<Rightarrow> lc_children c | None \<Rightarrow> children) idx) s;
                   Some (status, cookie_ptr, u, s)
                 }))
         })
      })"

end
