(* ===== verification/Chromium_Write.thy ===== *)
theory Chromium_Write
  imports Chromium_Read
begin

text \<open>
  The operations of the Chromium backend that change the store: \<open>bookmark_create\<close>, \<open>bookmark_delete\<close>,
  \<open>bookmark_permute\<close>, \<open>bookmark_rename\<close>, \<open>bookmark_set\<close> and \<open>bookmark_sync\<close>.
\<close>

section \<open>Steps\<close>

definition set_dirty :: "dirty_level \<Rightarrow> ('j, 'w) chromium_state \<Rightarrow> ('j, 'w) chromium_state" where
  "set_dirty d s = s\<lparr>cs_ctx := (cs_ctx s)\<lparr>cc_dirty := d\<rparr>\<rparr>"

text \<open>
  The parent folder of an operation: the error that the source returns for it, or the entry.
\<close>

definition find_folder ::
  "('j, 'w) chromium_env \<Rightarrow> ('j, 'w) chromium_state \<Rightarrow> u64 \<Rightarrow> (int + ptr \<times> node_entry) option" where
  "find_folder E s i = do {
     r \<leftarrow> find_visible E s i;
     Some (case r of
         None \<Rightarrow> Inl (- ESTALE)
       | Some (p, e) \<Rightarrow> if ne_children e = NULL then Inl (- ENOTDIR) else Inr (p, e))
   }"

text \<open>The entry leaves the tables: first that of the names, with the position that its lookup gave.\<close>

definition remove_entry ::
  "('j, 'w) chromium_env \<Rightarrow> ptr \<Rightarrow> int \<Rightarrow> ('j, 'w) chromium_state \<Rightarrow> ('j, 'w) chromium_state option" where
  "remove_entry E p entry_id s =
     (let ctx = cs_ctx s; h = ce_hash E; nodes = cs_nodes s; by_guid = has_flag (cc_flags ctx) BACKEND_FILENAME_GUID
      in do {
        assoc_map \<leftarrow> (if by_guid then Some (cc_assoc_map ctx)
                      else map_option Some (map_remove (assocmap_hash h nodes) (cc_assoc_map ctx) p entry_id));
        guid_map \<leftarrow> map_remove (guidmap_hash h nodes) (cc_guid_map ctx) p (if by_guid then entry_id else -1);
        id_map \<leftarrow> map_remove (idmap_hash h nodes) (cc_id_map ctx) p (-1);
        Some (free_node p (s\<lparr>cs_ctx := ctx\<lparr>cc_assoc_map := assoc_map, cc_guid_map := Some guid_map,
          cc_id_map := Some id_map\<rparr>\<rparr>))
      })"

definition update_guid ::
  "('j, 'w) chromium_env \<Rightarrow> ptr \<Rightarrow> int \<Rightarrow> bytes \<Rightarrow> u64 \<Rightarrow> ('j, 'w) chromium_state \<Rightarrow> ('j, 'w) chromium_state option" where
  "update_guid E p old_entry_id guid hashcode s =
     (let H = guidmap_hash (ce_hash E) (cs_nodes s) in do {
        m \<leftarrow> map_remove H (cc_guid_map (cs_ctx s)) p old_entry_id;
        m \<leftarrow> hashmap_insert H m hashcode p;
        e \<leftarrow> cs_nodes s p;
        Some (put_node p (e\<lparr>ne_guid := guid\<rparr>) (s\<lparr>cs_ctx := (cs_ctx s)\<lparr>cc_guid_map := Some m\<rparr>\<rparr>))
      })"

section \<open>Creating\<close>

text \<open>The new entry, with the node already among its siblings.\<close>

definition create_entry ::
  "('j, 'w) chromium_env \<Rightarrow> u64 \<Rightarrow> u64 \<Rightarrow> bytes \<Rightarrow> jref \<Rightarrow> bool \<Rightarrow> lookup_ctx \<Rightarrow> build_node_ctx \<Rightarrow>
    ('j, 'w) chromium_state \<Rightarrow> ('j, 'w) chromium_state option" where
  "create_entry E i parent_id name node is_dir lctx bctx s =
     (let h = ce_hash E;
          by_guid = has_flag (cc_flags (cs_ctx s)) BACKEND_FILENAME_GUID;
          e = \<lparr>ne_id = i, ne_parent_id = parent_id, ne_guid = replicate UUID_LEN 0, ne_name = Some name,
               ne_node = node,
               ne_children = (if is_dir then json_object_sget (ce_js E) (cs_j s) node ''children'' else NULL)\<rparr>;
          (p, s) = new_node e s;
          ctx = cs_ctx s; nodes = cs_nodes s
      in do {
        id_map \<leftarrow> map_insert (idmap_hash h nodes) (cc_id_map ctx) (hash_id h i) p;
        let (guid, hashcode_guid) = (if by_guid then (lx_guid lctx, lx_hashcode lctx)
                                     else (bc_guid bctx, bc_hashcode bctx));
        assoc_map \<leftarrow> (if by_guid then Some (cc_assoc_map ctx)
                      else map_option Some (map_insert (assocmap_hash h nodes) (cc_assoc_map ctx) (lx_hashcode lctx) p));
        guid_map \<leftarrow> map_insert (guidmap_hash h nodes) (cc_guid_map ctx) hashcode_guid p;
        Some (set_dirty DIRTY_LEVEL_DATA
          (put_node p (e\<lparr>ne_guid := guid\<rparr>)
            (s\<lparr>cs_ctx := ctx\<lparr>cc_id_map := Some id_map, cc_assoc_map := assoc_map, cc_guid_map := Some guid_map\<rparr>\<rparr>)))
      })"

text \<open>
  The source reads \<open>stat_buf->id\<close> whether or not \<open>stat_buf\<close> is \<open>NULL\<close>: \<open>None\<close> when it is.
\<close>

definition bookmark_create_chromium ::
  "('j, 'w) chromium_env \<Rightarrow> u64 \<Rightarrow> bytes \<Rightarrow> u32 \<Rightarrow> bookmark_stat option \<Rightarrow> ('j, 'w) chromium_state \<Rightarrow>
    (int \<times> bookmark_stat option \<times> ('j, 'w) chromium_state) option" where
  "bookmark_create_chromium E parent_id name flags stat_buf s =
     (if parent_id = BOOKMARKS_ROOT_ID then Some (- EPERM, stat_buf, s)
      else do {
        (status, s) \<leftarrow> store_load E s;
        (if status < 0 then Some (status, stat_buf, s)
         else do {
           parent \<leftarrow> find_folder E s parent_id;
           (case parent of
              Inl err \<Rightarrow> Some (err, stat_buf, s)
            | Inr (_, parent_entry) \<Rightarrow> do {
                (found, lctx, q) \<leftarrow> lookup_name E s parent_id name;
                (if found = 0 then do {
                   q \<leftarrow> q;
                   e \<leftarrow> cs_nodes s q;
                   (case stat_buf of
                      None \<Rightarrow> Some (- EEXIST, stat_buf, s)
                    | Some buf \<Rightarrow>
                        (case parse_id (ce_js E) (cs_j s) (ne_node e) of
                           None \<Rightarrow> Some (- EIO, stat_buf, s)
                         | Some i \<Rightarrow>
                             (case parse_stats (ce_js E) (cs_j s) e (buf\<lparr>bs_id := i\<rparr>) of (status, buf) \<Rightarrow>
                                Some (if status \<noteq> 0 then - EIO else - EEXIST, Some buf, s))))
                 }
                 else if q \<noteq> None then Some (- EPERM, stat_buf, s)
                 else do {
                   let (node, j) = js_new_object (ce_js E) (cs_j s);
                   let is_dir = has_flag flags CREATE_DIR;
                   (status, bctx, s) \<leftarrow> build_node E node name is_dir
                     \<lparr>bc_guid = replicate UUID_LEN 0, bc_hashcode = 0, bc_stat = stat_buf\<rparr> (s\<lparr>cs_j := j\<rparr>);
                   (if status \<noteq> 0 then Some (status, stat_buf, s)
                    else do {
                      let s = s\<lparr>cs_j := js_array_append (ce_js E) (ne_children parent_entry) node (cs_j s)\<rparr>;
                      st \<leftarrow> bc_stat bctx;
                      s \<leftarrow> create_entry E (bs_id st) parent_id name node is_dir lctx bctx s;
                      (_, s) \<leftarrow> node_mtime_now E (ne_node parent_entry) s;
                      Some (0, Some st, s)
                    })
                 })
              })
         })
      })"

section \<open>Deleting\<close>

definition bookmark_delete_chromium ::
  "('j, 'w) chromium_env \<Rightarrow> u64 \<Rightarrow> bytes \<Rightarrow> u32 \<Rightarrow> ('j, 'w) chromium_state \<Rightarrow>
    (int \<times> ('j, 'w) chromium_state) option" where
  "bookmark_delete_chromium E parent_id name flags s =
     (if parent_id = BOOKMARKS_ROOT_ID then Some (- EPERM, s)
      else do {
        (status, s) \<leftarrow> store_load E s;
        (if status < 0 then Some (status, s)
         else do {
           parent \<leftarrow> find_folder E s parent_id;
           (case parent of
              Inl err \<Rightarrow> Some (err, s)
            | Inr (_, parent_entry) \<Rightarrow> do {
                (found, lctx, q) \<leftarrow> lookup_name E s parent_id name;
                (if found \<noteq> 0 then Some (- ENOENT, s)
                 else do {
                   p \<leftarrow> q;
                   e \<leftarrow> cs_nodes s p;
                   let is_dir = has_flag flags DELETE_DIR;
                   (if is_dir \<and> ne_children e = NULL then Some (- ENOTDIR, s)
                    else if is_dir \<and> js_array_size (ce_js E) (cs_j s) (ne_children e) \<noteq> 0 then Some (- ENOTEMPTY, s)
                    else if \<not> is_dir \<and> ne_children e \<noteq> NULL then Some (- EISDIR, s)
                    else do {
                      let siblings = ne_children parent_entry;
                      idx \<leftarrow> json_array_search (ce_js E) (cs_j s) siblings (ne_node e);
                      let s = s\<lparr>cs_j := js_array_remove (ce_js E) siblings idx (cs_j s)\<rparr>;
                      s \<leftarrow> remove_entry E p (lx_entry_id lctx) s;
                      (_, s) \<leftarrow> node_mtime_now E (ne_node parent_entry) (set_dirty DIRTY_LEVEL_DATA s);
                      Some (0, s)
                    })
                 })
              })
         })
      })"

section \<open>Permuting\<close>

text \<open>
  The change of the array of children, with the positions of the two nodes.  The value inside is \<open>None\<close>
  where the source returns at once: an error, or nothing to do.
\<close>

definition permute_children ::
  "'j jansson \<Rightarrow> permd_op \<Rightarrow> jref \<Rightarrow> jref \<Rightarrow> jref \<Rightarrow> nat \<Rightarrow> nat \<Rightarrow> 'j \<Rightarrow> int \<times> 'j option" where
  "permute_children J op children node1 node2 idx1 idx2 j =
     (let move = (\<lambda>idx2.
          if idx1 = idx2 then (0, None)
          else
            (let j = (if idx1 > idx2 then js_array_remove J children idx1 j else j);
                 j = js_array_insert J children idx2 node1 j;
                 j = (if idx1 < idx2 then js_array_remove J children idx1 j else j)
             in (0, Some j)))
      in case op of
           PERMD_OP_SWAP \<Rightarrow>
             (0, Some (js_array_set J children idx2 node1 (js_array_set J children idx1 node2 j)))
         | PERMD_OP_MOVE_AFTER \<Rightarrow> move (Suc idx2)
         | PERMD_OP_MOVE_BEFORE \<Rightarrow> move idx2
         | PERMD_OP_OTHER \<Rightarrow> (- EINVAL, None))"

text \<open>\<open>name1\<close> and \<open>name2\<close> are the memory the pointers point to; \<open>strnlen\<close> looks at \<open>NAME_MAX + 1\<close> bytes of it.\<close>

definition bookmark_permute_chromium ::
  "('j, 'w) chromium_env \<Rightarrow> u64 \<Rightarrow> permd_op \<Rightarrow> bytes \<Rightarrow> bytes \<Rightarrow> ('j, 'w) chromium_state \<Rightarrow>
    (int \<times> ('j, 'w) chromium_state) option" where
  "bookmark_permute_chromium E parent_id op name1 name2 s =
     (if parent_id = BOOKMARKS_ROOT_ID then Some (- EPERM, s)
      else do {
        (status, s) \<leftarrow> store_load E s;
        let name1 = cstr (take (NAME_MAX + 1) name1);
        let name2 = cstr (take (NAME_MAX + 1) name2);
        (if status < 0 then Some (status, s)
         else if fst (validate_filename name1 (length name1)) \<noteq> 0 then Some (- EINVAL, s)
         else if fst (validate_filename name2 (length name2)) \<noteq> 0 then Some (- EINVAL, s)
         else do {
           parent \<leftarrow> find_folder E s parent_id;
           (case parent of
              Inl err \<Rightarrow> Some (err, s)
            | Inr (_, parent_entry) \<Rightarrow> do {
                (found1, _, q1) \<leftarrow> lookup_name E s parent_id name1;
                (if found1 \<noteq> 0 then Some (- ENOENT, s)
                 else do {
                   (found2, _, q2) \<leftarrow> lookup_name E s parent_id name2;
                   (if found2 \<noteq> 0 then Some (- ENOENT, s)
                    else if q2 = q1 then Some (0, s)
                    else do {
                      let J = ce_js E;
                      let children = ne_children parent_entry;
                      p1 \<leftarrow> q1; e1 \<leftarrow> cs_nodes s p1;
                      p2 \<leftarrow> q2; e2 \<leftarrow> cs_nodes s p2;
                      idx1 \<leftarrow> json_array_search J (cs_j s) children (ne_node e1);
                      idx2 \<leftarrow> json_array_search J (cs_j s) children (ne_node e2);
                      (case permute_children J op children (ne_node e1) (ne_node e2) idx1 idx2 (cs_j s) of
                         (status, None) \<Rightarrow> Some (status, s)
                       | (status, Some j) \<Rightarrow> do {
                           (_, s) \<leftarrow> node_mtime_now E (ne_node parent_entry) (set_dirty DIRTY_LEVEL_DATA (s\<lparr>cs_j := j\<rparr>));
                           Some (0, s)
                         })
                    })
                 })
              })
         })
      })"

section \<open>Renaming\<close>

text \<open>Whether the entry under the new name can be replaced by the old one, else the error.\<close>

definition rename_conflict ::
  "('j, 'w) chromium_env \<Rightarrow> ('j, 'w) chromium_state \<Rightarrow> u32 \<Rightarrow> ptr \<Rightarrow> node_entry \<Rightarrow> int \<Rightarrow> ptr option \<Rightarrow> int option option" where
  "rename_conflict E s flags p old_entry found q =
     (if found = 0 then do {
        q \<leftarrow> q;
        new_entry \<leftarrow> cs_nodes s q;
        let new_is_dir = (ne_children new_entry \<noteq> NULL);
        Some (if has_flag flags BM_RENAME_NOREPLACE then Some (- EEXIST)
              else if q = p then Some 0
              else if new_is_dir \<noteq> (ne_children old_entry \<noteq> NULL) then
                Some (if new_is_dir then - EISDIR else - ENOTDIR)
              else if new_is_dir \<and> js_array_size (ce_js E) (cs_j s) (ne_children new_entry) \<noteq> 0 then Some (- ENOTEMPTY)
              else None)
      }
      else Some (if q \<noteq> None then Some (- EPERM) else None))"

text \<open>
  The node gets its new name, unless it keeps it; \<open>None\<close> inside where the name is not UTF-8.
\<close>

definition rename_node ::
  "('j, 'w) chromium_env \<Rightarrow> bytes \<Rightarrow> bytes \<Rightarrow> ptr \<Rightarrow> ('j, 'w) chromium_state \<Rightarrow> ('j, 'w) chromium_state option option" where
  "rename_node E old_name new_name p s =
     (if old_name = new_name then Some (Some s)
      else do {
        e \<leftarrow> cs_nodes s p;
        (case js_stringn (ce_js E) new_name (cs_j s) of (v, j) \<Rightarrow>
           if v = NULL then Some None
           else Some (Some (put_node p (e\<lparr>ne_name := Some new_name\<rparr>)
                  (s\<lparr>cs_j := json_object_sset (ce_js E) (ne_node e) ''name'' v j\<rparr>))))
      })"

text \<open>From the label \<open>move_node\<close> on: the node changes folders.  \<open>q\<close> is the entry that is replaced.\<close>

definition move_node ::
  "('j, 'w) chromium_env \<Rightarrow> node_entry \<Rightarrow> node_entry \<Rightarrow> ptr \<Rightarrow> ptr option \<Rightarrow> jref \<Rightarrow> ('j, 'w) chromium_state \<Rightarrow>
    ('j, 'w) chromium_state option" where
  "move_node E old_parent new_parent p q old_node s = do {
     e \<leftarrow> cs_nodes s p;
     let J = ce_js E;
     let e = e\<lparr>ne_parent_id := ne_id new_parent\<rparr>;
     (e, j) \<leftarrow>
       (case q of
          None \<Rightarrow> Some (e, js_array_append J (ne_children new_parent) old_node (cs_j s))
        | Some q \<Rightarrow> do {
            new_entry \<leftarrow> cs_nodes s q;
            Some (e\<lparr>ne_node := ne_node new_entry\<rparr>, js_object_update J (ne_node new_entry) old_node (cs_j s))
          });
     old_idx \<leftarrow> json_array_search J j (ne_children old_parent) old_node;
     Some (put_node p e (s\<lparr>cs_j := js_array_remove J (ne_children old_parent) old_idx j\<rparr>))
   }"

text \<open>The entry goes to its new place in the table of names, under the hash code of its new name.\<close>

definition rename_tables ::
  "('j, 'w) chromium_env \<Rightarrow> ptr \<Rightarrow> lookup_ctx \<Rightarrow> lookup_ctx \<Rightarrow> ('j, 'w) chromium_state \<Rightarrow>
    ('j, 'w) chromium_state option" where
  "rename_tables E p old_lctx new_lctx s =
     (if has_flag (cc_flags (cs_ctx s)) BACKEND_FILENAME_GUID then
        update_guid E p (lx_entry_id old_lctx) (lx_guid new_lctx) (lx_hashcode new_lctx) s
      else
        (let H = assocmap_hash (ce_hash E) (cs_nodes s) in do {
           m \<leftarrow> map_remove H (cc_assoc_map (cs_ctx s)) p (lx_entry_id old_lctx);
           m \<leftarrow> hashmap_insert H m (lx_hashcode new_lctx) p;
           Some (s\<lparr>cs_ctx := (cs_ctx s)\<lparr>cc_assoc_map := Some m\<rparr>\<rparr>)
         }))"

text \<open>
  The time stamps.  With \<open>BACKEND_CTIME\<close> the old node gets one too; where it was merged into another node
  (\<open>freed\<close>) it is no longer in the store, and its memory is gone: \<open>None\<close>.
\<close>

definition rename_times ::
  "('j, 'w) chromium_env \<Rightarrow> jref \<Rightarrow> jref \<Rightarrow> bool \<Rightarrow> bool \<Rightarrow> jref \<Rightarrow> ('j, 'w) chromium_state \<Rightarrow>
    ('j, 'w) chromium_state option" where
  "rename_times E old_parent_node new_parent_node same freed old_node s = do {
     (tsnode_now, s) \<leftarrow> node_mtime_now E old_parent_node s;
     let copy = (\<lambda>node s. s\<lparr>cs_j := json_object_sset_copy (ce_js E) node ''date_modified'' tsnode_now (cs_j s)\<rparr>);
     let s = (if same then s else copy new_parent_node s);
     (if has_flag (cc_flags (cs_ctx s)) BACKEND_CTIME then (if freed then None else Some (copy old_node s))
      else Some s)
   }"

definition bookmark_rename_chromium ::
  "('j, 'w) chromium_env \<Rightarrow> u64 \<Rightarrow> bytes \<Rightarrow> u64 \<Rightarrow> bytes \<Rightarrow> u32 \<Rightarrow> ('j, 'w) chromium_state \<Rightarrow>
    (int \<times> ('j, 'w) chromium_state) option" where
  "bookmark_rename_chromium E old_parent_id old_name new_parent_id new_name flags s =
     (if old_parent_id = BOOKMARKS_ROOT_ID \<or> new_parent_id = BOOKMARKS_ROOT_ID then Some (- EPERM, s)
      else do {
        (status, s) \<leftarrow> store_load E s;
        (if status < 0 then Some (status, s)
         else do {
           old_parent \<leftarrow> find_folder E s old_parent_id;
           (case old_parent of
              Inl err \<Rightarrow> Some (err, s)
            | Inr (_, old_parent) \<Rightarrow> do {
                (found, old_lctx, p) \<leftarrow> lookup_name E s old_parent_id old_name;
                (if found \<noteq> 0 then Some (- ENOENT, s)
                 else do {
                   p \<leftarrow> p;
                   old_entry \<leftarrow> cs_nodes s p;
                   let old_node = ne_node old_entry;
                   let same = (old_parent_id = new_parent_id);
                   new_parent \<leftarrow> (if same then Some (Inr (NULL, old_parent)) else find_folder E s new_parent_id);
                   (case new_parent of
                      Inl err \<Rightarrow> Some (err, s)
                    | Inr (_, new_parent) \<Rightarrow> do {
                        (found, new_lctx, q) \<leftarrow> lookup_name E s new_parent_id new_name;
                        conflict \<leftarrow> rename_conflict E s flags p old_entry found q;
                        (case conflict of
                           Some err \<Rightarrow> Some (err, s)
                         | None \<Rightarrow> do {
                             renamed \<leftarrow> rename_node E old_name new_name p s;
                             (case renamed of
                                None \<Rightarrow> Some (- EPERM, s)
                              | Some s \<Rightarrow> do {
                                  s \<leftarrow> (if old_name = new_name \<or> \<not> same
                                         then move_node E old_parent new_parent p q old_node s else Some s);
                                  s \<leftarrow> (case q of Some q \<Rightarrow> remove_entry E q (lx_entry_id new_lctx) s | None \<Rightarrow> Some s);
                                  s \<leftarrow> rename_tables E p old_lctx new_lctx s;
                                  s \<leftarrow> rename_times E (ne_node old_parent) (ne_node new_parent) same
                                    (\<not> same \<and> q \<noteq> None) old_node (set_dirty DIRTY_LEVEL_DATA s);
                                  Some (0, s)
                                })
                           })
                      })
                 })
              })
         })
      })"

section \<open>Setting a value\<close>

definition set_times ::
  "'j jansson \<Rightarrow> jref \<Rightarrow> u32 \<Rightarrow> timespec \<Rightarrow> timespec \<Rightarrow> 'j \<Rightarrow> (int \<times> 'j) option" where
  "set_times J node flags atime mtime j =
     (if has_flag flags SET_ATIME \<and> \<not> valid_ts_sec (tv_sec atime) then Some (- EINVAL, j)
      else if has_flag flags SET_MTIME \<and> \<not> valid_ts_sec (tv_sec mtime) then Some (- EINVAL, j)
      else do {
        j \<leftarrow> (if has_flag flags SET_ATIME
              then do { (v, j) \<leftarrow> build_tsnode J atime j; Some (json_object_sset J node ''date_last_used'' v j) }
              else Some j);
        j \<leftarrow> (if has_flag flags SET_MTIME
              then do { (v, j) \<leftarrow> build_tsnode J mtime j; Some (json_object_sset J node ''date_modified'' v j) }
              else Some j);
        Some (0, j)
      })"

definition MAX_TIME_STR_LEN :: nat where "MAX_TIME_STR_LEN = 19"

text \<open>
  The checks on a new value by attribute; \<open>Inl\<close> for a result of the operation, else the state to go on with
  and whether the value must be valid UTF-8.
\<close>

definition check_value ::
  "('j, 'w) chromium_env \<Rightarrow> u64 \<Rightarrow> xattr_id \<Rightarrow> ptr \<Rightarrow> bytes \<Rightarrow> ('j, 'w) chromium_state \<Rightarrow>
    (int + bool \<times> ('j, 'w) chromium_state) option" where
  "check_value E i key_type p val s =
     (case key_type of
        BM_XATTR_NULL \<Rightarrow> Some (Inr (False, s))
      | BM_XATTR_DATE_ADDED \<Rightarrow>
          Some (if length val > MAX_TIME_STR_LEN then Inl (- EINVAL)
                else if parse_ts val = None then Inl (- EINVAL)
                else Inr (False, s))
      | BM_XATTR_GUID \<Rightarrow>
          (case parse_guid (Some val) of (status, guid) \<Rightarrow>
             if status \<noteq> 0 then Some (Inl (- EINVAL))
             else do {
               found \<leftarrow> lookup_guid (ce_hash E) (cs_nodes s) (cc_guid_map (cs_ctx s)) guid;
               (case found of
                  Some (q, _) \<Rightarrow> do {
                    e \<leftarrow> cs_nodes s q;
                    Some (Inl (if ne_id e = i then 0 else - EPERM))
                  }
                | None \<Rightarrow> do {
                    s \<leftarrow> update_guid E p (-1) guid (ce_hash E guid) s;
                    Some (Inr (False, s))
                  })
             })
      | BM_XATTR_TITLE \<Rightarrow>
          Some (if memchr val 0 (length val) \<noteq> None then Inl (- EINVAL) else Inr (True, s)))"

definition bookmark_set_chromium ::
  "('j, 'w) chromium_env \<Rightarrow> u64 \<Rightarrow> bytes option \<Rightarrow> u32 \<Rightarrow> set_value \<Rightarrow> ('j, 'w) chromium_state \<Rightarrow>
    (int \<times> ('j, 'w) chromium_state) option" where
  "bookmark_set_chromium E i xattr_name flags val s =
     (if i = BOOKMARKS_ROOT_ID then Some (- EPERM, s)
      else do {
        (status, s) \<leftarrow> store_load E s;
        (if status < 0 then Some (status, s)
         else do {
           r \<leftarrow> find_visible E s i;
           (case r of
              None \<Rightarrow> Some (- ESTALE, s)
            | Some (p, e) \<Rightarrow>
                (if ne_parent_id e = BOOKMARKS_ROOT_ID then Some (- EPERM, s)
                 else if has_flag flags (SET_ATIME OR SET_MTIME) then
                   (case val of
                      Content _ \<Rightarrow> None
                    | Times atime mtime \<Rightarrow> do {
                        (status, j) \<leftarrow> set_times (ce_js E) (ne_node e) flags atime mtime (cs_j s);
                        (if status \<noteq> 0 then Some (status, s)
                         else
                           (let s = s\<lparr>cs_j := j\<rparr>
                            in Some (0, if cc_dirty (cs_ctx s) < DIRTY_LEVEL_METADATA
                                        then set_dirty DIRTY_LEVEL_METADATA s else s)))
                      })
                 else
                   (case get_xattr_val (ce_js E) (cs_j s) (ne_node e) xattr_name (cc_flags (cs_ctx s)) of
                      Inl err \<Rightarrow> Some (err, s)
                    | Inr (key_type, val_node) \<Rightarrow>
                        (case val of
                           Times _ _ \<Rightarrow> None
                         | Content val \<Rightarrow> do {
                             checked \<leftarrow> check_value E i key_type p val s;
                             (case checked of
                                Inl status \<Rightarrow> Some (status, s)
                              | Inr (utf8, s) \<Rightarrow>
                                  (case (if utf8 then js_string_setn (ce_js E) val_node val (cs_j s)
                                         else (0, snd (js_string_setn_nocheck (ce_js E) val_node val (cs_j s)))) of
                                     (status, j) \<Rightarrow>
                                       if status \<noteq> 0 then Some (- EINVAL, s)
                                       else
                                         (let s = set_dirty DIRTY_LEVEL_DATA (s\<lparr>cs_j := j\<rparr>) in
                                          if key_type \<noteq> BM_XATTR_NULL \<and> has_flag (cc_flags (cs_ctx s)) BACKEND_CTIME
                                          then do { (_, s) \<leftarrow> node_mtime_now E (ne_node e) s; Some (0, s) }
                                          else Some (0, s))))
                           }))))
         })
      })"

definition bookmark_sync_chromium ::
  "('j, 'w) chromium_env \<Rightarrow> ('j, 'w) chromium_state \<Rightarrow> (int \<times> ('j, 'w) chromium_state) option" where
  "bookmark_sync_chromium E s = store_save E s"

end
