(* ===== verification/Chromium_Maps.thy ===== *)
theory Chromium_Maps
  imports Chromium_Write
begin

text \<open>
  The invariant of the three lookup tables of the Chromium backend, what the lookups return under it, and
  how insertions and removals keep it.
\<close>

section \<open>The invariant\<close>

text \<open>The entries that have a place in the table of names: those with a name, but for the root.\<close>

definition named :: "(ptr \<Rightarrow> node_entry option) \<Rightarrow> ptr set \<Rightarrow> ptr set" where
  "named nodes S = {p \<in> S. ne_id (entry_at nodes p) \<noteq> BOOKMARKS_ROOT_ID \<and> ne_name (entry_at nodes p) \<noteq> None}"

definition name_key :: "(ptr \<Rightarrow> node_entry option) \<Rightarrow> ptr \<Rightarrow> u64 \<times> bytes option" where
  "name_key nodes p = (ne_parent_id (entry_at nodes p), ne_name (entry_at nodes p))"

text \<open>\<open>S\<close> are the entries that the tables know.\<close>

definition maps_ok ::
  "(bytes \<Rightarrow> u64) \<Rightarrow> (ptr \<Rightarrow> node_entry option) \<Rightarrow> ptr set \<Rightarrow> ptr hashmap \<Rightarrow> ptr hashmap \<Rightarrow> ptr hashmap option \<Rightarrow> bool" where
  "maps_ok h nodes S im gm am \<longleftrightarrow>
     S \<subseteq> dom nodes \<and>
     hm_inv (idmap_hash h nodes) im \<and> hm_set im = S \<and> inj_on (\<lambda>p. ne_id (entry_at nodes p)) S \<and>
     hm_inv (guidmap_hash h nodes) gm \<and> hm_set gm = S \<and> inj_on (\<lambda>p. ne_guid (entry_at nodes p)) S \<and>
     (case am of
        None \<Rightarrow> True
      | Some m \<Rightarrow> hm_inv (assocmap_hash h nodes) m \<and> hm_set m = named nodes S \<and>
          inj_on (name_key nodes) (named nodes S))"

lemma maps_okD:
  assumes "maps_ok h nodes S im gm am"
  shows "S \<subseteq> dom nodes" "hm_inv (idmap_hash h nodes) im" "hm_set im = S"
    "inj_on (\<lambda>p. ne_id (entry_at nodes p)) S" "hm_inv (guidmap_hash h nodes) gm" "hm_set gm = S"
    "inj_on (\<lambda>p. ne_guid (entry_at nodes p)) S"
    "am = Some m \<Longrightarrow> hm_inv (assocmap_hash h nodes) m"
    "am = Some m \<Longrightarrow> hm_set m = named nodes S"
    "am = Some m \<Longrightarrow> inj_on (name_key nodes) (named nodes S)"
  using assms by (auto simp: maps_ok_def)

lemma entry_at_Some [simp]: "nodes p = Some e \<Longrightarrow> entry_at nodes p = e"
  by (simp add: entry_at_def)

lemma entry_at_upd [simp]: "entry_at (nodes(p \<mapsto> e)) q = (if q = p then e else entry_at nodes q)"
  by (simp add: entry_at_def)

section \<open>What the lookups return\<close>

lemma idmap_search_cases:
  assumes "hm_inv (idmap_hash h nodes) m"
  shows "case hashmap_search (idmap_comp nodes i) m (hash_id h i) of
      None \<Rightarrow> False
    | Some None \<Rightarrow> \<forall>p \<in> hm_set m. ne_id (entry_at nodes p) \<noteq> i
    | Some (Some (p, n)) \<Rightarrow> p \<in> hm_set m \<and> ne_id (entry_at nodes p) = i \<and> id_of m p n"
  by (rule hm.search_cases [OF assms]) (auto simp: idmap_comp_def idmap_hash_def)

lemma guidmap_search_cases:
  assumes "hm_inv (guidmap_hash h nodes) m"
  shows "case hashmap_search (guidmap_comp nodes g) m (h g) of
      None \<Rightarrow> False
    | Some None \<Rightarrow> \<forall>p \<in> hm_set m. ne_guid (entry_at nodes p) \<noteq> g
    | Some (Some (p, n)) \<Rightarrow> p \<in> hm_set m \<and> ne_guid (entry_at nodes p) = g \<and> id_of m p n"
  by (rule hm.search_cases [OF assms]) (auto simp: guidmap_comp_def guidmap_hash_def)

lemma assocmap_search_cases:
  assumes "hm_inv (assocmap_hash h nodes) m"
  shows "case hashmap_search (assocmap_comp nodes i name) m (hash_assoc h i name) of
      None \<Rightarrow> False
    | Some None \<Rightarrow> \<forall>p \<in> hm_set m. name_key nodes p \<noteq> (i, Some name)
    | Some (Some (p, n)) \<Rightarrow> p \<in> hm_set m \<and> name_key nodes p = (i, Some name) \<and> id_of m p n"
  by (rule hm.search_cases [OF assms])
    (auto simp: assocmap_comp_def assocmap_hash_def name_key_def Let_def)

text \<open>The lookups by id, GUID and name find exactly the entries of \<open>S\<close>.\<close>

lemma lookup_id_cases:
  assumes "maps_ok h nodes S im gm am"
  shows "case lookup_id h nodes (Some im) i of
      None \<Rightarrow> False
    | Some None \<Rightarrow> \<forall>p \<in> S. ne_id (entry_at nodes p) \<noteq> i
    | Some (Some (p, e)) \<Rightarrow> p \<in> S \<and> nodes p = Some e \<and> ne_id e = i"
proof -
  note I = maps_okD(1-3) [OF assms]
  show ?thesis
    using idmap_search_cases [OF I(2), of i] I(1,3) unfolding lookup_id_def
    by (auto split: option.splits bind_splits)
qed

lemma lookup_id_Some:
  assumes "maps_ok h nodes S im gm am"
  shows "lookup_id h nodes (Some im) i = Some (Some (p, e)) \<longleftrightarrow> p \<in> S \<and> nodes p = Some e \<and> ne_id e = i"
proof
  show "lookup_id h nodes (Some im) i = Some (Some (p, e)) \<Longrightarrow> p \<in> S \<and> nodes p = Some e \<and> ne_id e = i"
    using lookup_id_cases [OF assms, of i] by simp
  assume e: "p \<in> S \<and> nodes p = Some e \<and> ne_id e = i"
  then obtain q e' where "lookup_id h nodes (Some im) i = Some (Some (q, e'))"
    "q \<in> S" "nodes q = Some e'" "ne_id e' = i"
    using lookup_id_cases [OF assms, of i] by (auto split: option.splits)
  moreover from this have "q = p"
    using e inj_onD [OF maps_okD(4) [OF assms], of q p] by simp
  ultimately show "lookup_id h nodes (Some im) i = Some (Some (p, e))" using e by simp
qed

lemma lookup_id_None:
  assumes "maps_ok h nodes S im gm am"
  shows "lookup_id h nodes (Some im) i = Some None \<longleftrightarrow> (\<forall>p \<in> S. ne_id (entry_at nodes p) \<noteq> i)"
  using lookup_id_cases [OF assms, of i] entry_at_Some by (force split: option.splits)

lemma lookup_guid_cases:
  assumes "maps_ok h nodes S im gm am"
  shows "case lookup_guid h nodes (Some gm) g of
      None \<Rightarrow> False
    | Some None \<Rightarrow> \<forall>p \<in> S. ne_guid (entry_at nodes p) \<noteq> g
    | Some (Some (p, n)) \<Rightarrow> p \<in> S \<and> ne_guid (entry_at nodes p) = g \<and> id_of gm p n"
  using guidmap_search_cases [OF maps_okD(5) [OF assms], of g]
  unfolding maps_okD(6) [OF assms] by (simp add: lookup_guid_def)

lemma lookup_assoc_cases:
  assumes "maps_ok h nodes S im gm (Some m)"
  shows "case lookup_assoc h nodes (Some m) i name of
      None \<Rightarrow> False
    | Some None \<Rightarrow> \<forall>p \<in> named nodes S. name_key nodes p \<noteq> (i, Some name)
    | Some (Some (p, n)) \<Rightarrow> p \<in> named nodes S \<and> name_key nodes p = (i, Some name) \<and> id_of m p n"
  using assocmap_search_cases [OF maps_okD(8) [OF assms refl], of i name]
  unfolding maps_okD(9) [OF assms refl] by (simp add: lookup_assoc_def)

section \<open>Insertion and removal\<close>

text \<open>The tables stay as they are when an entry that they do not know changes.\<close>

lemma hash_congs:
  assumes "nodes' p = nodes p"
  shows "idmap_hash h nodes' p = idmap_hash h nodes p" "guidmap_hash h nodes' p = guidmap_hash h nodes p"
    "assocmap_hash h nodes' p = assocmap_hash h nodes p" "name_key nodes' p = name_key nodes p"
    "entry_at nodes' p = entry_at nodes p"
  using assms by (simp_all add: idmap_hash_def guidmap_hash_def assocmap_hash_def name_key_def entry_at_def)

lemma named_cong: "\<forall>p \<in> S. nodes' p = nodes p \<Longrightarrow> named nodes' S = named nodes S"
  using hash_congs(5) [of nodes' _ nodes] by (auto simp: named_def)

lemma named_subset: "named nodes S \<subseteq> S"
  by (auto simp: named_def)

lemma maps_ok_cong:
  assumes "maps_ok h nodes S im gm am" "\<forall>p \<in> S. nodes' p = nodes p"
  shows "maps_ok h nodes' S im gm am"
proof -
  note I = maps_okD [OF assms(1)]
  have eq: "nodes' p = nodes p" if "p \<in> S" for p using assms(2) that by blast
  note H = hash_congs [where nodes' = nodes' and nodes = nodes, OF eq]
  have named: "named nodes' S = named nodes S" using named_cong [OF assms(2)] .
  have "S \<subseteq> dom nodes'" using I(1) eq by (auto simp: dom_def subset_iff)
  moreover have "hm_inv (idmap_hash h nodes') im"
    using I(2) hm_inv_cong [of im "idmap_hash h nodes'" "idmap_hash h nodes"] H(1) I(3) by simp
  moreover have "hm_inv (guidmap_hash h nodes') gm"
    using I(5) hm_inv_cong [of gm "guidmap_hash h nodes'" "guidmap_hash h nodes"] H(2) I(6) by simp
  moreover have "inj_on (\<lambda>p. ne_id (entry_at nodes' p)) S" "inj_on (\<lambda>p. ne_guid (entry_at nodes' p)) S"
    using I(4,7) H(5) by (simp_all add: inj_on_def)
  moreover have "case am of None \<Rightarrow> True | Some m \<Rightarrow> hm_inv (assocmap_hash h nodes') m \<and>
      hm_set m = named nodes' S \<and> inj_on (name_key nodes') (named nodes' S)"
  proof (cases am)
    case (Some m)
    have "hm_inv (assocmap_hash h nodes') m"
      using I(8) [OF Some] hm_inv_cong [of m "assocmap_hash h nodes'" "assocmap_hash h nodes"]
        H(3) I(9) [OF Some] named_subset by (metis subsetD)
    moreover have "inj_on (name_key nodes') (named nodes S)"
      using I(10) [OF Some] H(4) named_subset
      by (metis (no_types, lifting) inj_on_cong subsetD)
    ultimately show ?thesis using I(9) [OF Some] by (simp add: Some named)
  qed simp
  ultimately show ?thesis using I(3,6) by (simp add: maps_ok_def)
qed

text \<open>A new entry that has no name yet.\<close>

lemma maps_ok_add:
  assumes ok: "maps_ok h nodes S im gm am" and p: "p \<notin> S"
    and nodes': "nodes' = nodes(p \<mapsto> e)" "ne_name e = None"
    and new: "\<forall>q \<in> S. ne_id (entry_at nodes q) \<noteq> ne_id e" "\<forall>q \<in> S. ne_guid (entry_at nodes q) \<noteq> ne_guid e"
    and im': "hashmap_insert (idmap_hash h nodes') im (hash_id h (ne_id e)) p = Some im'"
    and gm': "hashmap_insert (guidmap_hash h nodes') gm (h (ne_guid e)) p = Some gm'"
  shows "maps_ok h nodes' (insert p S) im' gm' am"
proof -
  have "\<forall>q \<in> S. nodes' q = nodes q" using p nodes'(1) by auto
  note ok' = maps_ok_cong [OF ok this]
  note I = maps_okD [OF ok']
  have at: "entry_at nodes' p = e" "\<And>q. q \<in> S \<Longrightarrow> entry_at nodes' q = entry_at nodes q"
    using p nodes'(1) by auto
  have named: "named nodes' (insert p S) = named nodes' S"
    using at(1) nodes'(2) by (auto simp: named_def)
  have "hm_inv (idmap_hash h nodes') im' \<and> hm_set im' = insert p S"
    using hm.add_inv [OF I(2), of p im'] im' p I(3) at(1) by (simp add: idmap_hash_def)
  moreover have "hm_inv (guidmap_hash h nodes') gm' \<and> hm_set gm' = insert p S"
    using hm.add_inv [OF I(5), of p gm'] gm' p I(6) at(1) by (simp add: guidmap_hash_def)
  moreover have "inj_on (\<lambda>p. ne_id (entry_at nodes' p)) (insert p S)"
    "inj_on (\<lambda>p. ne_guid (entry_at nodes' p)) (insert p S)"
    using I(4,7) new p at by (force simp: inj_on_insert)+
  moreover have "insert p S \<subseteq> dom nodes'" using I(1) nodes'(1) by auto
  moreover have "case am of None \<Rightarrow> True | Some m \<Rightarrow> hm_inv (assocmap_hash h nodes') m \<and>
      hm_set m = named nodes' (insert p S) \<and> inj_on (name_key nodes') (named nodes' (insert p S))"
    using ok' unfolding maps_ok_def named by blast
  ultimately show ?thesis unfolding maps_ok_def by blast
qed

text \<open>An entry without a name gets one that no sibling has.\<close>

lemma maps_ok_name:
  assumes ok: "maps_ok h nodes S im gm (Some m)" and p: "p \<in> S" "nodes p = Some e" "ne_name e = None"
    "ne_id e \<noteq> BOOKMARKS_ROOT_ID"
    and nodes': "nodes' = nodes(p \<mapsto> e\<lparr>ne_name := Some name\<rparr>)"
    and new: "\<forall>q \<in> named nodes S. name_key nodes q \<noteq> (ne_parent_id e, Some name)"
    and m': "hashmap_insert (assocmap_hash h nodes') m (hash_assoc h (ne_parent_id e) name) p = Some m'"
  shows "maps_ok h nodes' S im gm (Some m')"
proof -
  note I = maps_okD [OF ok]
  have at: "entry_at nodes' q = (if q = p then e\<lparr>ne_name := Some name\<rparr> else entry_at nodes q)" for q
    by (simp add: nodes')
  have p': "p \<notin> named nodes S" using p by (simp add: named_def)
  have named: "named nodes' S = insert p (named nodes S)" using p by (auto simp: named_def at)
  have idh: "idmap_hash h nodes' = idmap_hash h nodes" "guidmap_hash h nodes' = guidmap_hash h nodes"
    using p(2) by (auto simp: idmap_hash_def guidmap_hash_def at fun_eq_iff)
  have eqs: "(\<lambda>p. ne_id (entry_at nodes' p)) = (\<lambda>p. ne_id (entry_at nodes p))"
    "(\<lambda>p. ne_guid (entry_at nodes' p)) = (\<lambda>p. ne_guid (entry_at nodes p))"
    using p(2) by (auto simp: at fun_eq_iff)
  have key: "name_key nodes' q = (if q = p then (ne_parent_id e, Some name) else name_key nodes q)" for q
    by (simp add: name_key_def at)
  have "hm_inv (assocmap_hash h nodes') m"
  proof -
    have "assocmap_hash h nodes' q = assocmap_hash h nodes q" if "q \<in> hm_set m" for q
      using that I(9) [OF refl] p' by (auto simp: assocmap_hash_def at)
    then show ?thesis using I(8) [OF refl] hm_inv_cong by metis
  qed
  moreover have "p \<notin> hm_set m" using p' I(9) [OF refl] by simp
  moreover have "assocmap_hash h nodes' p = hash_assoc h (ne_parent_id e) name"
    by (simp add: assocmap_hash_def at)
  ultimately have "hm_inv (assocmap_hash h nodes') m' \<and> hm_set m' = named nodes' S"
    using hm.add_inv [of "assocmap_hash h nodes'" m p m'] m' I(9) [OF refl] named by simp
  moreover have "inj_on (name_key nodes') (named nodes' S)"
  proof -
    have "inj_on (name_key nodes') (named nodes S)"
      using I(10) [OF refl] p' by (auto simp: inj_on_def key)
    then show ?thesis using new p' by (auto simp: named key)
  qed
  moreover have "S \<subseteq> dom nodes'" using I(1) by (auto simp: nodes')
  ultimately show ?thesis using I(2-7) by (simp add: maps_ok_def idh eqs)
qed

end
