(* ===== verification/Chromium_Inv.thy ===== *)
theory Chromium_Inv
  imports Chromium_Maps
begin

text \<open>
  The invariant of the Chromium backend: its tables index exactly the entries on the heap that belong to the
  store, by id, by GUID and by folder and name.  Loading a store establishes it, whatever the file holds.
\<close>

section \<open>The invariant\<close>

definition tables_ok :: "('j, 'w) chromium_env \<Rightarrow> ptr set \<Rightarrow> ('j, 'w) chromium_state \<Rightarrow> bool" where
  "tables_ok E S s \<longleftrightarrow>
     (\<exists>im gm. cc_id_map (cs_ctx s) = Some im \<and> cc_guid_map (cs_ctx s) = Some gm \<and>
        maps_ok (ce_hash E) (cs_nodes s) S im gm (cc_assoc_map (cs_ctx s))) \<and>
     (\<forall>p \<in> S. ne_id (entry_at (cs_nodes s) p) \<le> cc_max_id (cs_ctx s)) \<and>
     (cc_assoc_map (cs_ctx s) = None \<longleftrightarrow> has_flag (cc_flags (cs_ctx s)) BACKEND_FILENAME_GUID)"

definition chromium_inv :: "('j, 'w) chromium_env \<Rightarrow> ('j, 'w) chromium_state \<Rightarrow> bool" where
  "chromium_inv E s \<longleftrightarrow>
     (\<forall>p. cs_brk s \<le> p \<longrightarrow> cs_nodes s p = None) \<and>
     (cc_id_map (cs_ctx s) \<noteq> None \<longrightarrow> (\<exists>S. tables_ok E S s)) \<and>
     (cc_store (cs_ctx s) \<noteq> NULL \<or> cc_dirty (cs_ctx s) \<noteq> DIRTY_LEVEL_NONE \<longrightarrow> cc_id_map (cs_ctx s) \<noteq> None)"

lemma tables_ok_cong:
  assumes "tables_ok E S s" "\<forall>p \<in> S. cs_nodes s' p = cs_nodes s p"
    "cc_id_map (cs_ctx s') = cc_id_map (cs_ctx s)" "cc_guid_map (cs_ctx s') = cc_guid_map (cs_ctx s)"
    "cc_assoc_map (cs_ctx s') = cc_assoc_map (cs_ctx s)" "cc_max_id (cs_ctx s') = cc_max_id (cs_ctx s)"
    "cc_flags (cs_ctx s') = cc_flags (cs_ctx s)"
  shows "tables_ok E S s'"
proof -
  have "entry_at (cs_nodes s') p = entry_at (cs_nodes s) p" if "p \<in> S" for p
    using assms(2) that by (simp add: entry_at_def)
  then show ?thesis using assms maps_ok_cong [OF _ assms(2)] unfolding tables_ok_def by auto
qed

text \<open>What changes neither the tables nor the entries.\<close>

definition same_tables :: "('j, 'w) chromium_state \<Rightarrow> ('j, 'w) chromium_state \<Rightarrow> bool" where
  "same_tables s s' \<longleftrightarrow> cs_nodes s' = cs_nodes s \<and> cs_brk s \<le> cs_brk s' \<and>
     cc_id_map (cs_ctx s') = cc_id_map (cs_ctx s) \<and> cc_guid_map (cs_ctx s') = cc_guid_map (cs_ctx s) \<and>
     cc_assoc_map (cs_ctx s') = cc_assoc_map (cs_ctx s) \<and> cc_max_id (cs_ctx s') = cc_max_id (cs_ctx s) \<and>
     cc_flags (cs_ctx s') = cc_flags (cs_ctx s) \<and>
     (cc_store (cs_ctx s') \<noteq> NULL \<or> cc_dirty (cs_ctx s') \<noteq> DIRTY_LEVEL_NONE \<longrightarrow>
        cc_store (cs_ctx s) \<noteq> NULL \<or> cc_dirty (cs_ctx s) \<noteq> DIRTY_LEVEL_NONE \<or> cc_id_map (cs_ctx s) \<noteq> None)"

lemma same_tables_inv: "same_tables s s' \<Longrightarrow> chromium_inv E s \<Longrightarrow> chromium_inv E s'"
  using tables_ok_cong [of E _ s s'] unfolding chromium_inv_def same_tables_def
  by (metis order_trans)

section \<open>A walk keeps what its callback keeps\<close>

definition cb_keeps :: "('d \<Rightarrow> bool) \<Rightarrow> ('d, 'p) node_iter_func \<Rightarrow> bool" where
  "cb_keeps I cb \<longleftrightarrow> (\<forall>d node c pd st d' pd'. I d \<longrightarrow> cb d node c pd = Some (st, d', pd') \<longrightarrow> I d')"

lemma iter_loop_inv:
  assumes "cb_keeps I cb" "iter_loop J hp n cb at stk d = Some r" "I d"
  shows "I (snd r)"
proof -
  have "cb_keeps I cb \<longrightarrow> I d \<longrightarrow> I (snd r)"
  proof (rule iter_loop.raw_induct [OF _ assms(2)], goal_cases)
    case (1 f J hp n cb at stk d r)
    note IH = 1(1) [rule_format]
    show ?case
    proof (intro impI)
      assume cb: "cb_keeps I cb" and d: "I d"
      obtain it below where stk: "stk = it # below" using 1(2) by (cases stk) auto
      show "I (snd r)"
      proof (cases at)
        case None
        define node where "node = js_array_get J (hp d) (ni_children it) (ni_idx it)"
        have run: "(if node = NULL then (if below = [] then Some (0, d) else f J hp n cb None below d)
            else f J hp n cb (Some node) (it\<lparr>ni_idx := Suc (ni_idx it)\<rparr> # below) d) = Some r"
          using 1(2) by (auto simp: stk None Let_def node_def split: if_splits)
        show ?thesis
        proof (cases "node = NULL")
          case True
          then show ?thesis using run d IH [OF _ cb d] by (cases "below = []") auto
        next
          case False
          then have "f J hp n cb (Some node) (it\<lparr>ni_idx := Suc (ni_idx it)\<rparr> # below) d = Some r" using run by simp
          from IH [OF this cb d] show ?thesis .
        qed
      next
        case (Some node)
        define c where "c = json_object_sget J (hp d) node ''children''"
        obtain st d1 pd where r: "cb d node c (ni_parent it) = Some (st, d1, pd)"
          using 1(2) by (auto simp: stk Some Let_def c_def split: bind_splits)
        have d1: "I d1" using cb d r unfolding cb_keeps_def by blast
        have run: "(if st \<noteq> 0 then Some (-1, d1) else if c = NULL then f J hp n cb None stk d1
            else if length stk = n then Some (-1, d1)
            else f J hp n cb None (\<lparr>ni_children = c, ni_idx = 0, ni_parent = pd\<rparr> # stk) d1) = Some r"
          using 1(2) r by (auto simp: stk Some Let_def c_def split: if_splits)
        show ?thesis
        proof (cases "st \<noteq> 0 \<or> c \<noteq> NULL \<and> length stk = n")
          case True
          then have "r = (-1, d1)" using run by (auto split: if_splits)
          then show ?thesis using d1 by simp
        next
          case False
          then have "f J hp n cb None (if c = NULL then stk
              else \<lparr>ni_children = c, ni_idx = 0, ni_parent = pd\<rparr> # stk) d1 = Some r"
            using run by (cases "c = NULL") simp_all
          from IH [OF this cb d1] show ?thesis .
        qed
      qed
    qed
  qed
  then show ?thesis using assms by blast
qed

lemma iter_values_inv:
  "cb_keeps I cb \<Longrightarrow> iter_values J hp cb pd nodes r0 d = Some r \<Longrightarrow> I d \<Longrightarrow> I (snd r)"
proof (induction nodes arbitrary: r0 d)
  case (Cons node nodes)
  obtain r1 d1 where n: "iter_node J hp MAX_NODE_ITER_DEPTH cb node pd d = Some (r1, d1)"
    using Cons.prems(2) by (auto split: bind_splits)
  have "I d1" using iter_loop_inv [OF Cons.prems(1) n [unfolded iter_node_def] Cons.prems(3)] by simp
  then show ?case using Cons.prems(1,2) Cons.IH n by (auto split: if_splits)
qed auto

section \<open>Loading\<close>

text \<open>
  While the tables are built: \<open>S\<close> are the new entries, from \<open>b0\<close> on; the entries of the old tables are below.
\<close>

definition building ::
  "('j, 'w) chromium_env \<Rightarrow> (ptr \<Rightarrow> node_entry option) \<Rightarrow> ptr \<Rightarrow> chromium_ctx \<Rightarrow> ptr set \<Rightarrow> ('j, 'w) idmap_iter_ctx \<Rightarrow> bool" where
  "building E nodes0 b0 ctx S c \<longleftrightarrow>
     maps_ok (ce_hash E) (cs_nodes (im_s c)) S (im_id_map c) (im_guid_map c) (im_assoc_map c) \<and>
     (\<forall>p \<in> S. b0 \<le> p \<and> ne_id (entry_at (cs_nodes (im_s c)) p) \<le> im_max_id c) \<and>
     (\<exists>p \<in> S. ne_id (entry_at (cs_nodes (im_s c)) p) = BOOKMARKS_ROOT_ID) \<and>
     cs_ctx (im_s c) = ctx \<and> b0 \<le> cs_brk (im_s c) \<and> (\<forall>p. cs_brk (im_s c) \<le> p \<longrightarrow> cs_nodes (im_s c) p = None) \<and>
     (\<forall>p < b0. cs_nodes (im_s c) p = nodes0 p) \<and>
     (im_assoc_map c = None \<longleftrightarrow> has_flag (cc_flags ctx) BACKEND_FILENAME_GUID)"

text \<open>The last step of the callback: the name.\<close>

lemma maps_iter_name_ok:
  assumes run: "maps_iter_name E parent name p e c = Some c'"
    and ok: "maps_ok (ce_hash E) (cs_nodes (im_s c)) S (im_id_map c) (im_guid_map c) (im_assoc_map c)"
    and p: "p \<in> S" "cs_nodes (im_s c) p = Some e" "ne_name e = None" "ne_id e \<noteq> BOOKMARKS_ROOT_ID"
      "ne_parent_id e = ne_id parent"
  shows "maps_ok (ce_hash E) (cs_nodes (im_s c')) S (im_id_map c') (im_guid_map c') (im_assoc_map c') \<and>
    im_max_id c' = im_max_id c \<and> cs_ctx (im_s c') = cs_ctx (im_s c) \<and> cs_brk (im_s c') = cs_brk (im_s c) \<and>
    (im_assoc_map c' = None \<longleftrightarrow> im_assoc_map c = None) \<and>
    (\<exists>n. cs_nodes (im_s c') = (cs_nodes (im_s c))(p \<mapsto> e\<lparr>ne_name := n\<rparr>))"
proof -
  have same: "cs_nodes (im_s c) = (cs_nodes (im_s c))(p \<mapsto> e\<lparr>ne_name := None\<rparr>)"
    using p(2,3) by (auto simp: fun_eq_iff)
  have keep: ?thesis if "c' = c" using that ok same by blast
  show ?thesis
  proof (cases "im_assoc_map c")
    case None
    then show ?thesis using keep run by (simp add: maps_iter_name_def)
  next
    case (Some am)
    have am: "hm_inv (assocmap_hash (ce_hash E) (cs_nodes (im_s c))) am" "hm_set am = named (cs_nodes (im_s c)) S"
      using maps_okD(8,9) [OF ok Some] by simp_all
    let ?found = "hashmap_search (assocmap_comp (cs_nodes (im_s c)) (ne_id parent) name) am
      (hash_assoc (ce_hash E) (ne_id parent) name)"
    show ?thesis
    proof (cases "c' = c")
      case False
      obtain x where x: "?found = Some x"
        using run False by (auto simp: maps_iter_name_def Some Let_def split: if_splits bind_splits)
      have x0: "x = None"
        using run False by (cases x) (auto simp: maps_iter_name_def Some Let_def x split: if_splits)
      let ?s = "put_node p (e\<lparr>ne_name := Some name\<rparr>) (im_s c)"
      obtain m where m: "?found = Some None"
          "hashmap_insert (assocmap_hash (ce_hash E) (cs_nodes ?s)) am (hash_assoc (ce_hash E) (ne_id parent) name) p = Some m"
          "c' = c\<lparr>im_assoc_map := Some m, im_s := ?s\<rparr>"
        using run False x by (auto simp: maps_iter_name_def Some Let_def x0 split: if_splits bind_splits)
      have new: "\<forall>q \<in> named (cs_nodes (im_s c)) S. name_key (cs_nodes (im_s c)) q \<noteq> (ne_parent_id e, Some name)"
        using assocmap_search_cases [OF am(1), of "ne_id parent" name] m(1) am(2) p(5) by simp
      have "maps_ok (ce_hash E) (cs_nodes ?s) S (im_id_map c) (im_guid_map c) (Some m)"
        using maps_ok_name [OF ok [unfolded Some] p(1-4) _ new] m(2) p(5) by (simp add: put_node_def)
      then show ?thesis by (auto simp: m(3) Some put_node_def)
    qed (rule keep)
  qed
qed

text \<open>The callback gives up with the context as it was, or adds one entry.\<close>

lemma maps_iter_cb_cases:
  assumes "maps_iter_cb E c node children pp = Some (st, c', p')"
  shows "c' = c \<or> (\<exists>parent i guid name e im gm s.
    let h = ce_hash E; nodes = cs_nodes (im_s c); p = cs_brk (im_s c) in
    nodes pp = Some parent \<and> parse_guid (js_string_value (ce_js E) (im_json c) (json_object_sget (ce_js E) (im_json c) node ''guid'')) = (0, guid) \<and>
    hashmap_search (idmap_comp nodes i) (im_id_map c) (hash_id h i) = Some None \<and>
    hashmap_search (guidmap_comp nodes guid) (im_guid_map c) (h guid) = Some None \<and>
    e = \<lparr>ne_id = i, ne_parent_id = ne_id parent, ne_guid = guid, ne_name = None, ne_node = node, ne_children = children\<rparr> \<and>
    hashmap_insert (idmap_hash h (nodes(p \<mapsto> e))) (im_id_map c) (hash_id h i) p = Some im \<and>
    hashmap_insert (guidmap_hash h (nodes(p \<mapsto> e))) (im_guid_map c) (h guid) p = Some gm \<and>
    cs_nodes s = nodes(p \<mapsto> e) \<and> cs_ctx s = cs_ctx (im_s c) \<and> cs_brk s = Suc p \<and>
    (\<exists>c1. maps_iter_name E parent name p e (c\<lparr>im_id_map := im, im_guid_map := gm, im_s := s\<rparr>) = Some c1 \<and>
       c' = c1\<lparr>im_max_id := (if i > im_max_id c1 then i else im_max_id c1)\<rparr>))"
proof -
  let ?J = "ce_js E" and ?j = "im_json c" and ?nodes = "cs_nodes (im_s c)" and ?h = "ce_hash E"
  let ?guid = "parse_guid (js_string_value ?J ?j (json_object_sget ?J ?j node ''guid''))"
  let ?name = "js_string_value ?J ?j (json_object_sget ?J ?j node ''name'')"
  obtain parent where parent: "?nodes pp = Some parent"
    using assms by (auto simp: maps_iter_cb_def Let_def split: bind_splits)
  show ?thesis
  proof (cases "c' = c")
    case False
    obtain i where i: "parse_id ?J ?j node = Some i"
      using assms False parent by (cases "parse_id ?J ?j node") (auto simp: maps_iter_cb_def Let_def)
    obtain x where x: "hashmap_search (idmap_comp ?nodes i) (im_id_map c) (hash_id ?h i) = Some x"
      using assms False parent i
      by (cases "hashmap_search (idmap_comp ?nodes i) (im_id_map c) (hash_id ?h i)") (auto simp: maps_iter_cb_def Let_def)
    have x0: "x = None" using assms False parent i x by (cases x) (auto simp: maps_iter_cb_def Let_def)
    obtain g guid where g: "?guid = (g, guid)" by fastforce
    have g0: "g = 0" using assms False parent i x x0 g by (cases "g = 0") (auto simp: maps_iter_cb_def Let_def)
    obtain y where y: "hashmap_search (guidmap_comp ?nodes guid) (im_guid_map c) (?h guid) = Some y"
      using assms False parent i x x0 g g0
      by (cases "hashmap_search (guidmap_comp ?nodes guid) (im_guid_map c) (?h guid)") (auto simp: maps_iter_cb_def Let_def)
    have y0: "y = None" using assms False parent i x x0 g g0 y by (cases y) (auto simp: maps_iter_cb_def Let_def)
    obtain name where name: "?name = Some name"
      using assms False parent i x x0 g g0 y y0 by (cases ?name) (auto simp: maps_iter_cb_def Let_def)
    define e where "e = \<lparr>ne_id = i, ne_parent_id = ne_id parent, ne_guid = guid, ne_name = None, ne_node = node,
      ne_children = children\<rparr>"
    define s0 where "s0 = (im_s c)\<lparr>cs_nodes := ?nodes(cs_brk (im_s c) \<mapsto> e), cs_brk := Suc (cs_brk (im_s c))\<rparr>"
    define s where "s = (if ne_id parent = BOOKMARKS_ROOT_ID
      then s0\<lparr>cs_j := js_array_append ?J (ne_children parent) node (cs_j s0)\<rparr> else s0)"
    have s: "cs_nodes s = ?nodes(cs_brk (im_s c) \<mapsto> e)" "cs_ctx s = cs_ctx (im_s c)" "cs_brk s = Suc (cs_brk (im_s c))"
      by (simp_all add: s_def s0_def)
    have new: "new_node e (im_s c) = (cs_brk (im_s c), s0)" by (simp add: new_node_def s0_def)
    have s0: "cs_nodes s0 = ?nodes(cs_brk (im_s c) \<mapsto> e)" by (simp add: s0_def)
    have body: "\<exists>im gm c1. hashmap_insert (idmap_hash ?h (?nodes(cs_brk (im_s c) \<mapsto> e))) (im_id_map c) (hash_id ?h i) (cs_brk (im_s c)) = Some im \<and>
        hashmap_insert (guidmap_hash ?h (?nodes(cs_brk (im_s c) \<mapsto> e))) (im_guid_map c) (?h guid) (cs_brk (im_s c)) = Some gm \<and>
        maps_iter_name E parent name (cs_brk (im_s c)) e (c\<lparr>im_id_map := im, im_guid_map := gm, im_s := s\<rparr>) = Some c1 \<and>
        c' = c1\<lparr>im_max_id := (if i > im_max_id c1 then i else im_max_id c1)\<rparr>"
      using assms unfolding maps_iter_cb_def
      by (simp add: Let_def parent i x x0 g g0 y y0 name new s0 flip: e_def s_def split: bind_splits)
        (auto simp: maps_iter_end_def)
    then show ?thesis unfolding Let_def using parent g g0 x x0 y y0 e_def s by blast
  qed simp
qed

lemma maps_iter_cb_building:
  assumes B: "building E nodes0 b0 ctx S c" and run: "maps_iter_cb E c node children pp = Some (st, c', p')"
  shows "\<exists>S'. building E nodes0 b0 ctx S' c'"
proof (cases "c' = c")
  case True
  then show ?thesis using B by blast
next
  case False
  let ?h = "ce_hash E" and ?nodes = "cs_nodes (im_s c)" and ?p = "cs_brk (im_s c)"
  obtain parent i guid name e im gm s c1 where
    new: "hashmap_search (idmap_comp ?nodes i) (im_id_map c) (hash_id ?h i) = Some None"
      "hashmap_search (guidmap_comp ?nodes guid) (im_guid_map c) (?h guid) = Some None"
    and e: "e = \<lparr>ne_id = i, ne_parent_id = ne_id parent, ne_guid = guid, ne_name = None, ne_node = node, ne_children = children\<rparr>"
    and ins: "hashmap_insert (idmap_hash ?h (?nodes(?p \<mapsto> e))) (im_id_map c) (hash_id ?h i) ?p = Some im"
      "hashmap_insert (guidmap_hash ?h (?nodes(?p \<mapsto> e))) (im_guid_map c) (?h guid) ?p = Some gm"
    and s: "cs_nodes s = ?nodes(?p \<mapsto> e)" "cs_ctx s = cs_ctx (im_s c)" "cs_brk s = Suc ?p"
    and nm: "maps_iter_name E parent name ?p e (c\<lparr>im_id_map := im, im_guid_map := gm, im_s := s\<rparr>) = Some c1"
      "c' = c1\<lparr>im_max_id := (if i > im_max_id c1 then i else im_max_id c1)\<rparr>"
    using maps_iter_cb_cases [OF run] False unfolding Let_def by blast
  have ok: "maps_ok ?h ?nodes S (im_id_map c) (im_guid_map c) (im_assoc_map c)"
    and S: "\<forall>q \<in> S. b0 \<le> q \<and> ne_id (entry_at ?nodes q) \<le> im_max_id c"
    and root: "\<exists>q \<in> S. ne_id (entry_at ?nodes q) = BOOKMARKS_ROOT_ID"
    and ctx: "cs_ctx (im_s c) = ctx" and b0: "b0 \<le> ?p" and free: "\<forall>q. ?p \<le> q \<longrightarrow> ?nodes q = None"
    and old: "\<forall>q < b0. ?nodes q = nodes0 q"
    and am: "im_assoc_map c = None \<longleftrightarrow> has_flag (cc_flags ctx) BACKEND_FILENAME_GUID"
    using B unfolding building_def by simp_all
  have p: "?p \<notin> S" using maps_okD(1) [OF ok] free by auto
  have ids: "\<forall>q \<in> S. ne_id (entry_at ?nodes q) \<noteq> i"
    using idmap_search_cases [OF maps_okD(2) [OF ok], of i] new(1) maps_okD(3) [OF ok] by simp
  have guids: "\<forall>q \<in> S. ne_guid (entry_at ?nodes q) \<noteq> guid"
    using guidmap_search_cases [OF maps_okD(5) [OF ok], of guid] new(2) maps_okD(6) [OF ok] by simp
  let ?c = "c\<lparr>im_id_map := im, im_guid_map := gm, im_s := s\<rparr>"
  have "maps_ok ?h (cs_nodes s) (insert ?p S) im gm (im_assoc_map c)"
    by (rule maps_ok_add [OF ok p s(1)]) (use ids guids ins s(1) in \<open>simp_all add: e\<close>)
  then have add: "maps_ok ?h (cs_nodes (im_s ?c)) (insert ?p S) (im_id_map ?c) (im_guid_map ?c) (im_assoc_map ?c)"
    by simp
  have i: "i \<noteq> BOOKMARKS_ROOT_ID" using ids root by auto
  have pe: "cs_nodes (im_s ?c) ?p = Some e" using s(1) by simp
  obtain n where N: "maps_ok ?h (cs_nodes (im_s c1)) (insert ?p S) (im_id_map c1) (im_guid_map c1) (im_assoc_map c1)"
      "im_max_id c1 = im_max_id c" "cs_ctx (im_s c1) = cs_ctx (im_s c)" "cs_brk (im_s c1) = Suc ?p"
      "im_assoc_map c1 = None \<longleftrightarrow> im_assoc_map c = None"
      "cs_nodes (im_s c1) = (cs_nodes s)(?p \<mapsto> e\<lparr>ne_name := n\<rparr>)"
    using maps_iter_name_ok [OF nm(1) add _ pe] i s by (auto simp: e)
  have at: "entry_at (cs_nodes (im_s c1)) q = (if q = ?p then e\<lparr>ne_name := n\<rparr> else entry_at ?nodes q)" for q
    by (simp add: N(6) s(1))
  have "building E nodes0 b0 ctx (insert ?p S) c'"
    unfolding building_def nm(2)
    using N ctx b0 free old am S root p by (auto simp: at s e intro: order_trans)
  then show ?thesis by blast
qed

lemma building_init:
  assumes free: "\<forall>q. cs_brk s \<le> q \<longrightarrow> cs_nodes s q = None" and run: "build_maps_init E s = Some (c, p)"
  shows "building E (cs_nodes s) (cs_brk s) (cs_ctx s) {cs_brk s} c"
proof -
  let ?h = "ce_hash E" and ?p = "cs_brk s"
  obtain root children j where j: "build_root (ce_js E) (cs_j s) = (root, children, j)" by (cases "build_root (ce_js E) (cs_j s)")
  define e where "e = root_entry root children"
  define nodes where "nodes = (cs_nodes s)(?p \<mapsto> e)"
  have e: "ne_id e = BOOKMARKS_ROOT_ID" "ne_guid e = root_guid" by (simp_all add: e_def root_entry_def)
  obtain im gm where c: "hashmap_insert (idmap_hash ?h nodes) hashmap_create (hash_id ?h BOOKMARKS_ROOT_ID) ?p = Some im"
      "hashmap_insert (guidmap_hash ?h nodes) hashmap_create (?h root_guid) ?p = Some gm"
      "c = \<lparr>im_id_map = im, im_guid_map = gm, im_assoc_map =
        (if has_flag (cc_flags (cs_ctx s)) BACKEND_FILENAME_GUID then None else Some hashmap_create), im_max_id = 0,
        im_s = s\<lparr>cs_j := j, cs_nodes := nodes, cs_brk := Suc ?p\<rparr>\<rparr>"
    using run by (auto simp: build_maps_init_def Let_def j new_node_def nodes_def e_def split: bind_splits)
  have at: "entry_at nodes ?p = e" by (simp add: nodes_def)
  have "hm_inv (idmap_hash ?h nodes) im \<and> hm_set im = {?p}" "hm_inv (guidmap_hash ?h nodes) gm \<and> hm_set gm = {?p}"
    using hm.add_inv [OF hashmap_create_ok(1), of ?p "idmap_hash ?h nodes" im]
      hm.add_inv [OF hashmap_create_ok(1), of ?p "guidmap_hash ?h nodes" gm] c(1,2)
    by (simp_all add: hashmap_create_ok(2) idmap_hash_def guidmap_hash_def at e)
  moreover have "named nodes {?p} = {}" by (auto simp: named_def at e)
  moreover have "?p \<in> dom nodes" by (simp add: nodes_def)
  ultimately have "maps_ok ?h nodes {?p} im gm (im_assoc_map c)"
    by (simp add: maps_ok_def c(3) hashmap_create_ok)
  then show ?thesis
    using free by (simp add: building_def c(3) at e BOOKMARKS_ROOT_ID_def) (simp add: nodes_def)
qed

lemma fold_free_node:
  "cs_nodes (fold free_node ps s) = (\<lambda>q. if q \<in> set ps then None else cs_nodes s q) \<and>
    cs_ctx (fold free_node ps s) = cs_ctx s \<and> cs_brk (fold free_node ps s) = cs_brk s \<and>
    cs_j (fold free_node ps s) = cs_j s \<and> cs_w (fold free_node ps s) = cs_w s"
  by (induction ps arbitrary: s) (auto simp: free_node_def fun_eq_iff)

lemma free_maps_facts:
  "cs_nodes (free_maps m s) q = (if m \<noteq> None \<and> q \<in> hm_set (the m) then None else cs_nodes s q)"
  "cs_ctx (free_maps m s) = cs_ctx s" "cs_brk (free_maps m s) = cs_brk s"
  using fold_free_node [of "hashmap_foreach (the m)" s]
  by (auto simp: free_maps_def hashmap_foreach_def hm_set_def occupants_entries split: option.splits)

lemma build_maps_run:
  assumes free: "\<forall>q. cs_brk s \<le> q \<longrightarrow> cs_nodes s q = None" and run: "build_maps E s = Some (st, s')"
  obtains S c where "building E (cs_nodes s) (cs_brk s) (cs_ctx s) S c"
    "st \<noteq> 0 \<longrightarrow> st = -1 \<and> s' = free_maps (Some (im_id_map c)) (im_s c)"
    "st = 0 \<longrightarrow> (\<exists>root. s' = (free_maps (cc_id_map (cs_ctx s)) (im_s c))\<lparr>cs_ctx := (cs_ctx s)\<lparr>cc_id_map := Some (im_id_map c),
       cc_guid_map := Some (im_guid_map c), cc_assoc_map := im_assoc_map c, cc_max_id := im_max_id c, cc_fake_root := root\<rparr>\<rparr>)"
proof -
  obtain c0 p where c0: "build_maps_init E s = Some (c0, p)"
    using run by (auto simp: build_maps_def split: bind_splits)
  obtain r c where it: "iter_roots (ce_js E) im_json (cc_roots (cs_ctx s)) (maps_iter_cb E) p c0 = Some (r, c)"
    using run by (auto simp: build_maps_def c0 Let_def split: bind_splits)
  let ?I = "\<lambda>c. \<exists>S. building E (cs_nodes s) (cs_brk s) (cs_ctx s) S c"
  have cb: "cb_keeps ?I (maps_iter_cb E)"
    unfolding cb_keeps_def using maps_iter_cb_building by blast
  have "?I c0" using building_init [OF free c0] by blast
  then have "?I (snd (r, c))" by (rule iter_values_inv [where I = ?I, OF cb it [unfolded iter_roots_def]])
  then obtain S where S: "building E (cs_nodes s) (cs_brk s) (cs_ctx s) S c" by auto
  then have ctx: "cs_ctx (im_s c) = cs_ctx s" by (simp add: building_def)
  show thesis
    by (rule that [OF S]) (use run ctx in \<open>auto simp: build_maps_def c0 it Let_def free_maps_facts(2) split: if_splits\<close>)
qed

lemma build_maps_inv:
  assumes inv: "chromium_inv E s" and run: "build_maps E s = Some (st, s')"
  shows "chromium_inv E s'" "st = 0 \<Longrightarrow> \<exists>S. tables_ok E S s'" "cc_flags (cs_ctx s') = cc_flags (cs_ctx s)"
    "st \<noteq> 0 \<Longrightarrow> st = -1 \<and> cs_ctx s' = cs_ctx s"
proof -
  have free: "\<forall>q. cs_brk s \<le> q \<longrightarrow> cs_nodes s q = None" using inv by (simp add: chromium_inv_def)
  obtain S c where B: "building E (cs_nodes s) (cs_brk s) (cs_ctx s) S c"
    and bad: "st \<noteq> 0 \<longrightarrow> st = -1 \<and> s' = free_maps (Some (im_id_map c)) (im_s c)"
    and good: "st = 0 \<longrightarrow> (\<exists>root. s' = (free_maps (cc_id_map (cs_ctx s)) (im_s c))\<lparr>cs_ctx := (cs_ctx s)\<lparr>cc_id_map := Some (im_id_map c),
       cc_guid_map := Some (im_guid_map c), cc_assoc_map := im_assoc_map c, cc_max_id := im_max_id c, cc_fake_root := root\<rparr>\<rparr>)"
    using build_maps_run [OF free run] .
  have ok: "maps_ok (ce_hash E) (cs_nodes (im_s c)) S (im_id_map c) (im_guid_map c) (im_assoc_map c)"
    and S: "\<forall>p \<in> S. cs_brk s \<le> p \<and> ne_id (entry_at (cs_nodes (im_s c)) p) \<le> im_max_id c"
    and ctx: "cs_ctx (im_s c) = cs_ctx s" and brk: "cs_brk s \<le> cs_brk (im_s c)"
    and free': "\<forall>q. cs_brk (im_s c) \<le> q \<longrightarrow> cs_nodes (im_s c) q = None"
    and old: "\<forall>q < cs_brk s. cs_nodes (im_s c) q = cs_nodes s q"
    and am: "im_assoc_map c = None \<longleftrightarrow> has_flag (cc_flags (cs_ctx s)) BACKEND_FILENAME_GUID"
    using B unfolding building_def by simp_all
  have set: "hm_set (im_id_map c) = S" using maps_okD(3) [OF ok] .
  have below: "q < cs_brk s" if "q \<in> S'" "tables_ok E S' s" for q S'
    using that free maps_okD(1) unfolding tables_ok_def by (metis domD linorder_not_less option.distinct(1) subsetD)
  have "chromium_inv E s' \<and> (st = 0 \<longrightarrow> (\<exists>S. tables_ok E S s')) \<and> cc_flags (cs_ctx s') = cc_flags (cs_ctx s) \<and>
    (st \<noteq> 0 \<longrightarrow> st = -1 \<and> cs_ctx s' = cs_ctx s)"
  proof (cases "st = 0")
    case False
    then have s': "s' = free_maps (Some (im_id_map c)) (im_s c)" using bad by simp
    have "tables_ok E S' s'" if t: "tables_ok E S' s" for S'
    proof (rule tables_ok_cong [OF t])
      show "\<forall>p \<in> S'. cs_nodes s' p = cs_nodes s p"
        using below [OF _ t] S old by (fastforce simp: s' free_maps_facts set)
    qed (simp_all add: s' free_maps_facts ctx)
    then show ?thesis using False inv free' bad unfolding chromium_inv_def by (auto simp: s' free_maps_facts ctx)
  next
    case True
    then obtain root where s': "s' = (free_maps (cc_id_map (cs_ctx s)) (im_s c))\<lparr>cs_ctx := (cs_ctx s)\<lparr>cc_id_map := Some (im_id_map c),
       cc_guid_map := Some (im_guid_map c), cc_assoc_map := im_assoc_map c, cc_max_id := im_max_id c, cc_fake_root := root\<rparr>\<rparr>"
      using good by blast
    have same: "\<forall>p \<in> S. cs_nodes s' p = cs_nodes (im_s c) p"
    proof
      fix p assume p: "p \<in> S"
      have "p \<notin> hm_set (the (cc_id_map (cs_ctx s)))" if m: "cc_id_map (cs_ctx s) \<noteq> None"
      proof -
        obtain S' where t: "tables_ok E S' s" using inv m unfolding chromium_inv_def by blast
        then have "hm_set (the (cc_id_map (cs_ctx s))) = S'" using maps_okD(3) unfolding tables_ok_def by auto
        then show ?thesis using below [OF _ t] S p by (metis linorder_not_less)
      qed
      then show "cs_nodes s' p = cs_nodes (im_s c) p" by (auto simp: s' free_maps_facts)
    qed
    have "maps_ok (ce_hash E) (cs_nodes s') S (im_id_map c) (im_guid_map c) (im_assoc_map c)"
      using maps_ok_cong [OF ok same] .
    moreover have "entry_at (cs_nodes s') p = entry_at (cs_nodes (im_s c)) p" if "p \<in> S" for p
      using same that by (simp add: entry_at_def)
    ultimately have "tables_ok E S s'" using S am by (auto simp: tables_ok_def s')
    moreover have "\<forall>q. cs_brk s' \<le> q \<longrightarrow> cs_nodes s' q = None" using free' by (simp add: s' free_maps_facts)
    ultimately show ?thesis using True unfolding chromium_inv_def by (auto simp: s')
  qed
  then show "chromium_inv E s'" "st = 0 \<Longrightarrow> \<exists>S. tables_ok E S s'" "cc_flags (cs_ctx s') = cc_flags (cs_ctx s)"
    "st \<noteq> 0 \<Longrightarrow> st = -1 \<and> cs_ctx s' = cs_ctx s"
    by blast+
qed

lemma same_tables_refl [simp]: "same_tables s s"
  by (auto simp: same_tables_def)

lemma tables_ok_same: "same_tables s s' \<Longrightarrow> tables_ok E S s \<Longrightarrow> tables_ok E S s'"
  by (rule tables_ok_cong) (simp_all add: same_tables_def)

lemma do_load_inv:
  assumes inv: "chromium_inv E s" and run: "do_load E s = Some (st, s')"
  shows "chromium_inv E s' \<and> (st = 0 \<or> st = -1) \<and> (st = 0 \<longrightarrow> (\<exists>S. tables_ok E S s')) \<and>
    cc_flags (cs_ctx s') = cc_flags (cs_ctx s)"
proof -
  let ?J = "ce_js E"
  obtain store j w where ld: "json_load_file_at (ce_os E) ?J (cc_dirfd (cs_ctx s)) (cc_name (cs_ctx s)) (cs_j s) (cs_w s) = (store, j, w)"
    by (metis prod_cases3)
  let ?s = "s\<lparr>cs_j := j, cs_w := w\<rparr>"
  have "same_tables s ?s" by (auto simp: same_tables_def)
  then have inv1: "chromium_inv E ?s" using inv by (rule same_tables_inv)
  let ?ck = "json_object_sget ?J j store ''checksum''" and ?roots = "json_object_sget ?J j store ''roots''"
  let ?bad = "store = NULL \<or> ?ck = NULL \<or> js_integer_value ?J j (json_object_sget ?J j store ''version'') \<noteq> 1 \<or> ?roots = NULL"
  show ?thesis
  proof (cases ?bad)
    case True
    then have "st = -1 \<and> s' = ?s" using run by (auto simp: do_load_def ld Let_def split: if_splits)
    then show ?thesis using inv1 by simp
  next
    case False
    let ?s2 = "?s\<lparr>cs_ctx := (cs_ctx ?s)\<lparr>cc_roots := ?roots\<rparr>\<rparr>"
    have "same_tables ?s ?s2" by (auto simp: same_tables_def)
    then have inv2: "chromium_inv E ?s2" using inv1 by (rule same_tables_inv)
    obtain r s3 where b: "build_maps E ?s2 = Some (r, s3)"
      using run False by (auto simp: do_load_def ld Let_def split: if_splits bind_splits)
    note B = build_maps_inv [OF inv2 b]
    show ?thesis
    proof (cases "r = 0")
      case False
      then have "st = -1 \<and> s' = s3" using run \<open>\<not> ?bad\<close> b by (simp add: do_load_def ld Let_def)
      then show ?thesis using B by simp
    next
      case True
      define ctx where "ctx = (cs_ctx s3)\<lparr>cc_store := store, cc_checksum := ?ck\<rparr>"
      define ctx' where "ctx' = (if \<not> has_flag (cc_flags ctx) BACKEND_READONLY then ctx\<lparr>cc_dirty := DIRTY_LEVEL_NONE\<rparr> else ctx)"
      have s': "st = 0" "s' = s3\<lparr>cs_ctx := ctx'\<rparr>"
        using run False b True by (auto simp: do_load_def ld Let_def ctx_def ctx'_def split: if_splits)
      obtain S where S: "tables_ok E S s3" using B(2) True by blast
      then have "cc_id_map (cs_ctx s3) \<noteq> None" by (auto simp: tables_ok_def)
      then have same: "same_tables s3 s'" by (simp add: same_tables_def s'(2) ctx'_def ctx_def)
      have "cc_flags (cs_ctx s') = cc_flags (cs_ctx s)" using B(3) by (simp add: s'(2) ctx'_def ctx_def)
      then show ?thesis using same_tables_inv [OF same B(1)] tables_ok_same [OF same S] s'(1) by blast
    qed
  qed
qed

lemma store_load_inv:
  assumes inv: "chromium_inv E s" and run: "store_load E s = Some (st, s')"
  shows "chromium_inv E s' \<and> st \<le> 0 \<and> (st = 0 \<longrightarrow> (\<exists>S. tables_ok E S s')) \<and> cc_flags (cs_ctx s') = cc_flags (cs_ctx s)"
proof -
  have have_tables: "\<exists>S. tables_ok E S s" if "cc_store (cs_ctx s) \<noteq> NULL \<or> cc_dirty (cs_ctx s) \<noteq> DIRTY_LEVEL_NONE"
    using inv that unfolding chromium_inv_def by blast
  have load: ?thesis if "same_tables s s1" "do_load E s1 = Some (st, s')" for s1
    using do_load_inv [OF same_tables_inv [OF that(1) inv] that(2)] that(1) by (auto simp: same_tables_def)
  show ?thesis
  proof (cases "cc_watcher (cs_ctx s) = NULL")
    case True
    obtain ok s1 where i: "init_watcher E s = (ok, s1)" by fastforce
    have st: "same_tables s s1" using i by (auto simp: init_watcher_def Let_def same_tables_def split: prod.splits)
    show ?thesis
    proof (cases ok)
      case True
      then show ?thesis using run \<open>cc_watcher (cs_ctx s) = NULL\<close> i load [OF st] by (simp add: store_load_def)
    next
      case False
      then have "st = - EIO \<and> s' = s1" using run \<open>cc_watcher (cs_ctx s) = NULL\<close> i by (simp add: store_load_def)
      then show ?thesis using same_tables_inv [OF st inv] st by (simp add: EIO_def same_tables_def)
    qed
  next
    case False
    obtain r w where r: "ce_watcher_poll E (cc_watcher (cs_ctx s)) (cs_w s) = (r, w)" by fastforce
    have sw: "same_tables s (s\<lparr>cs_w := w\<rparr>)" "same_tables s (s\<lparr>cs_w := w, cs_ctx := (cs_ctx s)\<lparr>cc_store := NULL\<rparr>\<rparr>)"
      by (auto simp: same_tables_def)
    note body = run [unfolded store_load_def, simplified Let_def False r, simplified]
    show ?thesis
    proof (cases "cc_dirty (cs_ctx s) > DIRTY_LEVEL_NONE")
      case True
      then have "st = 0 \<and> s' = s" using body by simp
      moreover have "cc_dirty (cs_ctx s) \<noteq> DIRTY_LEVEL_NONE" using True by auto
      ultimately show ?thesis using inv have_tables by simp
    next
      case clean: False
      consider "r = - EAGAIN" "cc_store (cs_ctx s) \<noteq> NULL" | "do_load E (s\<lparr>cs_w := w\<rparr>) = Some (st, s')"
        | "do_load E (s\<lparr>cs_w := w, cs_ctx := (cs_ctx s)\<lparr>cc_store := NULL\<rparr>\<rparr>) = Some (st, s')"
        | "(st = - ENXIO \<or> st = - EIO) \<and> s' = s\<lparr>cs_w := w\<rparr>"
        using body clean by (auto split: if_splits)
      then show ?thesis
      proof cases
        case 1
        then have "st = 0 \<and> s' = s\<lparr>cs_w := w\<rparr>" using body clean by simp
        then show ?thesis using same_tables_inv [OF sw(1) inv] have_tables 1(2) tables_ok_same [OF sw(1)] by auto
      next
        case 4
        then show ?thesis using same_tables_inv [OF sw(1) inv] by (auto simp: ENXIO_def EIO_def)
      qed (use load sw in blast)+
    qed
  qed
qed

end
