(* ===== verification/Chromium_Tree.thy ===== *)
theory Chromium_Tree
  imports Chromium_Walk
begin

text \<open>
  What \<open>iter_node\<close> does, without its stack: a depth-first walk over a tree of nodes in which the callback
  sees each folder before its children.
\<close>

section \<open>Trees of nodes\<close>

text \<open>A node, its array of children (\<open>NULL\<close> if it is no folder), and the subtrees.\<close>

datatype jtree = JTree (jt_node: jref) (jt_children: jref) (jt_subs: "jtree list")

fun tree_at :: "'j jansson \<Rightarrow> 'j \<Rightarrow> jtree \<Rightarrow> bool" where
  "tree_at J j (JTree node c ts) \<longleftrightarrow>
     node \<noteq> NULL \<and> json_object_sget J j node ''children'' = c \<and> (c = NULL \<longrightarrow> ts = []) \<and>
     (c \<noteq> NULL \<longrightarrow> (\<forall>i. js_array_get J j c i = (if i < length ts then jt_node (ts ! i) else NULL))) \<and>
     (\<forall>t \<in> set ts. tree_at J j t)"

fun tree_size :: "jtree \<Rightarrow> nat" where
  "tree_size (JTree node c ts) = 2 + sum_list (map tree_size ts)"

fun height :: "jtree \<Rightarrow> nat" where
  "height (JTree node c ts) = (if c = NULL then 0 else Suc (fold max (map height ts) 0))"

text \<open>The nodes with their arrays in the order of the walk, and the arrays among them.\<close>

fun tree_nodes :: "jtree \<Rightarrow> (jref \<times> jref) list" where
  "tree_nodes (JTree node c ts) = (node, c) # concat (map tree_nodes ts)"

lemma tree_at_node: "tree_at J j t \<Longrightarrow> jt_node t \<noteq> NULL"
  by (cases t) simp

section \<open>The walk\<close>

text \<open>\<open>n\<close> is the number of folders that may still be entered; \<open>pd\<close> the data of the parent.\<close>

fun walk :: "('d, 'p) node_iter_func \<Rightarrow> nat \<Rightarrow> 'p \<Rightarrow> jtree \<Rightarrow> 'd \<Rightarrow> (int \<times> 'd) option"
and walk_list :: "('d, 'p) node_iter_func \<Rightarrow> nat \<Rightarrow> 'p \<Rightarrow> jtree list \<Rightarrow> 'd \<Rightarrow> (int \<times> 'd) option" where
  "walk cb n pd (JTree node c ts) d = do {
     (status, d, pd') \<leftarrow> cb d node c pd;
     (if status \<noteq> 0 then Some (-1, d)
      else if c = NULL then Some (0, d)
      else (case n of 0 \<Rightarrow> Some (-1, d) | Suc m \<Rightarrow> walk_list cb m pd' ts d))
   }"
| "walk_list cb n pd [] d = Some (0, d)"
| "walk_list cb n pd (t # ts) d = do {
     (status, d) \<leftarrow> walk cb n pd t d;
     (if status \<noteq> 0 then Some (-1, d) else walk_list cb n pd ts d)
   }"

lemma walk_status:
  "walk cb n pd t d = Some (st, d') \<Longrightarrow> st = 0 \<or> st = -1"
  "walk_list cb n pd ts d = Some (st, d') \<Longrightarrow> st = 0 \<or> st = -1"
proof (induction cb n pd t d and cb n pd ts d arbitrary: st d' and st d' rule: walk_walk_list.induct)
  case (1 cb n pd node c ts d)
  then show ?case by (fastforce split: bind_splits if_splits nat.splits)
next
  case (3 cb n pd t ts d)
  then show ?case by (fastforce split: bind_splits if_splits)
qed simp_all

section \<open>The stack\<close>

text \<open>What is left to do for a stack: the pending trees of each folder on it, from the top.\<close>

fun run_stack :: "('d, 'p) node_iter_func \<Rightarrow> nat \<Rightarrow> ('p \<times> jtree list) list \<Rightarrow> 'd \<Rightarrow> (int \<times> 'd) option" where
  "run_stack cb depth [] d = Some (0, d)"
| "run_stack cb depth ((pd, ts) # rest) d = do {
     (status, d) \<leftarrow> walk_list cb (depth - Suc (length rest)) pd ts d;
     (if status \<noteq> 0 then Some (-1, d) else run_stack cb depth rest d)
   }"

definition frame_ok :: "('d \<Rightarrow> bool) \<Rightarrow> 'j jansson \<Rightarrow> ('d \<Rightarrow> 'j) \<Rightarrow> 'p node_iter \<Rightarrow> 'p \<times> jtree list \<Rightarrow> bool" where
  "frame_ok I J hp fr p \<longleftrightarrow> ni_parent fr = fst p \<and>
     (\<exists>ts. snd p = drop (ni_idx fr) ts \<and>
       (\<forall>d. I d \<longrightarrow> (\<forall>t \<in> set ts. tree_at J (hp d) t) \<and>
          (\<forall>i. js_array_get J (hp d) (ni_children fr) i = (if i < length ts then jt_node (ts ! i) else NULL))))"

definition pending :: "('p \<times> jtree list) list \<Rightarrow> nat" where
  "pending ps = sum_list (map (\<lambda>p. Suc (sum_list (map tree_size (snd p)))) ps)"

lemma frame_ok_next:
  assumes "frame_ok I J hp fr (pd, t # ts)" "I d"
  shows "js_array_get J (hp d) (ni_children fr) (ni_idx fr) = jt_node t" "jt_node t \<noteq> NULL"
    "frame_ok I J hp (fr\<lparr>ni_idx := Suc (ni_idx fr)\<rparr>) (pd, ts)" "\<And>d. I d \<Longrightarrow> tree_at J (hp d) t"
proof -
  obtain all where all: "t # ts = drop (ni_idx fr) all" "ni_parent fr = pd"
    "\<forall>d. I d \<longrightarrow> (\<forall>t \<in> set all. tree_at J (hp d) t) \<and>
       (\<forall>i. js_array_get J (hp d) (ni_children fr) i = (if i < length all then jt_node (all ! i) else NULL))"
    using assms(1) by (auto simp: frame_ok_def)
  have "ni_idx fr < length all"
  proof (rule ccontr)
    assume "\<not> ni_idx fr < length all"
    then show False using all(1) by simp
  qed
  moreover from this have "t # ts = all ! ni_idx fr # drop (Suc (ni_idx fr)) all"
    using all(1) Cons_nth_drop_Suc [of "ni_idx fr" all] by simp
  ultimately have i: "ni_idx fr < length all" "all ! ni_idx fr = t" "drop (Suc (ni_idx fr)) all = ts" by simp_all
  then show "js_array_get J (hp d) (ni_children fr) (ni_idx fr) = jt_node t" using all(3) assms(2) by simp
  show at: "tree_at J (hp d') t" if "I d'" for d' using all(3) i(1) nth_mem [OF i(1)] that by (simp add: i(2))
  show "jt_node t \<noteq> NULL" using tree_at_node [OF at [OF assms(2)]] .
  show "frame_ok I J hp (fr\<lparr>ni_idx := Suc (ni_idx fr)\<rparr>) (pd, ts)"
    using all i by (auto simp: frame_ok_def intro!: exI [of _ all])
qed

text \<open>The two places in the loop.\<close>

lemma iter_loop_head:
  "iter_loop J hp depth cb None (it # below) d =
    (let node = js_array_get J (hp d) (ni_children it) (ni_idx it); it = it\<lparr>ni_idx := Suc (ni_idx it)\<rparr>
     in if node = NULL then (if below = [] then Some (0, d) else iter_loop J hp depth cb None below d)
        else iter_loop J hp depth cb (Some node) (it # below) d)"
  by (subst iter_loop.simps) simp

lemma iter_loop_visit:
  "iter_loop J hp depth cb (Some node) (it # below) d =
    (let children = json_object_sget J (hp d) node ''children'' in do {
       (status, d, parent_data) \<leftarrow> cb d node children (ni_parent it);
       (if status \<noteq> 0 then Some (-1, d)
        else if children = NULL then iter_loop J hp depth cb None (it # below) d
        else if length (it # below) = depth then Some (-1, d)
        else iter_loop J hp depth cb None
               (\<lparr>ni_children = children, ni_idx = 0, ni_parent = parent_data\<rparr> # it # below) d)
     })"
  by (subst iter_loop.simps) simp

lemma iter_loop_run:
  assumes step: "\<And>d node c pd st d' pd'. I d \<Longrightarrow> cb d node c pd = Some (st, d', pd') \<Longrightarrow> I d'"
  shows "I d \<Longrightarrow> list_all2 (frame_ok I J hp) stk ps \<Longrightarrow> stk \<noteq> [] \<Longrightarrow> length stk \<le> depth \<Longrightarrow>
    iter_loop J hp depth cb None stk d = run_stack cb depth ps d"
proof (induction "pending ps" arbitrary: ps stk d rule: less_induct)
  case less
  obtain fr below pd ts rest where stk: "stk = fr # below" and ps: "ps = (pd, ts) # rest"
    using less.prems(2,3) by (cases stk; cases ps) auto
  have fr: "frame_ok I J hp fr (pd, ts)" and rest: "list_all2 (frame_ok I J hp) below rest"
    using less.prems(2) by (simp_all add: stk ps)
  have len: "length below = length rest" using rest by (rule list_all2_lengthD)
  show ?case
  proof (cases ts)
    case Nil
    then have null: "js_array_get J (hp d) (ni_children fr) (ni_idx fr) = NULL"
      using fr less.prems(1) by (auto simp: frame_ok_def)
    show ?thesis
    proof (cases "below = []")
      case True
      then have "rest = []" using len by simp
      then show ?thesis using null True Nil by (simp add: stk ps Let_def iter_loop_head)
    next
      case False
      have "iter_loop J hp depth cb None below d = run_stack cb depth rest d"
        using less.hyps [where ps = rest and stk = below and d = d] less.prems rest False Nil by (simp add: stk ps pending_def)
      then show ?thesis using null False Nil by (simp add: stk ps Let_def iter_loop_head)
    qed
  next
    case (Cons t ts')
    note nxt = frame_ok_next [OF fr [unfolded Cons] less.prems(1)]
    obtain node c us where t: "t = JTree node c us" by (cases t)
    have tree: "json_object_sget J (hp d) node ''children'' = c" "c = NULL \<longrightarrow> us = []"
      using nxt(4) [OF less.prems(1)] by (simp_all add: t)
    let ?fr = "fr\<lparr>ni_idx := Suc (ni_idx fr)\<rparr>"
    have pd: "ni_parent fr = pd" using fr by (simp add: frame_ok_def)
    have unfold: "iter_loop J hp depth cb None stk d = do {
        (status, d, pd') \<leftarrow> cb d node c pd;
        (if status \<noteq> 0 then Some (-1, d)
         else if c = NULL then iter_loop J hp depth cb None (?fr # below) d
         else if length (?fr # below) = depth then Some (-1, d)
         else iter_loop J hp depth cb None
            (\<lparr>ni_children = c, ni_idx = 0, ni_parent = pd'\<rparr> # ?fr # below) d)
      }"
      using nxt(1,2) tree(1) pd by (simp add: stk t Let_def iter_loop_head iter_loop_visit)
    show ?thesis
    proof (cases "cb d node c pd")
      case None
      then show ?thesis unfolding unfold by (simp add: ps Cons t)
    next
      case (Some r)
      obtain st d1 pd1 where r: "cb d node c pd = Some (st, d1, pd1)" using Some by (cases r) auto
      have I1: "I d1" using step [OF less.prems(1) r] .
      show ?thesis
      proof (cases "st \<noteq> 0 \<or> c \<noteq> NULL \<and> length stk = depth")
        case True
        then show ?thesis unfolding unfold using len by (auto simp: ps Cons t r stk)
      next
        case False
        show ?thesis
        proof (cases "c = NULL")
          case True
          have "pending ((pd, ts') # rest) < pending ps" by (simp add: pending_def ps Cons t)
          then have "iter_loop J hp depth cb None (?fr # below) d1 = run_stack cb depth ((pd, ts') # rest) d1"
            using less.hyps [where ps = "(pd, ts') # rest" and stk = "?fr # below" and d = d1] I1 nxt(3) rest less.prems(4) by (simp add: stk)
          then show ?thesis unfolding unfold using False by (simp add: ps Cons t True r [unfolded True])
        next
          case c: False
          let ?new = "\<lparr>ni_children = c, ni_idx = 0, ni_parent = pd1\<rparr>"
          have "frame_ok I J hp ?new (pd1, us)"
            using nxt(4) c by (auto simp: frame_ok_def t)
          moreover have "pending ((pd1, us) # (pd, ts') # rest) < pending ps" by (simp add: pending_def ps Cons t)
          ultimately have it: "iter_loop J hp depth cb None (?new # ?fr # below) d1 =
              run_stack cb depth ((pd1, us) # (pd, ts') # rest) d1"
            using less.hyps [where ps = "(pd1, us) # (pd, ts') # rest" and stk = "?new # ?fr # below" and d = d1]
              I1 nxt(3) rest less.prems(4) False c by (simp add: stk)
          obtain m where m: "depth - Suc (length rest) = Suc m"
            using False c less.prems(4) len by (cases "depth - Suc (length rest)") (auto simp: stk)
          then have m': "depth - Suc (Suc (length rest)) = m" by simp
          show ?thesis
            unfolding unfold using False c it m m'
            by (cases "walk_list cb m pd1 us d1") (auto simp: ps Cons t r stk dest: walk_status)
        qed
      qed
    qed
  qed
qed

text \<open>
  The walk with an explicit stack is the recursive walk: \<open>I\<close> holds of the states the callback leaves, and
  under it the tree is in the store.
\<close>

lemma iter_node_walk:
  assumes "\<And>d node c pd st d' pd'. I d \<Longrightarrow> cb d node c pd = Some (st, d', pd') \<Longrightarrow> I d'"
    "\<And>d. I d \<Longrightarrow> tree_at J (hp d) t" "\<And>j i. js_array_get J j NULL i = NULL" "I d" "0 < depth"
  shows "iter_node J hp depth cb (jt_node t) pd d = walk cb (depth - 1) pd t d"
proof -
  obtain node c us where t: "t = JTree node c us" by (cases t)
  have tree: "json_object_sget J (hp d) node ''children'' = c" "c = NULL \<longrightarrow> us = []" "node \<noteq> NULL"
    using assms(2) [OF assms(4)] by (simp_all add: t)
  let ?bot = "\<lparr>ni_children = NULL, ni_idx = 0, ni_parent = pd\<rparr>"
  have bot: "frame_ok I J hp ?bot (pd, [])" using assms(3) by (simp add: frame_ok_def)
  have unfold: "iter_node J hp depth cb (jt_node t) pd d = do {
      (status, d, pd') \<leftarrow> cb d node c pd;
      (if status \<noteq> 0 then Some (-1, d)
       else if c = NULL then iter_loop J hp depth cb None [?bot] d
       else if length [?bot] = depth then Some (-1, d)
       else iter_loop J hp depth cb None [\<lparr>ni_children = c, ni_idx = 0, ni_parent = pd'\<rparr>, ?bot] d)
    }"
    using tree(1) unfolding iter_node_def by (simp add: t Let_def iter_loop_visit)
  show ?thesis
  proof (cases "cb d node c pd")
    case None
    then show ?thesis unfolding unfold by (simp add: t)
  next
    case (Some r)
    obtain st d1 pd1 where r: "cb d node c pd = Some (st, d1, pd1)" using Some by (cases r) auto
    have I1: "I d1" using assms(1) [OF assms(4) r] .
    show ?thesis
    proof (cases "st \<noteq> 0 \<or> c = NULL \<or> depth = 1")
      case True
      have "iter_loop J hp depth cb None [?bot] d1 = run_stack cb depth [(pd, [])] d1"
        using iter_loop_run [where I = I and J = J and hp = hp and cb = cb and stk = "[?bot]" and ps = "[(pd, [])]",
          OF assms(1) I1] bot assms(5) by simp
      then show ?thesis unfolding unfold using True by (auto simp: t r)
    next
      case False
      let ?new = "\<lparr>ni_children = c, ni_idx = 0, ni_parent = pd1\<rparr>"
      have "frame_ok I J hp ?new (pd1, us)"
        using assms(2) False by (auto simp: frame_ok_def t)
      then have it: "iter_loop J hp depth cb None [?new, ?bot] d1 = run_stack cb depth [(pd1, us), (pd, [])] d1"
        using iter_loop_run [where I = I and J = J and hp = hp and cb = cb and stk = "[?new, ?bot]"
            and ps = "[(pd1, us), (pd, [])]" and depth = depth, OF assms(1) I1] bot assms(5) False
        by simp
      obtain m where m: "depth = Suc (Suc m)" using assms(5) False
        by (cases depth; cases "depth - 1") auto
      show ?thesis
        unfolding unfold using False it
        by (cases "walk_list cb m pd1 us d1") (auto simp: t r m dest: walk_status)
    qed
  qed
qed

end
