(* ===== verification/Chromium_Times.thy ===== *)
theory Chromium_Times
  imports Chromium_Maps Json_Props
begin

text \<open>
  Fields of nodes seen through the promises of the library, and the times of a bookmark: what
  \<open>bookmark_set\<close> writes as text is what \<open>bookmark_lookup\<close> reads.
\<close>

section \<open>Fields of a node\<close>

lemma janssonD:
  assumes "jansson_ok utf8 view J"
  shows sget_view: "json_object_sget J j r k = (case as_object (view j r) (str k) of Some v \<Rightarrow> v | None \<Rightarrow> NULL)"
    and string_view: "js_string_value J j r = as_string (view j r)"
    and array_size_view: "js_array_size J j r = length (as_array (view j r))"
    and array_get_view: "js_array_get J j r i =
      (if i < length (as_array (view j r)) then as_array (view j r) ! i else NULL)"
    and view_null: "view j NULL = None"
    and object_no_null: "view j r = Some (JObject m) \<Longrightarrow> m key = Some v \<Longrightarrow> v \<noteq> NULL"
    and array_no_null: "view j r = Some (JArray xs) \<Longrightarrow> NULL \<notin> set xs"
proof -
  note * = assms [unfolded jansson_ok_def jansson_reads_def]
  show "json_object_sget J j r k = (case as_object (view j r) (str k) of Some v \<Rightarrow> v | None \<Rightarrow> NULL)"
    "js_string_value J j r = as_string (view j r)" "js_array_size J j r = length (as_array (view j r))"
    "js_array_get J j r i = (if i < length (as_array (view j r)) then as_array (view j r) ! i else NULL)"
    "view j NULL = None" using * by (simp_all add: json_object_sget_def)
  show "v \<noteq> NULL" if "view j r = Some (JObject m)" "m key = Some v" using * that by metis
  show "NULL \<notin> set xs" if "view j r = Some (JArray xs)" using * that by metis
qed

lemma sset_view:
  "jansson_ok utf8 view J \<Longrightarrow> view j r = Some (JObject m) \<Longrightarrow> v \<noteq> NULL \<Longrightarrow>
    view (json_object_sset J r k v j) = (view j)(r \<mapsto> JObject (m(str k \<mapsto> v)))"
  by (simp add: jansson_ok_def jansson_writes_def json_object_sset_def)

lemma stringn_nocheck_view:
  assumes "jansson_ok utf8 view J" "js_stringn_nocheck J s j = (r, j')"
  shows "r \<noteq> NULL" "view j r = None" "view j' = (view j)(r \<mapsto> JString s)"
proof -
  have "allocates view (JString s) j (js_stringn_nocheck J s j)"
    using assms(1) by (simp add: jansson_ok_def jansson_news_def)
  then show "r \<noteq> NULL" "view j r = None" "view j' = (view j)(r \<mapsto> JString s)"
    by (simp_all add: allocates_def assms(2))
qed

section \<open>Times\<close>

text \<open>A time as the store keeps it: in microseconds.\<close>

definition to_microsecs :: "timespec \<Rightarrow> timespec" where
  "to_microsecs ts = ts\<lparr>tv_nsec := tv_nsec ts div 1000 * 1000\<rparr>"

definition valid_ts :: "timespec \<Rightarrow> bool" where
  "valid_ts ts \<longleftrightarrow> valid_ts_sec (tv_sec ts) \<and> 0 \<le> tv_nsec ts \<and> tv_nsec ts < 1000000000"

lemma micro:
  "0 \<le> b \<Longrightarrow> b < 1000000 \<Longrightarrow> (a * 1000000 + b) div 1000000 = a \<and> (a * 1000000 + b) mod 1000000 = b"
  for a b :: int
  by auto

definition ts_text :: "timespec \<Rightarrow> bytes" where
  "ts_text ts = dec (nat ((tv_sec ts + EPOCH_DIFF) * 1000000 + tv_nsec ts div 1000))"

lemma build_tsnode_text:
  assumes "valid_ts ts"
  shows "build_tsnode J ts j = Some (js_stringn_nocheck J (ts_text ts) j)"
    "parse_ts (ts_text ts) = Some (to_microsecs ts)"
proof -
  let ?us = "(tv_sec ts + EPOCH_DIFF) * 1000000 + tv_nsec ts div 1000"
  have ns: "0 \<le> tv_nsec ts div 1000" "tv_nsec ts div 1000 < 1000000"
    using assms zdiv_mono1 [of "tv_nsec ts" 999999999 1000]
    by (simp_all add: valid_ts_def pos_imp_zdiv_nonneg_iff)
  have llong: "LLONG_MAX = 9223372036854775807" "LLONG_MIN = - 9223372036854775808"
    by (simp_all add: LLONG_MAX_def LLONG_MIN_def)
  have sec: "0 \<le> tv_sec ts" "tv_sec ts \<le> 9211727563253"
    using assms by (simp_all add: valid_ts_def valid_ts_sec_def TIMESPEC_SEC_MAX_def)
  have us: "0 \<le> ?us" "?us < LLONG_MAX"
    using sec ns by (simp_all add: EPOCH_DIFF_def llong(1))
  then have lo: "\<not> ?us < LLONG_MIN" by (simp add: llong(2))
  have n: "nat ?us < 2 ^ 63" using us by (simp add: llong(1) nat_less_iff)
  have "length (dec (nat ?us)) \<le> 19"
    using length_dec [of "nat ?us" 18] n by simp
  then show "build_tsnode J ts j = Some (js_stringn_nocheck J (ts_text ts) j)"
    using us lo by (simp add: build_tsnode_def Let_def dec_int_def ts_text_def)
  show "parse_ts (ts_text ts) = Some (to_microsecs ts)"
  proof -
    have s: "strtoll (dec (nat ?us) @ [0]) = (?us, length (dec (nat ?us)))"
    proof -
      have "cstr (dec (nat ?us) @ [0]) = cstr (dec (nat ?us))"
        using dec_no_nul [of "nat ?us"] by (simp add: cstr_append_nul cstr_id)
      then show ?thesis using strtoll_dec [OF n] us by (simp add: strtoll_def)
    qed
    have "?us div 1000000 = tv_sec ts + EPOCH_DIFF" "?us mod 1000000 = tv_nsec ts div 1000"
      using micro [OF ns] by blast+
    then show ?thesis using s us assms
      by (simp add: parse_ts_def ts_text_def to_microsecs_def valid_ts_def valid_ts_sec_def)
  qed
qed

text \<open>Setting a field to a new string.\<close>

lemma sset_string:
  assumes J: "jansson_ok utf8 view J" and node: "view j node = Some (JObject m)"
    and v: "js_stringn_nocheck J txt j = (v, j')"
  shows "view (json_object_sset J node k v j') = (view j)(v \<mapsto> JString txt, node \<mapsto> JObject (m(str k \<mapsto> v)))"
    "v \<noteq> NULL" "v \<noteq> node"
proof -
  note s = stringn_nocheck_view [OF J v]
  show ne: "v \<noteq> NULL" "v \<noteq> node" using s node by auto
  have "view j' node = Some (JObject m)" using s(3) ne(2) node by simp
  from sset_view [OF J this ne(1)] show
    "view (json_object_sset J node k v j') = (view j)(v \<mapsto> JString txt, node \<mapsto> JObject (m(str k \<mapsto> v)))"
    unfolding s(3) .
qed



end
