(* ===== verification/Chromium_Chksum.thy ===== *)
theory Chromium_Chksum
  imports Chromium_Tree Chromium_Times
begin

text \<open>
  The check sum of the store: \<open>chksum_root\<close>, with its explicit stack and its MD5 context, is the MD5 digest
  of a text that is read off the trees of the roots node by node.
\<close>

section \<open>The text\<close>

text \<open>What a node adds; \<open>conv\<close> is the conversion of \<open>iconv\<close> from UTF-8 to UTF-16LE.\<close>

definition node_text :: "'j jansson \<Rightarrow> 'j \<Rightarrow> (bytes \<Rightarrow> bytes option) \<Rightarrow> jref \<times> jref \<Rightarrow> bytes option" where
  "node_text J j conv p =
     (let field = (\<lambda>k. js_string_value J j (json_object_sget J j (fst p) k)) in do {
        i \<leftarrow> field ''id'';
        name \<leftarrow> field ''name'';
        u \<leftarrow> conv name;
        (if snd p \<noteq> NULL then Some (i @ u @ str ''folder'')
         else do { url \<leftarrow> field ''url''; Some (i @ u @ str ''url'' @ url) })
      })"

definition tree_text :: "'j jansson \<Rightarrow> 'j \<Rightarrow> (bytes \<Rightarrow> bytes option) \<Rightarrow> jtree \<Rightarrow> bytes" where
  "tree_text J j conv t = concat (map (the \<circ> node_text J j conv) (tree_nodes t))"

definition texts_ok :: "'j jansson \<Rightarrow> 'j \<Rightarrow> (bytes \<Rightarrow> bytes option) \<Rightarrow> jtree \<Rightarrow> bool" where
  "texts_ok J j conv t \<longleftrightarrow> (\<forall>p \<in> set (tree_nodes t). node_text J j conv p \<noteq> None)"

section \<open>The walk\<close>

text \<open>A context that has been fed \<open>msg\<close>.\<close>

definition chksum_at :: "'j \<Rightarrow> int \<Rightarrow> bytes \<Rightarrow> ('j, 'w) chksum_ctx \<Rightarrow> bool" where
  "chksum_at j cd msg d \<longleftrightarrow> kx_j d = j \<and> kx_cd d = cd \<and> md5_fed (kx_mdctx d) msg"

definition converts :: "('j, 'w) chromium_env \<Rightarrow> int \<Rightarrow> (bytes \<Rightarrow> bytes option) \<Rightarrow> bool" where
  "converts E cd conv \<longleftrightarrow> (\<forall>s w. fst (ce_iconv E cd s w) = conv s)"

lemma chksum_iter_cb_json: "chksum_iter_cb E d node c pd = Some (st, d', pd') \<Longrightarrow> kx_j d' = kx_j d"
  by (auto simp: chksum_iter_cb_def chksum_utf16_def Let_def split: bind_splits prod.splits option.splits if_splits)

lemma chksum_iter_cb_text:
  assumes ctx: "chksum_at j cd msg d" and conv: "converts E cd conv"
    and nt: "node_text (ce_js E) j conv (node, c) = Some t"
  shows "\<exists>d'. chksum_iter_cb E d node c pd = Some (0, d', ()) \<and> chksum_at j cd (msg @ t) d'"
proof -
  obtain i name u where f: "js_string_value (ce_js E) j (json_object_sget (ce_js E) j node ''id'') = Some i"
      "js_string_value (ce_js E) j (json_object_sget (ce_js E) j node ''name'') = Some name" "conv name = Some u"
    using nt by (auto simp: node_text_def Let_def split: bind_splits)
  obtain w where w: "ce_iconv E cd name (kx_w d) = (Some u, w)"
    using conv f(3) by (metis converts_def prod.collapse)
  have d: "kx_j d = j" "kx_cd d = cd" "md5_fed (kx_mdctx d) msg" using ctx by (simp_all add: chksum_at_def)
  note fed = md5_update_fed [OF md5_update_fed [OF d(3)]]
  show ?thesis
  proof (cases "c = NULL")
    case False
    then have "t = i @ u @ str ''folder''" using nt f by (simp add: node_text_def Let_def)
    then show ?thesis using False f d w md5_update_fed [OF fed, of i u "str ''folder''"]
      by (simp add: chksum_iter_cb_def chksum_utf16_def Let_def chksum_at_def)
  next
    case True
    then obtain url where url: "js_string_value (ce_js E) j (json_object_sget (ce_js E) j node ''url'') = Some url"
        "t = i @ u @ str ''url'' @ url"
      using nt f by (auto simp: node_text_def Let_def split: bind_splits)
    then show ?thesis using True f d w md5_update_fed [OF md5_update_fed [OF fed], of i u "str ''url''" url]
      by (simp add: chksum_iter_cb_def chksum_utf16_def Let_def chksum_at_def)
  qed
qed

lemma fold_max_le: "fold max xs a \<le> m \<longleftrightarrow> a \<le> m \<and> (\<forall>x \<in> set xs. x \<le> m)" for a m :: nat
  by (induction xs arbitrary: a) auto

lemma chksum_walk:
  assumes conv: "converts E cd conv"
  shows "chksum_at j cd msg d \<Longrightarrow> tree_at (ce_js E) j t \<Longrightarrow> texts_ok (ce_js E) j conv t \<Longrightarrow>
      \<exists>st d'. walk (chksum_iter_cb E) n pd t d = Some (st, d') \<and>
        (if height t \<le> n then st = 0 \<and> chksum_at j cd (msg @ tree_text (ce_js E) j conv t) d' else st = -1)"
    and "chksum_at j cd msg d \<Longrightarrow> \<forall>t \<in> set ts. tree_at (ce_js E) j t \<and> texts_ok (ce_js E) j conv t \<Longrightarrow>
      \<exists>st d'. walk_list (chksum_iter_cb E) n pd ts d = Some (st, d') \<and>
        (if \<forall>t \<in> set ts. height t \<le> n
         then st = 0 \<and> chksum_at j cd (msg @ concat (map (tree_text (ce_js E) j conv) ts)) d' else st = -1)"
proof (induction "chksum_iter_cb E" n pd t d and "chksum_iter_cb E" n pd ts d arbitrary: msg and msg
    rule: walk_walk_list.induct)
  case (1 n pd node c ts d)
  have "node_text (ce_js E) j conv (node, c) \<noteq> None" using "1.prems"(3) by (simp add: texts_ok_def)
  then obtain t where t: "node_text (ce_js E) j conv (node, c) = Some t" by blast
  then obtain d1 where d1: "chksum_iter_cb E d node c pd = Some (0, d1, ())" "chksum_at j cd (msg @ t) d1"
    using chksum_iter_cb_text [OF "1.prems"(1) conv] by blast
  have tt: "tree_text (ce_js E) j conv (JTree node c ts) = t @ concat (map (tree_text (ce_js E) j conv) ts)"
  proof -
    have "concat (map (the \<circ> node_text (ce_js E) j conv) (concat (map tree_nodes ts))) =
        concat (map (tree_text (ce_js E) j conv) ts)"
      by (induction ts) (simp_all add: tree_text_def o_def)
    then show ?thesis by (simp add: tree_text_def t)
  qed
  have h: "(fold max (map height ts) 0 \<le> m) = (\<forall>t \<in> set ts. height t \<le> m)" for m
    using fold_max_le [of "map height ts" 0 m] by simp
  show ?case
  proof (cases "c = NULL")
    case True
    then have "ts = []" using "1.prems"(2) by simp
    then show ?thesis using True d1 tt by simp
  next
    case False
    show ?thesis
    proof (cases n)
      case 0
      then show ?thesis using False d1 by simp
    next
      case (Suc m)
      have "\<forall>t \<in> set ts. tree_at (ce_js E) j t \<and> texts_ok (ce_js E) j conv t"
        using "1.prems"(2,3) by (auto simp: texts_ok_def)
      then obtain st d' where l: "walk_list (chksum_iter_cb E) m () ts d1 = Some (st, d')"
        "if \<forall>t \<in> set ts. height t \<le> m
         then st = 0 \<and> chksum_at j cd ((msg @ t) @ concat (map (tree_text (ce_js E) j conv) ts)) d' else st = -1"
        using 1(1) [OF d1(1) refl refl _ False Suc d1(2)] by auto
      have "height (JTree node c ts) \<le> n \<longleftrightarrow> (\<forall>t \<in> set ts. height t \<le> m)" using False Suc h by simp
      moreover have "walk (chksum_iter_cb E) n pd (JTree node c ts) d = Some (if st \<noteq> 0 then -1 else 0, d')"
        using d1(1) l False Suc by (auto split: if_splits)
      ultimately show ?thesis using l(2) tt by (cases "\<forall>t \<in> set ts. height t \<le> m") simp_all
    qed
  qed
next
  case (3 n pd t ts d)
  obtain r1 d1 where w: "walk (chksum_iter_cb E) n pd t d = Some (r1, d1)"
      "if height t \<le> n then r1 = 0 \<and> chksum_at j cd (msg @ tree_text (ce_js E) j conv t) d1 else r1 = -1"
    using 3(1) [OF "3.prems"(1)] "3.prems"(2) by auto
  show ?case
  proof (cases "height t \<le> n")
    case False
    then show ?thesis using w by simp
  next
    case True
    then have ok: "chksum_at j cd (msg @ tree_text (ce_js E) j conv t) d1" "r1 = 0" using w by simp_all
    then obtain st d' where l: "walk_list (chksum_iter_cb E) n pd ts d1 = Some (st, d')"
      "if \<forall>t \<in> set ts. height t \<le> n
       then st = 0 \<and> chksum_at j cd ((msg @ tree_text (ce_js E) j conv t) @ concat (map (tree_text (ce_js E) j conv) ts)) d'
       else st = -1"
      using 3(2) [OF w(1) refl _ ok(1)] "3.prems"(2) by auto
    then show ?thesis using True w(1) ok(2) by (cases "\<forall>t \<in> set ts. height t \<le> n") simp_all
  qed
qed simp

section \<open>The check sum\<close>

lemma chksum_iter_values:
  assumes J: "jansson_ok utf8 view (ce_js E)" and conv: "converts E cd conv"
  shows "chksum_at j cd msg d \<Longrightarrow> \<forall>t \<in> set ts. tree_at (ce_js E) j t \<and> texts_ok (ce_js E) j conv t \<Longrightarrow>
    \<exists>st d'. iter_values (ce_js E) kx_j (chksum_iter_cb E) () (map jt_node ts) r0 d = Some (st, d') \<and>
      (if \<forall>t \<in> set ts. height t < MAX_NODE_ITER_DEPTH
       then st = (if ts = [] then r0 else 0) \<and>
         chksum_at j cd (msg @ concat (map (tree_text (ce_js E) j conv) ts)) d'
       else st = -1)"
proof (induction ts arbitrary: msg d r0)
  case (Cons t ts)
  have dj: "kx_j d = j" using Cons.prems(1) by (simp add: chksum_at_def)
  have null: "js_array_get (ce_js E) j NULL i = NULL" for j i
    by (simp add: array_get_view [OF J] view_null [OF J])
  have pos: "0 < MAX_NODE_ITER_DEPTH" by (simp add: MAX_NODE_ITER_DEPTH_def)
  have "iter_node (ce_js E) kx_j MAX_NODE_ITER_DEPTH (chksum_iter_cb E) (jt_node t) () d =
      walk (chksum_iter_cb E) (MAX_NODE_ITER_DEPTH - 1) () t d"
    using Cons.prems(2) by (intro iter_node_walk [where I = "\<lambda>d. kx_j d = j"])
      (auto simp: null pos dj dest: chksum_iter_cb_json)
  moreover obtain r1 d1 where w: "walk (chksum_iter_cb E) (MAX_NODE_ITER_DEPTH - 1) () t d = Some (r1, d1)"
      "if height t \<le> MAX_NODE_ITER_DEPTH - 1
       then r1 = 0 \<and> chksum_at j cd (msg @ tree_text (ce_js E) j conv t) d1 else r1 = -1"
    using chksum_walk(1) [OF conv Cons.prems(1)] Cons.prems(2) by (metis list.set_intros(1))
  moreover have "height t \<le> MAX_NODE_ITER_DEPTH - 1 \<longleftrightarrow> height t < MAX_NODE_ITER_DEPTH" using pos by auto
  ultimately have n: "iter_node (ce_js E) kx_j MAX_NODE_ITER_DEPTH (chksum_iter_cb E) (jt_node t) () d = Some (r1, d1)"
      "if height t < MAX_NODE_ITER_DEPTH
       then r1 = 0 \<and> chksum_at j cd (msg @ tree_text (ce_js E) j conv t) d1 else r1 = -1" by simp_all
  show ?case
  proof (cases "height t < MAX_NODE_ITER_DEPTH")
    case False
    then show ?thesis using n by simp
  next
    case True
    then have "r1 = 0" "chksum_at j cd (msg @ tree_text (ce_js E) j conv t) d1" using n(2) by simp_all
    with Cons.IH [OF this(2), of 0] Cons.prems(2) obtain st d' where
      "iter_values (ce_js E) kx_j (chksum_iter_cb E) () (map jt_node ts) 0 d1 = Some (st, d')"
      "if \<forall>t \<in> set ts. height t < MAX_NODE_ITER_DEPTH
       then st = (if ts = [] then 0 else 0) \<and>
         chksum_at j cd ((msg @ tree_text (ce_js E) j conv t) @ concat (map (tree_text (ce_js E) j conv) ts)) d'
       else st = -1" by auto
    then show ?thesis using n(1) True \<open>r1 = 0\<close> by (auto split: if_splits)
  qed
qed simp

lemma chksum_root_text:
  assumes "jansson_ok utf8 view (ce_js E)" "converts E (cc_cd (cs_ctx s)) conv" "cc_cd (cs_ctx s) \<noteq> -1"
    "js_object_values (ce_js E) (cs_j s) (cc_roots (cs_ctx s)) = map jt_node ts" "ts \<noteq> []"
    "\<forall>t \<in> set ts. tree_at (ce_js E) (cs_j s) t \<and> texts_ok (ce_js E) (cs_j s) conv t"
    "MD5_BLOCK_SIZE \<le> length (ce_junk E)"
  shows "\<exists>w. chksum_root E s = Some
    (if \<forall>t \<in> set ts. height t < MAX_NODE_ITER_DEPTH
     then Some (base16_encode (md5_spec (concat (map (tree_text (ce_js E) (cs_j s) conv) ts)))) else None,
     s\<lparr>cs_w := w\<rparr>)"
proof -
  let ?md = "md5_init \<lparr>md5_st = (0, 0, 0, 0), md5_len = 0, md5_off = 0, md5_buf = take MD5_BLOCK_SIZE (ce_junk E)\<rparr>"
  let ?kx = "\<lparr>kx_mdctx = ?md, kx_cd = cc_cd (cs_ctx s), kx_j = cs_j s, kx_w = cs_w s\<rparr>"
  have "md5_fed ?md []" using assms(7) by (intro md5_fed_init) (simp add: MD5_BLOCK_SIZE_def)
  then have "chksum_at (cs_j s) (cc_cd (cs_ctx s)) [] ?kx" by (simp add: chksum_at_def)
  from chksum_iter_values [OF assms(1,2) this assms(6), of "-1"] obtain st kx where
    "iter_values (ce_js E) kx_j (chksum_iter_cb E) () (map jt_node ts) (-1) ?kx = Some (st, kx)"
    "if \<forall>t \<in> set ts. height t < MAX_NODE_ITER_DEPTH
     then st = (if ts = [] then -1 else 0) \<and>
       chksum_at (cs_j s) (cc_cd (cs_ctx s)) ([] @ concat (map (tree_text (ce_js E) (cs_j s) conv) ts)) kx
     else st = -1" by blast
  then have it: "iter_roots (ce_js E) kx_j (cc_roots (cs_ctx s)) (chksum_iter_cb E) () ?kx = Some (st, kx)"
      "if \<forall>t \<in> set ts. height t < MAX_NODE_ITER_DEPTH
       then st = 0 \<and> chksum_at (cs_j s) (cc_cd (cs_ctx s)) (concat (map (tree_text (ce_js E) (cs_j s) conv) ts)) kx
       else st = -1"
    using assms(4,5) by (auto simp: iter_roots_def split: if_splits)
  have "s\<lparr>cs_w := w, cs_ctx := (cs_ctx s)\<lparr>cc_cd := cc_cd (cs_ctx s)\<rparr>\<rparr> = s\<lparr>cs_w := w\<rparr>" for w by simp
  then show ?thesis
    using it assms(3) by (auto simp: chksum_root_def Let_def chksum_at_def md5_digest_fed intro!: exI [of _ "kx_w kx"])
qed

text \<open>
  C10: \<open>chksum_root\<close> returns the hexadecimal MD5 digest of the text that is read off the roots node by node,
  each folder before its children: the id, the name in UTF-16, and the word \<open>folder\<close> or the word \<open>url\<close> and
  the URL.  The explicit stack, the pieces that the MD5 context is fed, and its 64-byte buffer leave no
  trace.  It fails exactly when folders are nested 128 deep.
\<close>

theorem chromium_chksum:
  assumes "jansson_ok utf8 view (ce_js E)" "converts E (cc_cd (cs_ctx s)) conv" "cc_cd (cs_ctx s) \<noteq> -1"
    "js_object_values (ce_js E) (cs_j s) (cc_roots (cs_ctx s)) = map jt_node ts" "ts \<noteq> []"
    "\<forall>t \<in> set ts. tree_at (ce_js E) (cs_j s) t \<and> texts_ok (ce_js E) (cs_j s) conv t"
    "MD5_BLOCK_SIZE \<le> length (ce_junk E)"
  shows "\<exists>w. chksum_root E s = Some
    (if \<forall>t \<in> set ts. height t < MAX_NODE_ITER_DEPTH
     then Some (base16_encode (md5_spec (concat (map (tree_text (ce_js E) (cs_j s) conv) ts)))) else None,
     s\<lparr>cs_w := w\<rparr>)"
  using assms by (rule chksum_root_text)

end
