(* ===== verification/Chromium_New_Sum.thy ===== *)
theory Chromium_New_Sum
  imports Codec Md5
begin

text \<open>The check sum that \<open>store_new\<close> writes, computed: the digest of the text of the three empty roots.\<close>

definition utf16le :: "bytes \<Rightarrow> bytes" where
  "utf16le s = concat (map (\<lambda>b. [b, 0]) s)"

lemma new_store_digest:
  "base16_encode (md5_spec (str ''1'' @ utf16le (str ''Bookmarks bar'') @ str ''folder'' @
     str ''2'' @ utf16le (str ''Other bookmarks'') @ str ''folder'' @
     str ''3'' @ utf16le (str ''Mobile bookmarks'') @ str ''folder'')) = str ''1e54fbb25d92a354f7aeaf576726429e''"
  by code_simp

end
