(* ===== verification/Chromium_New.thy ===== *)
theory Chromium_New
  imports Chromium_Chksum Chromium_New_Sum
begin

text \<open>
  The store that \<open>backend_mkfs\<close> writes: its members, and that the check sum in it is the one that
  \<open>chksum_root\<close> computes.
\<close>

section \<open>Allocation\<close>

text \<open>The values of \<open>j\<close> are those of \<open>j'\<close> as well, except for the ones in \<open>R\<close>.\<close>

definition keeps :: "'j jview \<Rightarrow> jref set \<Rightarrow> 'j \<Rightarrow> 'j \<Rightarrow> bool" where
  "keeps view R j j' \<longleftrightarrow> (\<forall>r v. r \<notin> R \<longrightarrow> view j r = Some v \<longrightarrow> view j' r = Some v)"

lemma keepsD: "keeps view R j j' \<Longrightarrow> view j r = Some v \<Longrightarrow> r \<notin> R \<Longrightarrow> view j' r = Some v"
  by (simp add: keeps_def)

lemma keeps_refl [simp]: "keeps view R j j"
  by (simp add: keeps_def)

lemma keeps_trans: "keeps view R j j' \<Longrightarrow> keeps view R j' j'' \<Longrightarrow> keeps view R j j''"
  by (simp add: keeps_def)

lemma alloc_keeps:
  "allocates view v j (r, j') \<Longrightarrow> r \<noteq> NULL \<and> view j r = None \<and> view j' r = Some v \<and> keeps view {} j j'"
  by (auto simp: allocates_def keeps_def)

lemma sset_keeps:
  assumes "jansson_ok utf8 view J" "view j r = Some (JObject m)" "v \<noteq> NULL"
  shows "view (json_object_sset J r k v j) r = Some (JObject (m(str k \<mapsto> v)))"
    "keeps view {r} j (json_object_sset J r k v j)"
  by (simp_all add: sset_view [OF assms] keeps_def)

text \<open>A new string in a new member of the object.\<close>

lemma sstring_member:
  assumes J: "jansson_ok utf8 view J" and node: "view j node = Some (JObject m)"
    and v: "json_sstring J s j = (v, j1)"
  shows "view (json_object_sset J node k v j1) node = Some (JObject (m(str k \<mapsto> v)))"
    "view (json_object_sset J node k v j1) v = Some (JString (str s))"
    "view j v = None" "v \<noteq> node" "keeps view {node} j (json_object_sset J node k v j1)"
proof -
  note sv = stringn_nocheck_view [OF J v [unfolded json_sstring_def]]
  show ne: "v \<noteq> node" and "view j v = None" using sv(2) node by auto
  have n1: "view j1 node = Some (JObject m)" using sv(3) ne node by simp
  note w = sset_view [OF J n1 sv(1), of k]
  show "view (json_object_sset J node k v j1) node = Some (JObject (m(str k \<mapsto> v)))"
    "view (json_object_sset J node k v j1) v = Some (JString (str s))" using sv(3) ne by (simp_all add: w)
  show "keeps view {node} j (json_object_sset J node k v j1)"
    using sv(2,3) by (auto simp: keeps_def w)
qed

section \<open>One root\<close>

text \<open>A folder with the id and the name, and the shared array of children, has been added under \<open>key\<close>.\<close>

definition empty_root :: "'j jview \<Rightarrow> jref \<Rightarrow> string \<Rightarrow> string \<Rightarrow> jref \<Rightarrow> jref \<Rightarrow> 'j \<Rightarrow> bool" where
  "empty_root view roots rid name children root j \<longleftrightarrow>
     (\<exists>f vi vn. root \<noteq> NULL \<and> root \<noteq> roots \<and> vi \<noteq> roots \<and> vn \<noteq> roots \<and>
        view j root = Some (JObject f) \<and> f (str ''id'') = Some vi \<and> f (str ''name'') = Some vn \<and>
        f (str ''children'') = Some children \<and>
        view j vi = Some (JString (str rid)) \<and> view j vn = Some (JString (str name)))"

lemma empty_root_keeps:
  "empty_root view roots rid name children root j \<Longrightarrow> keeps view R j j' \<Longrightarrow> R \<subseteq> {roots} \<Longrightarrow>
    empty_root view roots rid name children root j'"
  unfolding empty_root_def keeps_def by blast

definition root_added :: "'j jview \<Rightarrow> jref \<Rightarrow> (bytes \<Rightarrow> jref option) \<Rightarrow> string \<Rightarrow> string \<Rightarrow> string \<Rightarrow> jref \<Rightarrow> 'j \<Rightarrow> 'j \<Rightarrow> bool" where
  "root_added view roots m key rid name children j j' \<longleftrightarrow>
     keeps view {roots} j j' \<and>
     (\<exists>root. view j' roots = Some (JObject (m(str key \<mapsto> root))) \<and>
        empty_root view roots rid name children root j')"

lemma INIT_ROOT_NODE_added:
  assumes J: "jansson_ok utf8 view J" and roots: "view j roots = Some (JObject m)"
    and ne: "children \<noteq> NULL" "date_added \<noteq> NULL" "zero_str \<noteq> NULL" "type \<noteq> NULL"
  shows "root_added view roots m key rid name children j
    (INIT_ROOT_NODE J (children, date_added, zero_str, type) roots key rid name guid j)"
proof -
  obtain root j1 where j1: "js_new_object J j = (root, j1)" by fastforce
  have "allocates view (JObject Map.empty) j (root, j1)"
    using J j1 by (metis jansson_ok_def jansson_news_def)
  note r = alloc_keeps [OF this]
  obtain vi j2 where j2: "json_sstring J rid j1 = (vi, j2)" by fastforce
  define a where "a = json_object_sset J root ''id'' vi j2"
  have "view j1 root = Some (JObject Map.empty)" using r by simp
  note A = sstring_member(1,2,5) [OF J this j2, of "''id''", folded a_def] sstring_member(3,4) [OF J this j2]
  obtain vg j3 where j3: "json_sstring J guid a = (vg, j3)" by fastforce
  define b where "b = json_object_sset J root ''guid'' vg j3"
  note B = sstring_member(1,2,5) [OF J A(1) j3, of "''guid''", folded b_def] sstring_member(3,4) [OF J A(1) j3]
  obtain vn j4 where j4: "json_sstring J name b = (vn, j4)" by fastforce
  define c where "c = json_object_sset J root ''name'' vn j4"
  note C = sstring_member(1,2,5) [OF J B(1) j4, of "''name''", folded c_def] sstring_member(3,4) [OF J B(1) j4]
  define d where "d = json_object_sset J root ''children'' children c"
  note D = sset_keeps [OF J C(1) ne(1), of "''children''", folded d_def]
  define e where "e = json_object_sset J root ''date_added'' date_added d"
  note E = sset_keeps [OF J D(1) ne(2), of "''date_added''", folded e_def]
  define f where "f = json_object_sset J root ''date_last_used'' zero_str e"
  note F = sset_keeps [OF J E(1) ne(3), of "''date_last_used''", folded f_def]
  define g where "g = json_object_sset J root ''date_modified'' zero_str f"
  note G = sset_keeps [OF J F(1) ne(3), of "''date_modified''", folded g_def]
  define h where "h = json_object_sset J root ''type'' type g"
  note H = sset_keeps [OF J G(1) ne(4), of "''type''", folded h_def]
  have run: "INIT_ROOT_NODE J (children, date_added, zero_str, type) roots key rid name guid j =
      json_object_sset J roots key root h"
    by (simp add: INIT_ROOT_NODE_def j1 j2 j3 j4 flip: a_def b_def c_def d_def e_def f_def g_def h_def)
  have tail: "keeps view {root} c h" using keeps_trans D(2) E(2) F(2) G(2) H(2) by metis
  then have mid: "keeps view {root} a h" using keeps_trans B(3) C(3) by metis
  then have all: "keeps view {root} j1 h" using keeps_trans A(3) by metis
  have rr: "root \<noteq> roots" using r roots by auto
  have old: "view h q = Some v" if "view j q = Some v" for q v
  proof -
    have "q \<noteq> root" "view j1 q = Some v" using r that by (auto simp: keeps_def)
    then show ?thesis using keepsD [OF all] by simp
  qed
  have vs: "view h vi = Some (JString (str rid))" "view h vn = Some (JString (str name))"
    using keepsD [OF mid A(2)] keepsD [OF tail C(2)] A(5) C(5) by simp_all
  have fresh: "vi \<noteq> roots" "vn \<noteq> roots" using vs old [OF roots] by auto
  note S = sset_keeps [OF J old [OF roots], of root key]
  note last = S(1) [OF conjunct1 [OF r]] keepsD [OF S(2) [OF conjunct1 [OF r]]]
  have "keeps view {roots} j (json_object_sset J roots key root h)"
    unfolding keeps_def using old last(2) by blast
  moreover obtain F where F: "view h root = Some (JObject F)" "F (str ''id'') = Some vi" "F (str ''name'') = Some vn"
      "F (str ''children'') = Some children"
    using that [OF H(1)] by (simp add: str_def)
  moreover have "view (json_object_sset J roots key root h) root = Some (JObject F)"
    "view (json_object_sset J roots key root h) vi = Some (JString (str rid))"
    "view (json_object_sset J roots key root h) vn = Some (JString (str name))"
    using last(2) [OF F(1)] last(2) [OF vs(1)] last(2) [OF vs(2)] rr fresh by simp_all
  ultimately show ?thesis
    unfolding run root_added_def empty_root_def using last(1) conjunct1 [OF r] rr fresh by blast
qed

section \<open>The whole store\<close>

definition new_store :: "'j jview \<Rightarrow> jref \<Rightarrow> 'j \<Rightarrow> bool" where
  "new_store view store j \<longleftrightarrow>
     (\<exists>f m vc roots vv bar other synced children.
        view j store = Some (JObject f) \<and> f (str ''checksum'') = Some vc \<and> f (str ''roots'') = Some roots \<and>
        f (str ''version'') = Some vv \<and> view j vv = Some (JInteger 1) \<and>
        view j vc = Some (JString (str ''1e54fbb25d92a354f7aeaf576726429e'')) \<and>
        view j roots = Some (JObject m) \<and>
        m = [str ''bookmark_bar'' \<mapsto> bar, str ''other'' \<mapsto> other, str ''synced'' \<mapsto> synced] \<and>
        children \<noteq> NULL \<and> view j children = Some (JArray []) \<and>
        empty_root view roots ''1'' ''Bookmarks bar'' children bar j \<and>
        empty_root view roots ''2'' ''Other bookmarks'' children other j \<and>
        empty_root view roots ''3'' ''Mobile bookmarks'' children synced j)"

lemma store_new_ok:
  assumes J: "jansson_ok utf8 view J" and ts: "valid_ts btime"
  shows "\<exists>store j'. store_new J btime j = Some (store, j') \<and> new_store view store j'"
proof -
  have news: "\<And>j. allocates view (JObject Map.empty) j (js_new_object J j)"
    "\<And>j. allocates view (JArray []) j (js_new_array J j)"
    "\<And>j i. allocates view (JInteger i) j (js_new_integer J i j)"
    "\<And>j s. allocates view (JString s) j (js_stringn_nocheck J s j)"
    using J unfolding jansson_ok_def jansson_news_def by blast+
  obtain da j1 where d: "js_stringn_nocheck J (ts_text btime) j = (da, j1)" by fastforce
  note D = alloc_keeps [OF news(4) [of "ts_text btime" j, unfolded d]]
  obtain children j2 where c: "js_new_array J j1 = (children, j2)" by fastforce
  note C = alloc_keeps [OF news(2) [of j1, unfolded c]]
  obtain type j3 where t: "json_sstring J ''folder'' j2 = (type, j3)" by fastforce
  note T = alloc_keeps [OF news(4) [of "str ''folder''" j2, folded json_sstring_def, unfolded t]]
  obtain zero j4 where z: "json_sstring J ''0'' j3 = (zero, j4)" by fastforce
  note Z = alloc_keeps [OF news(4) [of "str ''0''" j3, folded json_sstring_def, unfolded z]]
  obtain roots j5 where r: "js_new_object J j4 = (roots, j5)" by fastforce
  note R = alloc_keeps [OF news(1) [of j4, unfolded r]]
  let ?sh = "(children, da, zero, type)"
  have init: "root_added view roots m key rid name children j (INIT_ROOT_NODE J ?sh roots key rid name guid j)"
    if "view j roots = Some (JObject m)" for m key rid name guid j
    using INIT_ROOT_NODE_added [OF J that] D C T Z by simp
  define a where "a = INIT_ROOT_NODE J ?sh roots ''bookmark_bar'' ''1'' ''Bookmarks bar'' ''0bc5d13f-2cba-5d74-951f-3f233fe6c908'' j5"
  obtain bar where A: "keeps view {roots} j5 a" "view a roots = Some (JObject [str ''bookmark_bar'' \<mapsto> bar])"
      "empty_root view roots ''1'' ''Bookmarks bar'' children bar a"
    using init [of j5 Map.empty] R unfolding root_added_def a_def by blast
  define b where "b = INIT_ROOT_NODE J ?sh roots ''other'' ''2'' ''Other bookmarks'' ''82b081ec-3dd3-529c-8475-ab6c344590dd'' a"
  obtain other where B: "keeps view {roots} a b"
      "view b roots = Some (JObject [str ''bookmark_bar'' \<mapsto> bar, str ''other'' \<mapsto> other])"
      "empty_root view roots ''2'' ''Other bookmarks'' children other b"
    using init [OF A(2)] unfolding root_added_def b_def by blast
  define e where "e = INIT_ROOT_NODE J ?sh roots ''synced'' ''3'' ''Mobile bookmarks'' ''4cf2e351-0e85-532b-bb37-df045d8f8d0f'' b"
  obtain synced where E: "keeps view {roots} b e"
      "view e roots = Some (JObject [str ''bookmark_bar'' \<mapsto> bar, str ''other'' \<mapsto> other, str ''synced'' \<mapsto> synced])"
      "empty_root view roots ''3'' ''Mobile bookmarks'' children synced e"
    using init [OF B(2)] unfolding root_added_def e_def by blast
  obtain store j6 where s: "js_new_object J e = (store, j6)" by fastforce
  note S = alloc_keeps [OF news(1) [of e, unfolded s]]
  obtain vc j7 where v: "json_sstring J ''1e54fbb25d92a354f7aeaf576726429e'' j6 = (vc, j7)" by fastforce
  define f where "f = json_object_sset J store ''checksum'' vc j7"
  have s6: "view j6 store = Some (JObject Map.empty)" using S by simp
  note F = sstring_member(1,2,5) [OF J s6 v, of "''checksum''", folded f_def] sstring_member(3,4) [OF J s6 v]
  define g where "g = json_object_sset J store ''roots'' roots f"
  note G = sset_keeps [OF J F(1) conjunct1 [OF R], of "''roots''", folded g_def]
  obtain vv j8 where w: "js_new_integer J 1 g = (vv, j8)" by fastforce
  note W = alloc_keeps [OF news(3) [of 1 g, unfolded w]]
  have s8: "view j8 store = Some (JObject [str ''checksum'' \<mapsto> vc, str ''roots'' \<mapsto> roots])"
    using W keepsD [of view "{}" g j8 store] G(1) by blast
  define h where "h = json_object_sset J store ''version'' vv j8"
  note H = sset_keeps [OF J s8 conjunct1 [OF W], of "''version''", folded h_def]
  have run: "store_new J btime j = Some (store, h)"
    by (simp add: store_new_def build_tsnode_text(1) [OF ts] d c t z r s v w flip: a_def b_def e_def f_def g_def h_def)
  have fin: "keeps view {store} f h" using keeps_trans G(2) W H(2) by (metis keeps_def empty_iff)
  have old: "keeps view {} e h"
  proof -
    have "keeps view {store} e h"
      using keeps_trans [OF _ keeps_trans [OF F(3) fin]] S by (metis keeps_def empty_iff)
    then show ?thesis using S unfolding keeps_def by (metis option.distinct(1) singletonD empty_iff)
  qed
  have "view h vc = Some (JString (str ''1e54fbb25d92a354f7aeaf576726429e''))"
    using keepsD [OF fin F(2)] F(5) by simp
  moreover have "view h vv = Some (JInteger 1)"
  proof -
    have "vv \<noteq> store" by (rule notI) (use W s8 in simp)
    then show ?thesis using keepsD [OF H(2), of vv] W by simp
  qed
  moreover have "view h children = Some (JArray [])"
  proof -
    have "view j5 children = Some (JArray [])" "children \<noteq> roots" using C T Z R by (auto simp: keeps_def)
    then show ?thesis using A(1) B(1) E(1) old by (simp add: keeps_def)
  qed
  moreover have "view h roots = Some (JObject [str ''bookmark_bar'' \<mapsto> bar, str ''other'' \<mapsto> other, str ''synced'' \<mapsto> synced])"
    using keepsD [OF old E(2)] by simp
  moreover have "empty_root view roots ''1'' ''Bookmarks bar'' children bar h"
    using A(3) B(1) E(1) old by (meson empty_root_keeps empty_subsetI order_refl)
  moreover have "empty_root view roots ''2'' ''Other bookmarks'' children other h"
    using B(3) E(1) old by (meson empty_root_keeps empty_subsetI order_refl)
  moreover have "empty_root view roots ''3'' ''Mobile bookmarks'' children synced h"
    using E(3) old by (meson empty_root_keeps empty_subsetI order_refl)
  moreover obtain M where "view h store = Some (JObject M)" "M (str ''checksum'') = Some vc"
      "M (str ''roots'') = Some roots" "M (str ''version'') = Some vv"
    using that [OF H(1)] by (simp add: str_def)
  ultimately have "new_store view store h"
    unfolding new_store_def using conjunct1 [OF C] by blast
  then show ?thesis using run by blast
qed

section \<open>Its check sum\<close>

lemma empty_root_tree:
  assumes J: "jansson_ok utf8 view J" and root: "empty_root view roots rid name children root j"
    and children: "children \<noteq> NULL" "view j children = Some (JArray [])" and conv: "conv (str name) = Some u"
  shows "tree_at J j (JTree root children []) \<and> texts_ok J j conv (JTree root children []) \<and>
    tree_text J j conv (JTree root children []) = str rid @ u @ str ''folder''"
proof -
  obtain f vi vn where f: "root \<noteq> NULL" "view j root = Some (JObject f)" "f (str ''id'') = Some vi"
      "f (str ''name'') = Some vn" "f (str ''children'') = Some children"
      "view j vi = Some (JString (str rid))" "view j vn = Some (JString (str name))"
    using root unfolding empty_root_def by blast
  note R = sget_view [OF J] string_view [OF J] array_get_view [OF J]
  have "node_text J j conv (root, children) = Some (str rid @ u @ str ''folder'')"
    using f children(1) conv by (simp add: node_text_def Let_def R)
  then show ?thesis using f children by (simp add: texts_ok_def tree_text_def R)
qed

lemma new_store_chksum:
  assumes "jansson_ok utf8 view (ce_js E)" "new_store view store (cs_j s)"
    "cc_roots (cs_ctx s) = json_object_sget (ce_js E) (cs_j s) store ''roots''"
    "js_object_values (ce_js E) (cs_j s) (cc_roots (cs_ctx s)) =
      map (json_object_sget (ce_js E) (cs_j s) (cc_roots (cs_ctx s))) [''bookmark_bar'', ''other'', ''synced'']"
    "converts E (cc_cd (cs_ctx s)) conv" "cc_cd (cs_ctx s) \<noteq> -1" "MD5_BLOCK_SIZE \<le> length (ce_junk E)"
    "\<forall>n \<in> {''Bookmarks bar'', ''Other bookmarks'', ''Mobile bookmarks''}. conv (str n) = Some (utf16le (str n))"
  shows "\<exists>w sum. chksum_root E s = Some (Some sum, s\<lparr>cs_w := w\<rparr>) \<and>
    js_string_value (ce_js E) (cs_j s) (json_object_sget (ce_js E) (cs_j s) store ''checksum'') = Some sum"
proof -
  let ?J = "ce_js E" and ?j = "cs_j s"
  obtain f m vc roots bar other synced children where st:
      "view ?j store = Some (JObject f)" "f (str ''checksum'') = Some vc" "f (str ''roots'') = Some roots"
      "view ?j vc = Some (JString (str ''1e54fbb25d92a354f7aeaf576726429e''))" "view ?j roots = Some (JObject m)"
      "m = [str ''bookmark_bar'' \<mapsto> bar, str ''other'' \<mapsto> other, str ''synced'' \<mapsto> synced]"
      "children \<noteq> NULL" "view ?j children = Some (JArray [])"
      "empty_root view roots ''1'' ''Bookmarks bar'' children bar ?j"
      "empty_root view roots ''2'' ''Other bookmarks'' children other ?j"
      "empty_root view roots ''3'' ''Mobile bookmarks'' children synced ?j"
    using assms(2) unfolding new_store_def by blast
  note R = sget_view [OF assms(1)] string_view [OF assms(1)]
  have m: "m (str ''bookmark_bar'') = Some bar" "m (str ''other'') = Some other" "m (str ''synced'') = Some synced"
    by (simp_all add: st(6) str_def)
  let ?t = "\<lambda>r. JTree r children []"
  have roots: "cc_roots (cs_ctx s) = roots" using assms(3) st by (simp add: R)
  have vals: "js_object_values ?J ?j (cc_roots (cs_ctx s)) = map jt_node [?t bar, ?t other, ?t synced]"
    using assms(4) st(5) m by (simp add: R roots)
  note T = empty_root_tree [OF assms(1) st(9) st(7,8), of conv "utf16le (str ''Bookmarks bar'')"]
    empty_root_tree [OF assms(1) st(10) st(7,8), of conv "utf16le (str ''Other bookmarks'')"]
    empty_root_tree [OF assms(1) st(11) st(7,8), of conv "utf16le (str ''Mobile bookmarks'')"]
  have ok: "\<forall>t \<in> set [?t bar, ?t other, ?t synced]. tree_at ?J ?j t \<and> texts_ok ?J ?j conv t"
    using T assms(8) by simp
  have low: "\<forall>t \<in> set [?t bar, ?t other, ?t synced]. height t < MAX_NODE_ITER_DEPTH"
    by (simp add: MAX_NODE_ITER_DEPTH_def)
  have "concat (map (tree_text ?J ?j conv) [?t bar, ?t other, ?t synced]) =
      str ''1'' @ utf16le (str ''Bookmarks bar'') @ str ''folder'' @
      str ''2'' @ utf16le (str ''Other bookmarks'') @ str ''folder'' @
      str ''3'' @ utf16le (str ''Mobile bookmarks'') @ str ''folder''"
    using T assms(8) by simp
  then show ?thesis
    using chksum_root_text [OF assms(1,5,6) vals _ ok assms(7)] low st(1,2,4) new_store_digest
    by (auto simp: R)
qed

end
