(* ===== verification/Chromium_Demo.thy ===== *)
theory Chromium_Demo
  imports Chromium_New
begin

text \<open>
  An environment for the Chromium backend on which the hypotheses of its properties hold: the small JSON
  library, the kernel with one directory, a simple hash, and \<open>iconv\<close> on ASCII.
\<close>

definition demo_hash :: "bytes \<Rightarrow> u64" where
  "demo_hash s = foldl (\<lambda>h b. 31 * h + of_nat (unat b)) 7 s"

definition demo_env :: "bytes list \<Rightarrow> jref \<Rightarrow> cells \<Rightarrow> (cells, demo_fs) chromium_env" where
  "demo_env chunks root store = \<lparr>
     ce_js = demo_jansson chunks root store, ce_os = demo_os, ce_hash = demo_hash,
     ce_junk = replicate DUMP_BUFSIZE 0,
     ce_iconv_open = \<lambda>w. (5, w),
     ce_iconv = \<lambda>cd s w. (if demo_utf8 s then Some (utf16le s) else None, w),
     ce_watcher_create = \<lambda>d n fl w. (1, w), ce_watcher_poll = \<lambda>p w. (- EAGAIN, w),
     ce_watcher_destroy = \<lambda>p w. w, ce_sandbox_enter = \<lambda>d fl w. (0, w),
     ce_basename_opendir = \<lambda>p w. ((5, p), w), ce_faccessat = \<lambda>d n w. (0, w)\<rparr>"

definition demo_conv :: "bytes \<Rightarrow> bytes option" where
  "demo_conv s = (if demo_utf8 s then Some (utf16le s) else None)"

definition demo_ctx :: chromium_ctx where
  "demo_ctx = (chromium_ctx_init (str ''Bookmarks'') 5 0 0)\<lparr>cc_watcher := 1, cc_cd := 5, cc_store := 1, cc_roots := 2\<rparr>"

definition demo_state :: "cells \<Rightarrow> (cells, demo_fs) chromium_state" where
  "demo_state j = \<lparr>cs_ctx = demo_ctx, cs_j = j, cs_w = demo_fs0, cs_rng = prng_zero,
     cs_nodes = Map.empty, cs_cookies = Map.empty, cs_brk = 1\<rparr>"

lemma demo_env_js [simp]: "ce_js (demo_env c r st) = demo_jansson c r st"
  by (simp add: demo_env_def)

lemma demo_converts: "converts (demo_env c r st) cd demo_conv"
  by (simp add: converts_def demo_env_def demo_conv_def)

lemma demo_junk: "MD5_BLOCK_SIZE \<le> length (ce_junk (demo_env c r st))"
  by (simp add: demo_env_def MD5_BLOCK_SIZE_def DUMP_BUFSIZE_def)

text \<open>A store with one root that holds one bookmark.\<close>

definition demo_cells :: cells where
  "demo_cells = [
     (2, CObject [(str ''bookmark_bar'', 3)]),
     (3, CObject [(str ''id'', 4), (str ''name'', 5), (str ''children'', 6)]),
     (4, CString (str ''1'')), (5, CString (str ''Bar'')), (6, CArray [7]),
     (7, CObject [(str ''id'', 8), (str ''name'', 9), (str ''url'', 10)]),
     (8, CString (str ''4'')), (9, CString (str ''A'')), (10, CString (str ''b:c''))]"

definition demo_tree :: jtree where
  "demo_tree = JTree 3 6 [JTree 7 NULL []]"

lemma demo_env_jansson: "jansson_ok demo_utf8 cells_view (ce_js (demo_env c r st))"
  by (simp add: demo_jansson_ok)

lemma demo_text: "texts_ok (demo_jansson c r st) demo_cells demo_conv demo_tree \<and>
    tree_text (demo_jansson c r st) demo_cells demo_conv demo_tree = str ''1B'' @ [0] @ str ''a'' @ [0] @ str ''r'' @ [0] @
      str ''folder'' @ str ''4A'' @ [0] @ str ''urlb:c''"
proof -
  have "node_text (demo_jansson c r st) demo_cells demo_conv (3, 6) =
      Some (str ''1B'' @ [0] @ str ''a'' @ [0] @ str ''r'' @ [0] @ str ''folder'')"
    by (simp add: node_text_def json_object_sget_def demo_jansson_def demo_cells_def obj_at_def cell_at_def NULL_def
        demo_conv_def demo_utf8_def utf16le_def str_def)
  moreover have "node_text (demo_jansson c r st) demo_cells demo_conv (7, NULL) = Some (str ''4A'' @ [0] @ str ''urlb:c'')"
    by (simp add: node_text_def json_object_sget_def demo_jansson_def demo_cells_def obj_at_def cell_at_def NULL_def
        demo_conv_def demo_utf8_def utf16le_def str_def)
  ultimately show ?thesis by (simp add: texts_ok_def tree_text_def demo_tree_def)
qed

lemma demo_tree_at: "tree_at (demo_jansson c r st) demo_cells demo_tree"
  by (simp add: demo_tree_def json_object_sget_def demo_jansson_def demo_cells_def obj_at_def arr_at_def cell_at_def
      NULL_def str_def)

theorem chromium_chksum_witness:
  "\<exists>w. chksum_root (demo_env [] NULL []) (demo_state demo_cells) =
     Some (Some (base16_encode (md5_spec (str ''1B'' @ [0] @ str ''a'' @ [0] @ str ''r'' @ [0] @
       str ''folder'' @ str ''4A'' @ [0] @ str ''urlb:c''))), (demo_state demo_cells)\<lparr>cs_w := w\<rparr>)"
proof -
  have st: "cs_j (demo_state demo_cells) = demo_cells" "cc_cd (cs_ctx (demo_state demo_cells)) = 5"
    "cc_roots (cs_ctx (demo_state demo_cells)) = 2"
    by (simp_all add: demo_state_def demo_ctx_def)
  have vals: "js_object_values (demo_jansson [] NULL []) demo_cells 2 = map jt_node [demo_tree]"
    by (simp add: demo_jansson_def demo_cells_def demo_tree_def obj_at_def cell_at_def NULL_def)
  have low: "height demo_tree < MAX_NODE_ITER_DEPTH" by (simp add: demo_tree_def MAX_NODE_ITER_DEPTH_def NULL_def)
  show ?thesis
    using chromium_chksum [OF demo_env_jansson [of "[]" NULL "[]"], where s = "demo_state demo_cells" and conv = demo_conv
        and ts = "[demo_tree]"]
      demo_text [of "[]" NULL "[]"] demo_tree_at [of "[]" NULL "[]"] demo_converts [of "[]" NULL "[]" 5] demo_junk [of "[]" NULL "[]"] vals low
    by (simp add: st)
qed

text \<open>
  C11: a new file of bookmarks is consistent: the check sum that \<open>store_new\<close> puts into it, a constant, is the
  one that \<open>chksum_root\<close> computes from its three empty roots.  \<open>js_object_values\<close> lists the members of an
  object in the order of their insertion, as Jansson does.
\<close>

theorem chromium_new_store:
  assumes "jansson_ok utf8 view (ce_js E)" "valid_ts btime" "store_new (ce_js E) btime j = Some (store, cs_j s)"
    "cc_roots (cs_ctx s) = json_object_sget (ce_js E) (cs_j s) store ''roots''"
    "js_object_values (ce_js E) (cs_j s) (cc_roots (cs_ctx s)) =
      map (json_object_sget (ce_js E) (cs_j s) (cc_roots (cs_ctx s))) [''bookmark_bar'', ''other'', ''synced'']"
    "converts E (cc_cd (cs_ctx s)) conv" "cc_cd (cs_ctx s) \<noteq> -1" "MD5_BLOCK_SIZE \<le> length (ce_junk E)"
    "\<forall>n \<in> {''Bookmarks bar'', ''Other bookmarks'', ''Mobile bookmarks''}. conv (str n) = Some (utf16le (str n))"
  shows "\<exists>w sum. chksum_root E s = Some (Some sum, s\<lparr>cs_w := w\<rparr>) \<and>
    js_string_value (ce_js E) (cs_j s) (json_object_sget (ce_js E) (cs_j s) store ''checksum'') = Some sum"
proof -
  have "new_store view store (cs_j s)" using store_new_ok [OF assms(1,2), of j] assms(3) by auto
  then show ?thesis using new_store_chksum [OF assms(1) _ assms(4-9)] by blast
qed

definition demo_btime :: timespec where "demo_btime = \<lparr>tv_sec = 1700000000, tv_nsec = 0\<rparr>"

definition demo_new :: "jref \<times> cells" where
  "demo_new = the (store_new (demo_jansson [] NULL []) demo_btime [])"

definition demo_new_state :: "(cells, demo_fs) chromium_state" where
  "demo_new_state = (demo_state (snd demo_new))\<lparr>cs_ctx := demo_ctx\<lparr>cc_store := fst demo_new,
     cc_roots := json_object_sget (demo_jansson [] NULL []) (snd demo_new) (fst demo_new) ''roots''\<rparr>\<rparr>"

lemma demo_valid: "valid_ts demo_btime"
  by (simp add: valid_ts_def demo_btime_def valid_ts_sec_def TIMESPEC_SEC_MAX_def)

lemma demo_new: "store_new (demo_jansson [] NULL []) demo_btime [] = Some demo_new"
  using store_new_ok [OF demo_jansson_ok demo_valid, of "[]" NULL "[]" "[]"] by (auto simp: demo_new_def)

text \<open>The small library lists members in the order of insertion.\<close>

lemma cell_new: "cells_new c j = (q, j') \<Longrightarrow> q \<noteq> NULL \<and> cell_at j q = None \<and> cell_at j' q = Some c \<and>
    (\<forall>r d. cell_at j r = Some d \<longrightarrow> cell_at j' r = Some d)"
  using cells_new_allocates [of c j]
  by (auto simp: allocates_def cells_new_def cell_at_def cells_view_def NULL_def Let_def split: if_splits)

lemma cell_put: "cell_at (cells_put q c j) r = (if r = q \<and> q \<noteq> NULL then Some c else cell_at j r)"
  by (auto simp: cells_put_def cell_at_def)

lemma cell_sset:
  assumes "cell_at j q = Some (CObject kvs)" "\<forall>p \<in> set kvs. snd p \<noteq> NULL"
  shows "cell_at (json_object_sset (demo_jansson c t st) q k v j) r =
    (if r = q then Some (CObject ((str k, v) # kvs)) else cell_at j r)"
proof -
  have "q \<noteq> NULL" using assms(1) by (auto simp: cell_at_def)
  moreover have "filter (\<lambda>p. snd p \<noteq> NULL) kvs = kvs" using assms(2) by (simp add: filter_id_conv)
  ultimately show ?thesis by (simp add: json_object_sset_def demo_jansson_def cell_put obj_at_def assms(1))
qed

lemma cell_sset_other: "r \<noteq> q \<Longrightarrow> cell_at (json_object_sset (demo_jansson c t st) q k v j) r = cell_at j r"
  by (simp add: json_object_sset_def demo_jansson_def cell_put)

lemma cell_sstring: "json_sstring (demo_jansson c t st) s j = (q, j') \<Longrightarrow> cell_at j r = Some d \<Longrightarrow> cell_at j' r = Some d"
  using cell_new [of "CString (str s)" j q j'] by (simp add: json_sstring_def demo_jansson_def)

lemma demo_INIT_ROOT_NODE:
  assumes "cell_at j roots = Some (CObject kvs)" "\<forall>p \<in> set kvs. snd p \<noteq> NULL"
  shows "\<exists>root. root \<noteq> NULL \<and> cell_at (INIT_ROOT_NODE (demo_jansson c t st) sh roots key rid name guid j) roots =
    Some (CObject ((str key, root) # kvs))"
proof -
  let ?J = "demo_jansson c t st"
  obtain children da zero type where sh: "sh = (children, da, zero, type)" by (cases sh)
  obtain root j1 where j1: "js_new_object ?J j = (root, j1)" by fastforce
  have n: "root \<noteq> NULL" "cell_at j root = None" "cell_at j1 roots = Some (CObject kvs)"
    using cell_new [of "CObject []" j root j1] j1 assms(1) by (simp_all add: demo_jansson_def)
  have ne: "roots \<noteq> root" using n(2) assms(1) by auto
  obtain vi j2 where j2: "json_sstring ?J rid j1 = (vi, j2)" by fastforce
  obtain vg j3 where j3: "json_sstring ?J guid (json_object_sset ?J root ''id'' vi j2) = (vg, j3)" by fastforce
  obtain vn j4 where j4: "json_sstring ?J name (json_object_sset ?J root ''guid'' vg j3) = (vn, j4)" by fastforce
  have "cell_at j2 roots = Some (CObject kvs)" using cell_sstring [OF j2 n(3)] .
  then have "cell_at j3 roots = Some (CObject kvs)" by (intro cell_sstring [OF j3]) (simp add: cell_sset_other ne)
  then have "cell_at j4 roots = Some (CObject kvs)" by (intro cell_sstring [OF j4]) (simp add: cell_sset_other ne)
  then show ?thesis
    using n(1) by (auto simp: INIT_ROOT_NODE_def sh j1 j2 j3 j4 cell_sset [OF _ assms(2)] cell_sset_other ne)
qed

lemma demo_order:
  assumes ts: "valid_ts ts" and run: "store_new (demo_jansson c t st) ts j = Some (store, j')"
    and roots: "roots = json_object_sget (demo_jansson c t st) j' store ''roots''"
  shows "js_object_values (demo_jansson c t st) j' roots =
      map (json_object_sget (demo_jansson c t st) j' roots) [''bookmark_bar'', ''other'', ''synced'']"
proof -
  let ?J = "demo_jansson c t st"
  obtain da j1 where d: "js_stringn_nocheck ?J (ts_text ts) j = (da, j1)" by fastforce
  obtain children j2 where ch: "js_new_array ?J j1 = (children, j2)" by fastforce
  obtain type j3 where ty: "json_sstring ?J ''folder'' j2 = (type, j3)" by fastforce
  obtain zero j4 where z: "json_sstring ?J ''0'' j3 = (zero, j4)" by fastforce
  obtain rs j5 where r: "js_new_object ?J j4 = (rs, j5)" by fastforce
  let ?sh = "(children, da, zero, type)"
  have r5: "cell_at j5 rs = Some (CObject [])" "rs \<noteq> NULL"
    using cell_new [of "CObject []" j4 rs j5] r by (simp_all add: demo_jansson_def)
  define a where "a = INIT_ROOT_NODE ?J ?sh rs ''bookmark_bar'' ''1'' ''Bookmarks bar'' ''0bc5d13f-2cba-5d74-951f-3f233fe6c908'' j5"
  define b where "b = INIT_ROOT_NODE ?J ?sh rs ''other'' ''2'' ''Other bookmarks'' ''82b081ec-3dd3-529c-8475-ab6c344590dd'' a"
  define e where "e = INIT_ROOT_NODE ?J ?sh rs ''synced'' ''3'' ''Mobile bookmarks'' ''4cf2e351-0e85-532b-bb37-df045d8f8d0f'' b"
  have "\<exists>x. x \<noteq> NULL \<and> cell_at a rs = Some (CObject ([(str ''bookmark_bar'', x)]))"
    unfolding a_def by (rule demo_INIT_ROOT_NODE [OF r5(1)]) simp
  then obtain x where x: "x \<noteq> NULL" "cell_at a rs = Some (CObject ([(str ''bookmark_bar'', x)]))" by blast
  have "\<exists>y. y \<noteq> NULL \<and> cell_at b rs = Some (CObject ([(str ''other'', y), (str ''bookmark_bar'', x)]))"
    unfolding b_def by (rule demo_INIT_ROOT_NODE [OF x(2)]) (use x(1) in simp)
  then obtain y where y: "y \<noteq> NULL" "cell_at b rs = Some (CObject ([(str ''other'', y), (str ''bookmark_bar'', x)]))" by blast
  let ?kvs = "\<lambda>w. [(str ''synced'', w), (str ''other'', y), (str ''bookmark_bar'', x)]"
  have "\<exists>w. w \<noteq> NULL \<and> cell_at e rs = Some (CObject (?kvs w))"
    unfolding e_def by (rule demo_INIT_ROOT_NODE [OF y(2)]) (use x(1) y(1) in simp)
  then obtain w where w: "w \<noteq> NULL" "cell_at e rs = Some (CObject (?kvs w))" by blast
  obtain s j6 where s: "js_new_object ?J e = (s, j6)" by fastforce
  have s6: "cell_at j6 s = Some (CObject [])" "cell_at j6 rs = Some (CObject (?kvs w))" "s \<noteq> rs"
    using cell_new [of "CObject []" e s j6] s w(2) by (auto simp: demo_jansson_def)
  obtain vc j7 where v: "json_sstring ?J ''1e54fbb25d92a354f7aeaf576726429e'' j6 = (vc, j7)" by fastforce
  have vc: "vc \<noteq> NULL" using cell_new v by (simp add: json_sstring_def demo_jansson_def)
  define f where "f = json_object_sset ?J s ''roots'' rs (json_object_sset ?J s ''checksum'' vc j7)"
  have f: "cell_at f s = Some (CObject [(str ''roots'', rs), (str ''checksum'', vc)])" "cell_at f rs = Some (CObject (?kvs w))"
    unfolding f_def using cell_sstring [OF v s6(1)] cell_sstring [OF v s6(2)] s6(3) vc
    by (simp_all add: cell_sset cell_sset_other)
  obtain vv j8 where vv: "js_new_integer ?J 1 f = (vv, j8)" by fastforce
  have f8: "cell_at j8 s = cell_at f s" "cell_at j8 rs = cell_at f rs" "vv \<noteq> NULL"
    using cell_new [of "CInteger 1" f vv j8] vv f by (simp_all add: demo_jansson_def)
  have "store = s \<and> j' = json_object_sset ?J s ''version'' vv j8"
    using run by (simp add: store_new_def build_tsnode_text(1) [OF ts] d ch ty z r s v vv flip: a_def b_def e_def f_def) auto
  then have j': "store = s" "j' = json_object_sset ?J s ''version'' vv j8" by simp_all
  have fin: "cell_at j' s = Some (CObject [(str ''version'', vv), (str ''roots'', rs), (str ''checksum'', vc)])"
    "cell_at j' rs = Some (CObject (?kvs w))"
    unfolding j'(2) using f f8 s6(3) vc r5(2) by (simp_all add: cell_sset cell_sset_other)
  have "roots = rs"
    using fin(1) r5(2) vc f8(3) by (simp add: roots j'(1) json_object_sget_def demo_jansson_def obj_at_def str_def)
  then show ?thesis
    using fin(2) w(1) x(1) y(1) by (simp add: json_object_sget_def demo_jansson_def obj_at_def str_def)
qed

theorem chromium_new_store_witness:
  "\<exists>w sum. chksum_root (demo_env [] NULL []) demo_new_state = Some (Some sum, demo_new_state\<lparr>cs_w := w\<rparr>)"
proof -
  have st: "cs_j demo_new_state = snd demo_new" "cc_cd (cs_ctx demo_new_state) = 5"
    "cc_roots (cs_ctx demo_new_state) =
       json_object_sget (demo_jansson [] NULL []) (snd demo_new) (fst demo_new) ''roots''"
    by (simp_all add: demo_new_state_def demo_state_def demo_ctx_def)
  have conv: "\<forall>n \<in> {''Bookmarks bar'', ''Other bookmarks'', ''Mobile bookmarks''}. demo_conv (str n) = Some (utf16le (str n))"
    by (simp add: demo_conv_def demo_utf8_def str_def)
  show ?thesis
    using chromium_new_store [OF demo_env_jansson [of "[]" NULL "[]"] demo_valid, where s = demo_new_state and j = "[]"
        and store = "fst demo_new" and conv = demo_conv]
      demo_new demo_order [OF demo_valid, of "[]" NULL "[]" "[]" "fst demo_new" "snd demo_new"] conv demo_converts [of "[]" NULL "[]" 5] demo_junk [of "[]" NULL "[]"]
    by (auto simp: st)
qed

end
