(* ===== verification/Chromium_Load.thy ===== *)
theory Chromium_Load
  imports Chromium_Inv Chromium_Demo
begin

text \<open>
  What loading promises to the operations that come after it, and a store that is loaded.
\<close>


section \<open>A store with one root\<close>

text \<open>The watcher is there and the store not yet loaded.\<close>

definition bare_guid :: bytes where "bare_guid = replicate 16 1"

definition bare_cells :: cells where
  "bare_cells = [(1, CObject [(str ''version'', 2), (str ''checksum'', 3), (str ''roots'', 4)]),
     (2, CInteger 1), (3, CString []), (4, CObject [(str ''bookmark_bar'', 5)]),
     (5, CObject [(str ''id'', 6), (str ''guid'', 7), (str ''name'', 8)]),
     (6, CString (str ''1'')), (7, CString (uuid_bin2hex bare_guid)), (8, CString (str ''Bar''))]"

definition bare_fs :: demo_fs where
  "bare_fs = \<lparr>df_dir = [(str ''Bookmarks'', 1)], df_fds = [], df_data = (\<lambda>i. [])\<rparr>"

definition bare_state :: "(cells, demo_fs) chromium_state" where
  "bare_state = (demo_state [])\<lparr>cs_ctx := demo_ctx\<lparr>cc_store := NULL\<rparr>, cs_w := bare_fs\<rparr>"

definition bare_env :: "(cells, demo_fs) chromium_env" where
  "bare_env = demo_env [] 1 bare_cells"

lemma bare_inv: "chromium_inv bare_env bare_state"
  by (simp add: chromium_inv_def bare_state_def demo_state_def demo_ctx_def chromium_ctx_init_def)

lemma bare_guid_ok: "parse_guid (Some (uuid_bin2hex bare_guid)) = (0, bare_guid)"
proof -
  have len: "length (uuid_bin2hex bare_guid) = UUID_HEX_LEN"
    by (simp add: bare_guid_def UUID_HEX_LEN_def length_uuid_bin2hex)
  then show ?thesis
    using uuid_hex2bin_iff [OF len, of bare_guid] by (simp add: parse_guid_def bare_guid_def UUID_LEN_def)
qed

lemma bare_guid_root: "bare_guid \<noteq> root_guid"
proof
  assume "bare_guid = root_guid"
  then have "hd bare_guid = hd root_guid" by simp
  then show False by (simp add: bare_guid_def root_guid_def)
qed

lemma bare_id: "strtoull [49, 0] = (1, 1)"
  by (simp add: strtoull_def cstr_def strto_def isspace_def isdigit_def digits_value_def)

lemma bare_name: "fst (validate_filename (str ''Bar'') (length (str ''Bar''))) = 0"
  by (simp add: validate_filename_def memchr_def str_def NAME_MAX_def)

lemma hashmap_insert_few:
  assumes "hm_inv H m" "hm_set m = {q}"
  shows "\<exists>m'. hashmap_insert H m hc e = Some m'"
  by (rule hashmap_insert_room [OF assms(1)]) (use assms in \<open>simp add: hm_inv_def EXP_MIN_def\<close>)

lemma bare_load: "\<exists>s'. store_load bare_env bare_state = Some (0, s')"
proof -
  let ?E = bare_env and ?h = demo_hash
  define J where "J = demo_jansson [] 1 bare_cells"
  have E: "ce_js ?E = J" "ce_hash ?E = ?h" "ce_os ?E = demo_os" by (simp_all add: bare_env_def demo_env_def J_def)
  obtain w where ld: "json_load_file_at demo_os J 5 (str ''Bookmarks'') [] bare_fs = (1, bare_cells, w)"
    by (simp add: json_load_file_at_def demo_os_def df_openat_def bare_fs_def J_def demo_jansson_def O_RDONLY_def O_EXCL_def str_def)
  have v: "json_object_sget J bare_cells 1 ''checksum'' = 3" "json_object_sget J bare_cells 1 ''version'' = 2"
    "json_object_sget J bare_cells 1 ''roots'' = 4" "js_integer_value J bare_cells 2 = 1"
    by (simp_all add: json_object_sget_def J_def demo_jansson_def bare_cells_def obj_at_def cell_at_def NULL_def str_def)
  define t where "t = bare_state\<lparr>cs_j := bare_cells, cs_w := w, cs_ctx := demo_ctx\<lparr>cc_store := NULL, cc_roots := 4\<rparr>\<rparr>"
  obtain root children j where j: "build_root J bare_cells = (root, children, j)" by (cases "build_root J bare_cells")
  have jc: "cell_at j 4 = Some (CObject [(str ''bookmark_bar'', 5)])"
    "cell_at j 5 = Some (CObject [(str ''id'', 6), (str ''guid'', 7), (str ''name'', 8)])"
    "cell_at j 6 = Some (CString (str ''1''))" "cell_at j 7 = Some (CString (uuid_bin2hex bare_guid))"
    "cell_at j 8 = Some (CString (str ''Bar''))"
    using j by (auto simp: build_root_def json_sstring_def json_object_sset_def json_object_sset_copy_def
        J_def demo_jansson_def cells_new_def cells_put_def obj_at_def cell_at_def bare_cells_def NULL_def Let_def str_def)
  have get: "json_object_sget J j 5 ''id'' = 6" "json_object_sget J j 5 ''guid'' = 7"
      "json_object_sget J j 5 ''name'' = 8" "json_object_sget J j 5 ''children'' = NULL"
    by (simp_all add: json_object_sget_def J_def demo_jansson_def obj_at_def jc) (simp_all add: NULL_def str_def)
  have vals: "js_string_value J j 6 = Some [49]" "js_string_value J j 7 = Some (uuid_bin2hex bare_guid)"
      "js_string_value J j 8 = Some (str ''Bar'')" "js_object_values J j 4 = [5]"
    by (simp_all add: J_def demo_jansson_def obj_at_def jc NULL_def) (simp_all add: str_def)
  have pid: "parse_id J j 5 = Some 1"
    by (simp add: parse_id_def get vals bare_id BOOKMARKFS_MAX_ID_def BOOKMARKFS_BOOKMARK_TYPE_BITS_def)
  define e where "e = root_entry root children"
  define nodes :: "ptr \<Rightarrow> node_entry option" where "nodes = [1 \<mapsto> e]"
  obtain im gm where m0: "hashmap_insert (idmap_hash ?h nodes) hashmap_create (hash_id ?h BOOKMARKS_ROOT_ID) 1 = Some im"
      "hashmap_insert (guidmap_hash ?h nodes) hashmap_create (?h root_guid) 1 = Some gm"
    using hashmap_insert_create by metis
  define s where "s = t\<lparr>cs_j := j, cs_nodes := nodes, cs_brk := 2\<rparr>"
  define c where "c = \<lparr>im_id_map = im, im_guid_map = gm, im_assoc_map = Some hashmap_create, im_max_id = 0, im_s = s\<rparr>"
  have i: "build_maps_init ?E t = Some (c, 1)"
    using m0 by (simp add: build_maps_init_def E t_def bare_state_def demo_state_def demo_ctx_def
        chromium_ctx_init_def new_node_def c_def s_def nodes_def e_def j BACKEND_FILENAME_GUID_def has_flag_def)
  have "building ?E (cs_nodes t) (cs_brk t) (cs_ctx t) {cs_brk t} c"
    by (rule building_init [OF _ i]) (simp add: t_def bare_state_def demo_state_def)
  then have ok: "maps_ok ?h nodes {1} im gm (Some hashmap_create)"
    by (simp add: building_def c_def s_def t_def bare_state_def demo_state_def E)
  have ex: "2 \<le> cs_brk s" "cs_ctx s = cs_ctx t" "im_json c = j" by (simp_all add: s_def c_def im_json_def)
  let ?e = "\<lparr>ne_id = 1, ne_parent_id = 0, ne_guid = bare_guid, ne_name = None, ne_node = 5, ne_children = NULL\<rparr>"
  define nodes1 where "nodes1 = nodes(2 \<mapsto> ?e)"
  define nodes2 where "nodes2 = nodes(2 \<mapsto> ?e\<lparr>ne_name := Some (str ''Bar'')\<rparr>)"
  have ok1: "maps_ok ?h nodes1 {1} im gm (Some hashmap_create)"
    by (rule maps_ok_cong [OF ok]) (simp add: nodes1_def)
  have f1: "hashmap_search (idmap_comp nodes 1) im (hash_id ?h 1) = Some None"
    using idmap_search_cases [OF maps_okD(2) [OF ok], of 1] unfolding maps_okD(3) [OF ok]
    by (auto simp: nodes_def e_def root_entry_def BOOKMARKS_ROOT_ID_def split: option.splits)
  have f2: "hashmap_search (guidmap_comp nodes bare_guid) gm (?h bare_guid) = Some None"
    using guidmap_search_cases [OF maps_okD(5) [OF ok], of bare_guid] bare_guid_root unfolding maps_okD(6) [OF ok]
    by (auto simp: nodes_def e_def root_entry_def split: option.splits)
  have f3: "hashmap_search (assocmap_comp nodes1 0 (str ''Bar'')) hashmap_create (hash_assoc ?h 0 (str ''Bar'')) = Some None"
    using assocmap_search_cases [OF hashmap_create_ok(1), where h = ?h and nodes = nodes1 and i = 0 and name = "str ''Bar''"]
    by (auto simp: hashmap_create_ok(2) split: option.splits)
  obtain im1 gm1 am1 where m1: "hashmap_insert (idmap_hash ?h nodes1) im (hash_id ?h 1) 2 = Some im1"
      "hashmap_insert (guidmap_hash ?h nodes1) gm (?h bare_guid) 2 = Some gm1"
      "hashmap_insert (assocmap_hash ?h nodes2) hashmap_create (hash_assoc ?h 0 (str ''Bar'')) 2 = Some am1"
    using hashmap_insert_few [OF maps_okD(2,3) [OF ok1]] hashmap_insert_few [OF maps_okD(5,6) [OF ok1]] hashmap_insert_create by metis
  have c: "im_id_map c = im" "im_guid_map c = gm" "im_assoc_map c = Some hashmap_create" "im_s c = s"
      "cs_nodes s = nodes" "cs_brk s = 2" "cs_j s = j" "nodes (Suc 0) = Some e" "ne_id e = 0" "ne_name e = Some []"
    by (simp_all add: c_def s_def nodes_def e_def root_entry_def BOOKMARKS_ROOT_ID_def)
  define s1 where "s1 = s\<lparr>cs_nodes := nodes1, cs_brk := 3, cs_j := js_array_append J (ne_children e) 5 j\<rparr>"
  define c1 where "c1 = c\<lparr>im_id_map := im1, im_guid_map := gm1, im_s := s1\<rparr>"
  have name: "maps_iter_name ?E e (str ''Bar'') 2 ?e c1 =
      Some (c1\<lparr>im_assoc_map := Some am1, im_s := put_node 2 (?e\<lparr>ne_name := Some (str ''Bar'')\<rparr>) s1\<rparr>)"
    using bare_name f3 m1(3) by (simp add: maps_iter_name_def c c1_def s1_def E put_node_def nodes1_def nodes2_def del: length_str)
  have "\<exists>c'. maps_iter_cb ?E c 5 NULL 1 = Some (0, c', 2)"
    using f1 f2 m1(1,2) name
    by (simp add: maps_iter_cb_def E ex(3) c pid bare_guid_ok get vals new_node_def Let_def flip: nodes1_def)
      (simp add: s1_def c1_def maps_iter_end_def BOOKMARKS_ROOT_ID_def c)
  then obtain c' where cb: "maps_iter_cb ?E c 5 NULL 1 = Some (0, c', 2)" by blast
  have "js_array_get J k NULL 0 = NULL" for k by (simp add: J_def demo_jansson_def arr_at_def cell_at_def)
  then have "iter_node J im_json MAX_NODE_ITER_DEPTH (maps_iter_cb ?E) 5 1 c = Some (0, c')"
    unfolding iter_node_def by (simp add: iter_loop.simps [where at = "Some 5"] iter_loop.simps [where at = None] ex(3) get cb [simplified] Let_def)
  then have it: "iter_roots J im_json 4 (maps_iter_cb ?E) 1 c = Some (0, c')"
    by (simp add: iter_roots_def ex(3) vals)
  have ctx: "cc_roots (cs_ctx t) = 4" by (simp add: t_def)
  obtain s' where b: "build_maps ?E t = Some (0, s')"
    by (simp add: build_maps_def i E ctx it [simplified] Let_def)
  have "cs_ctx bare_state = demo_ctx\<lparr>cc_store := NULL\<rparr>" "cs_j bare_state = []" "cs_w bare_state = bare_fs"
    "cc_dirfd demo_ctx = 5" "cc_name demo_ctx = str ''Bookmarks''" "cc_watcher demo_ctx = 1" "cc_dirty demo_ctx = DIRTY_LEVEL_NONE"
    by (simp_all add: bare_state_def demo_state_def demo_ctx_def chromium_ctx_init_def)
  note st = this
  have "3 \<noteq> NULL" "4 \<noteq> NULL" "Suc 0 \<noteq> NULL" by (simp_all add: NULL_def)
  then have load: "\<exists>s''. do_load ?E (bare_state\<lparr>cs_w := bare_fs\<rparr>) = Some (0, s'')"
    using b by (simp add: do_load_def E st ld [folded J_def, simplified] v [simplified] Let_def t_def)
  then show ?thesis
    by (simp add: store_load_def st Let_def) (simp add: bare_env_def demo_env_def NULL_def less_dirty_level_def)
qed


end
