(* ===== verification/Chromium_Permute.thy ===== *)
theory Chromium_Permute
  imports Chromium_Load
begin

text \<open>
  Changing the order of a folder: what \<open>bookmark_permute\<close> does to the array of children.
\<close>

section \<open>The array\<close>

lemma first_index:
  "a \<in> set xs \<Longrightarrow> length (takeWhile (\<lambda>x. x \<noteq> a) xs) < length xs \<and> xs ! length (takeWhile (\<lambda>x. x \<noteq> a) xs) = a"
  by (induction xs) auto

lemma array_search_finds:
  assumes J: "jansson_ok utf8 view J" and xs: "view j h = Some (JArray xs)" and n: "n \<in> set xs" "n \<noteq> NULL"
  shows "json_array_search J j h n = Some (length (takeWhile (\<lambda>x. x \<noteq> n) xs))"
proof -
  let ?i = "length (takeWhile (\<lambda>x. x \<noteq> n) xs)"
  have i: "?i < length xs" "xs ! ?i = n" using first_index [OF n(1)] by simp_all
  have get: "js_array_get J j h k = xs ! k" if "k < length xs" for k
    using that by (simp add: array_get_view [OF J] xs)
  have "array_search_from J j h n (?i - k) = Some ?i" if "k \<le> ?i" for k
    using that
  proof (induction k)
    case 0
    then show ?case using i get [OF i(1)] by (simp add: array_search_from.simps)
  next
    case (Suc k)
    let ?p = "?i - Suc k"
    have p: "?p < ?i" "Suc ?p = ?i - k" using Suc.prems by auto
    then have "xs ! ?p \<noteq> n" using nth_mem [of ?p "takeWhile (\<lambda>x. x \<noteq> n) xs"] set_takeWhileD takeWhile_nth [of ?p "\<lambda>x. x \<noteq> n" xs]
      by metis
    then show ?case using Suc p get [of ?p] i(1) by (subst array_search_from.simps) (auto simp: p(2))
  qed
  from this [of ?i] show ?thesis by (simp add: json_array_search_def)
qed

text \<open>
  What the operation means: \<open>a\<close> and \<open>b\<close> change places, or \<open>a\<close> is taken out and put back next to \<open>b\<close>.
\<close>

fun permuted :: "permd_op \<Rightarrow> 'a \<Rightarrow> 'a \<Rightarrow> 'a list \<Rightarrow> 'a list" where
  "permuted PERMD_OP_SWAP a b xs = map (\<lambda>x. if x = a then b else if x = b then a else x) xs"
| "permuted PERMD_OP_MOVE_BEFORE a b xs = concat (map (\<lambda>x. if x = a then [] else if x = b then [a, b] else [x]) xs)"
| "permuted PERMD_OP_MOVE_AFTER a b xs = concat (map (\<lambda>x. if x = a then [] else if x = b then [b, a] else [x]) xs)"
| "permuted PERMD_OP_OTHER a b xs = xs"

lemma permuted_around:
  assumes "a \<notin> set us" "b \<notin> set us"
  shows "map (\<lambda>x. if x = a then b else if x = b then a else x) us = us"
    "concat (map (\<lambda>x. if x = a then [] else if x = b then c else [x]) us) = us"
  using assms by (induction us) auto

lemma array_write_views:
  assumes "jansson_ok utf8 view J" "view j r = Some (JArray xs)"
  shows "v \<noteq> NULL \<Longrightarrow> n \<le> length xs \<Longrightarrow>
      view (js_array_insert J r n v j) = (view j)(r \<mapsto> JArray (take n xs @ v # drop n xs))"
    "n < length xs \<Longrightarrow> view (js_array_remove J r n j) = (view j)(r \<mapsto> JArray (take n xs @ drop (Suc n) xs))"
    "v \<noteq> NULL \<Longrightarrow> n < length xs \<Longrightarrow> view (js_array_set J r n v j) = (view j)(r \<mapsto> JArray (xs[n := v]))"
  using assms by (simp_all add: jansson_ok_def jansson_writes_def)

lemma two_positions:
  assumes "distinct xs" "a \<in> set xs" "b \<in> set xs" "a \<noteq> b"
  obtains us vs ws where "xs = us @ a # vs @ b # ws" "a \<notin> set us" "b \<notin> set us"
      "a \<notin> set vs" "b \<notin> set vs" "a \<notin> set ws" "b \<notin> set ws"
  | us vs ws where "xs = us @ b # vs @ a # ws" "a \<notin> set us" "b \<notin> set us"
      "a \<notin> set vs" "b \<notin> set vs" "a \<notin> set ws" "b \<notin> set ws"
proof -
  obtain us ys where u: "xs = us @ a # ys" using assms(2) by (meson split_list)
  then consider "b \<in> set us" | "b \<in> set ys" using assms(3,4) by auto
  then show thesis
  proof cases
    case 1
    then obtain vs ws where "us = vs @ b # ws" by (meson split_list)
    then show thesis using that(2) [of vs ws ys] u assms(1) by auto
  next
    case 2
    then obtain vs ws where "ys = vs @ b # ws" by (meson split_list)
    then show thesis using that(1) [of us vs ws] u assms(1) by auto
  qed
qed

lemma takeWhile_first: "a \<notin> set us \<Longrightarrow> length (takeWhile (\<lambda>x. x \<noteq> a) (us @ a # ys)) = length us"
  by (subst takeWhile_append2) auto

text \<open>The code does it with the positions of the nodes.\<close>

lemma permute_children_ok:
  assumes J: "jansson_ok utf8 view J" and v: "view j c = Some (JArray xs)" and xs: "distinct xs"
    "a \<in> set xs" "b \<in> set xs" "a \<noteq> b" and op: "op \<noteq> PERMD_OP_OTHER"
    and i: "i = length (takeWhile (\<lambda>x. x \<noteq> a) xs)" "k = length (takeWhile (\<lambda>x. x \<noteq> b) xs)"
  shows "case permute_children J op c a b i k j of
      (status, None) \<Rightarrow> status = 0 \<and> permuted op a b xs = xs
    | (status, Some j') \<Rightarrow> status = 0 \<and> view j' = (view j)(c \<mapsto> JArray (permuted op a b xs))"
proof -
  have ne: "a \<noteq> NULL" "b \<noteq> NULL" using array_no_null [OF J v] xs by metis+
  note W = array_write_views [OF J]
  have swap: "view (js_array_set J c k a (js_array_set J c i b j)) = (view j)(c \<mapsto> JArray (xs[i := b, k := a]))"
    if "i < length xs" "k < length xs"
    using W(3) [OF v ne(2) that(1)] W(3) [of "js_array_set J c i b j" c "xs[i := b]" a k] ne that by simp
  have left: "view (js_array_insert J c n a (js_array_remove J c i j)) =
      (view j)(c \<mapsto> JArray (take n (take i xs @ drop (Suc i) xs) @ a # drop n (take i xs @ drop (Suc i) xs)))"
    if "n < i" "i < length xs" for n
    using W(2) [OF v that(2)]
      W(1) [of "js_array_remove J c i j" c "take i xs @ drop (Suc i) xs" a n] ne that by simp
  have right: "view (js_array_remove J c i (js_array_insert J c n a j)) =
      (view j)(c \<mapsto> JArray (take i (take n xs @ a # drop n xs) @ drop (Suc i) (take n xs @ a # drop n xs)))"
    if "i < n" "n \<le> length xs" for n
    using W(1) [OF v ne(1) that(2)]
      W(2) [of "js_array_insert J c n a j" c "take n xs @ a # drop n xs" i] that by simp
  from xs(1,2,3,4) show ?thesis
  proof (cases rule: two_positions)
    case (1 us vs ws)
    note P = permuted_around [OF 1(2,3)] permuted_around [OF 1(4,5)] permuted_around [OF 1(6,7)]
    have ik: "i = length us" "k = Suc (length us + length vs)" "i < length xs" "k < length xs"
      using takeWhile_first [of a us "vs @ b # ws"] takeWhile_first [of b "us @ a # vs" ws] 1 xs(4) i by auto
    show ?thesis
    proof (cases op)
      case PERMD_OP_SWAP
      then show ?thesis using swap [OF ik(3,4)] xs(4) 1(1) ik(1,2) P
        by (simp add: permute_children_def list_update_append)
    next
      case PERMD_OP_MOVE_BEFORE
      then show ?thesis using right [of k] xs(4) ik 1(1) P
        by (simp add: permute_children_def Let_def)
    next
      case PERMD_OP_MOVE_AFTER
      then show ?thesis using right [of "Suc k"] xs(4) ik 1(1) P
        by (simp add: permute_children_def Let_def)
    qed (use op in simp)
  next
    case (2 us vs ws)
    note P = permuted_around [OF 2(2,3)] permuted_around [OF 2(4,5)] permuted_around [OF 2(6,7)]
    have ik: "k = length us" "i = Suc (length us + length vs)" "i < length xs" "k < length xs"
      using takeWhile_first [of b us "vs @ a # ws"] takeWhile_first [of a "us @ b # vs" ws] 2 xs(4) i by auto
    show ?thesis
    proof (cases op)
      case PERMD_OP_SWAP
      then show ?thesis using swap [OF ik(3,4)] xs(4) 2(1) ik(1,2) P
        by (simp add: permute_children_def list_update_append)
    next
      case PERMD_OP_MOVE_BEFORE
      then show ?thesis using left [of k] xs(4) ik 2(1) P
        by (simp add: permute_children_def Let_def)
    next
      case PERMD_OP_MOVE_AFTER
      then show ?thesis using left [of "Suc k"] xs(4) ik 2(1) P
        by (cases "vs = []") (simp_all add: permute_children_def Let_def)
    qed (use op in simp)
  qed
qed

section \<open>The operation\<close>

text \<open>An entry that can be found by its name in the folder \<open>i\<close>, with its node among \<open>xs\<close>.\<close>

definition listed :: "ptr set \<Rightarrow> ('j, 'w) chromium_state \<Rightarrow> u64 \<Rightarrow> jref list \<Rightarrow> bytes \<Rightarrow> jref \<Rightarrow> bool" where
  "listed S s i xs name node \<longleftrightarrow> node \<in> set xs \<and> 0 \<notin> set name \<and> fst (validate_filename name (length name)) = 0 \<and>
     (\<exists>p \<in> S. \<exists>e. cs_nodes s p = Some e \<and> ne_id e \<noteq> BOOKMARKS_ROOT_ID \<and> ne_parent_id e = i \<and>
        ne_name e = Some name \<and> ne_node e = node)"

text \<open>The entry of a folder that is not the root.\<close>

definition folder_entry :: "ptr set \<Rightarrow> ('j, 'w) chromium_state \<Rightarrow> u64 \<Rightarrow> node_entry \<Rightarrow> bool" where
  "folder_entry S s i f \<longleftrightarrow> i \<noteq> BOOKMARKS_ROOT_ID \<and> ne_id f = i \<and> ne_name f \<noteq> None \<and> ne_children f \<noteq> NULL \<and>
     (\<exists>p \<in> S. cs_nodes s p = Some f)"

lemma find_visible_finds:
  assumes "tables_ok E S s" "p \<in> S" "cs_nodes s p = Some e" "ne_name e \<noteq> None"
  shows "find_visible E s (ne_id e) = Some (Some (p, e))"
proof -
  obtain im gm where im: "cc_id_map (cs_ctx s) = Some im" "maps_ok (ce_hash E) (cs_nodes s) S im gm (cc_assoc_map (cs_ctx s))"
    using assms(1) by (auto simp: tables_ok_def)
  have "lookup_id (ce_hash E) (cs_nodes s) (cc_id_map (cs_ctx s)) (ne_id e) = Some (Some (p, e))"
    using lookup_id_Some [OF im(2), of "ne_id e" p e] assms(2,3) by (simp add: im(1))
  then show ?thesis using assms(4) by (auto simp: find_visible_def)
qed

lemma find_folder_finds:
  assumes "tables_ok E S s" "folder_entry S s i f"
  shows "\<exists>p. find_folder E s i = Some (Inr (p, f))"
  using find_visible_finds [OF assms(1)] assms(2) by (fastforce simp: find_folder_def folder_entry_def)

lemma lookup_name_finds:
  assumes "tables_ok E S s" "\<not> has_flag (cc_flags (cs_ctx s)) BACKEND_FILENAME_GUID" "listed S s i xs name node"
  shows "\<exists>lx p e. lookup_name E s i name = Some (0, lx, Some p) \<and> cs_nodes s p = Some e \<and> ne_node e = node \<and>
    ne_name e = Some name"
proof -
  obtain im gm am where ok: "cc_assoc_map (cs_ctx s) = Some am" "maps_ok (ce_hash E) (cs_nodes s) S im gm (Some am)"
    using assms(1,2) by (auto simp: tables_ok_def)
  obtain p e where p: "p \<in> S" "cs_nodes s p = Some e" "ne_id e \<noteq> BOOKMARKS_ROOT_ID" "ne_parent_id e = i"
      "ne_name e = Some name" "ne_node e = node"
    using assms(3) by (auto simp: listed_def)
  have n: "p \<in> named (cs_nodes s) S" "name_key (cs_nodes s) p = (i, Some name)"
    using p by (simp_all add: named_def name_key_def)
  obtain q k where q: "lookup_assoc (ce_hash E) (cs_nodes s) (Some am) i name = Some (Some (q, k))"
      "q \<in> named (cs_nodes s) S" "name_key (cs_nodes s) q = (i, Some name)"
    using lookup_assoc_cases [OF ok(2), of i name] n by (auto split: option.splits)
  have "q = p" using inj_onD [OF maps_okD(10) [OF ok(2) refl], of q p] q n by simp
  then show ?thesis using q(1) p assms(2) by (simp add: lookup_name_def ok(1))
qed

lemma name_argument:
  assumes "0 \<notin> set name" "fst (validate_filename name (length name)) = 0"
  shows "cstr (take (NAME_MAX + 1) (name @ 0 # rest)) = name"
proof -
  have "length name \<le> NAME_MAX"
    using assms(2) by (auto simp: validate_filename_def FILENAME_BADLEN_def FILENAME_DOTDOT_def NAME_MAX_def split: if_splits)
  then have "take (NAME_MAX + 1) (name @ 0 # rest) = name @ 0 # take (NAME_MAX - length name) rest"
    by (simp add: Suc_diff_le)
  then show ?thesis using cstr_append_nul [OF assms(1)] by simp
qed

lemma node_mtime_now_ok:
  assumes J: "jansson_ok utf8 view (ce_js E)" and node: "view (cs_j s) node = Some (JObject m)"
    and clock: "\<And>w. valid_ts (fst (os_realtime (ce_os E) w))"
  shows "\<exists>ts j w. node_mtime_now E node s = Some (ts, s\<lparr>cs_j := j, cs_w := w\<rparr>) \<and>
    view j node = Some (JObject (m(str ''date_modified'' \<mapsto> ts))) \<and>
    (\<forall>r v. r \<noteq> node \<longrightarrow> view (cs_j s) r = Some v \<longrightarrow> view j r = Some v)"
proof -
  obtain now w where now: "os_realtime (ce_os E) (cs_w s) = (now, w)" by fastforce
  have "valid_ts now" using clock [of "cs_w s"] by (simp add: now)
  note b = build_tsnode_text(1) [OF this]
  obtain ts j where ts: "js_stringn_nocheck (ce_js E) (ts_text now) (cs_j s) = (ts, j)" by fastforce
  note S = sset_string(1) [OF J node ts, of "''date_modified''"] sset_string(2,3) [OF J node ts] stringn_nocheck_view [OF J ts]
  have "node_mtime_now E node s =
      Some (ts, s\<lparr>cs_j := json_object_sset (ce_js E) node ''date_modified'' ts j, cs_w := w\<rparr>)"
    by (simp add: node_mtime_now_def build_tsnode_now_def xgetrealtime_def now b ts)
  then show ?thesis using S by (auto intro!: exI)
qed


section \<open>A folder with two entries\<close>

lemma hm_small:
  "distinct xs \<Longrightarrow> length xs \<le> 8 \<Longrightarrow> \<exists>m. hm_inv H m \<and> hm_set m = set xs"
proof (induction xs)
  case Nil
  show ?case using hashmap_create_ok by (metis empty_set)
next
  case (Cons x xs)
  then obtain m where m: "hm_inv H m" "hm_set m = set xs" by auto
  have "card (hm_set m) < hm_exp m"
    using m Cons.prems by (simp add: hm_inv_def EXP_MIN_def distinct_card)
  then obtain m' where m': "hashmap_insert H m (H x) x = Some m'" using hashmap_insert_room [OF m(1)] by blast
  have "x \<notin> hm_set m" using Cons.prems m(2) by simp
  from hm.add_inv [OF m(1) this m'] show ?case using m(2) by auto
qed

definition pair_nodes :: "ptr \<Rightarrow> node_entry option" where
  "pair_nodes = [1 \<mapsto> \<lparr>ne_id = 2, ne_parent_id = 0, ne_guid = [1], ne_name = Some (str ''f''), ne_node = 3, ne_children = 6\<rparr>,
     2 \<mapsto> \<lparr>ne_id = 4, ne_parent_id = 2, ne_guid = [2], ne_name = Some (str ''a''), ne_node = 7, ne_children = NULL\<rparr>,
     3 \<mapsto> \<lparr>ne_id = 5, ne_parent_id = 2, ne_guid = [3], ne_name = Some (str ''b''), ne_node = 11, ne_children = NULL\<rparr>]"

definition pair_cells :: cells where
  "pair_cells = [(3, CObject [(str ''children'', 6)]), (6, CArray [7, 11]), (7, CObject []), (11, CObject [])]"

text \<open>The store has changes that are not saved yet, so it is not loaded again.\<close>

definition pair_state :: "ptr hashmap \<Rightarrow> ptr hashmap \<Rightarrow> ptr hashmap \<Rightarrow> (cells, demo_fs) chromium_state" where
  "pair_state im gm am = (demo_state pair_cells)\<lparr>cs_nodes := pair_nodes, cs_brk := 4, cs_ctx := demo_ctx\<lparr>
     cc_dirty := DIRTY_LEVEL_DATA, cc_id_map := Some im, cc_guid_map := Some gm, cc_assoc_map := Some am, cc_max_id := 5\<rparr>\<rparr>"

lemma pair_entries:
  "entry_at pair_nodes 1 = \<lparr>ne_id = 2, ne_parent_id = 0, ne_guid = [1], ne_name = Some (str ''f''), ne_node = 3, ne_children = 6\<rparr>"
  "entry_at pair_nodes 2 = \<lparr>ne_id = 4, ne_parent_id = 2, ne_guid = [2], ne_name = Some (str ''a''), ne_node = 7, ne_children = NULL\<rparr>"
  "entry_at pair_nodes 3 = \<lparr>ne_id = 5, ne_parent_id = 2, ne_guid = [3], ne_name = Some (str ''b''), ne_node = 11, ne_children = NULL\<rparr>"
  by (simp_all add: pair_nodes_def)

lemma pair_tables:
  "\<exists>im gm am. tables_ok (demo_env [] NULL []) {1, 2, 3} (pair_state im gm am)"
proof -
  let ?S = "set [1, 2, 3 :: ptr]"
  obtain im where im: "hm_inv (idmap_hash demo_hash pair_nodes) im" "hm_set im = ?S"
    using hm_small [of "[1, 2, 3]" "idmap_hash demo_hash pair_nodes"] by auto
  obtain gm where gm: "hm_inv (guidmap_hash demo_hash pair_nodes) gm" "hm_set gm = ?S"
    using hm_small [of "[1, 2, 3]" "guidmap_hash demo_hash pair_nodes"] by auto
  obtain am where am: "hm_inv (assocmap_hash demo_hash pair_nodes) am" "hm_set am = ?S"
    using hm_small [of "[1, 2, 3]" "assocmap_hash demo_hash pair_nodes"] by auto
  note entries = pair_entries pair_entries(1) [simplified]
  have "named pair_nodes ?S = ?S" by (auto simp: named_def entries BOOKMARKS_ROOT_ID_def)
  moreover have "?S \<subseteq> dom pair_nodes" by (simp add: pair_nodes_def)
  moreover have "inj_on (\<lambda>p. ne_id (entry_at pair_nodes p)) ?S" "inj_on (\<lambda>p. ne_guid (entry_at pair_nodes p)) ?S"
    "inj_on (name_key pair_nodes) ?S"
    by (simp_all add: name_key_def entries str_def)
  ultimately have "maps_ok demo_hash pair_nodes ?S im gm (Some am)"
    using im gm am by (simp add: maps_ok_def)
  then have "tables_ok (demo_env [] NULL []) {1, 2, 3} (pair_state im gm am)"
    by (simp add: tables_ok_def pair_state_def demo_state_def demo_ctx_def chromium_ctx_init_def demo_env_def entries
        has_flag_def)
  then show ?thesis by blast
qed

lemma pair_facts:
  "store_load (demo_env [] NULL []) (pair_state im gm am) = Some (0, pair_state im gm am)"
  "\<not> has_flag (cc_flags (cs_ctx (pair_state im gm am))) BACKEND_FILENAME_GUID"
  "folder_entry {1, 2, 3} (pair_state im gm am) 2 (entry_at pair_nodes 1)"
  "cells_view (cs_j (pair_state im gm am)) (ne_node (entry_at pair_nodes 1)) = Some (JObject [str ''children'' \<mapsto> 6])"
  "cells_view (cs_j (pair_state im gm am)) (ne_children (entry_at pair_nodes 1)) = Some (JArray [7, 11])"
  "valid_ts (fst (os_realtime (ce_os (demo_env [] NULL [])) w))"
proof -
  let ?s = "pair_state im gm am" and ?f = "entry_at pair_nodes 1"
  note f = pair_entries(1) pair_entries(1) [simplified]
  show "store_load (demo_env [] NULL []) ?s = Some (0, ?s)"
    by (simp add: store_load_def pair_state_def demo_ctx_def NULL_def less_dirty_level_def less_eq_dirty_level_def)
  show "\<not> has_flag (cc_flags (cs_ctx ?s)) BACKEND_FILENAME_GUID"
    by (simp add: pair_state_def demo_ctx_def chromium_ctx_init_def has_flag_def)
  show "folder_entry {1, 2, 3} ?s 2 ?f"
    by (simp add: folder_entry_def f BOOKMARKS_ROOT_ID_def NULL_def pair_state_def) (simp add: pair_nodes_def)
  show "cells_view (cs_j ?s) (ne_node ?f) = Some (JObject [str ''children'' \<mapsto> 6])"
    "cells_view (cs_j ?s) (ne_children ?f) = Some (JArray [7, 11])"
    by (simp_all add: f pair_state_def demo_state_def pair_cells_def cells_view_def cell_at_def cell_value_def NULL_def)
  show "valid_ts (fst (os_realtime (ce_os (demo_env [] NULL [])) w))"
    by (simp add: demo_env_def demo_os_def valid_ts_def valid_ts_sec_def TIMESPEC_SEC_MAX_def)
qed


end
