(* ===== verification/Spec2Isabelle.thy ===== *)
theory Spec2Isabelle
  imports Codec Uuid Md5 Hashmap_Table Fs_Props Fs_Handle Fs_Props_Dir Fsck_Main Fsck_Repair Fsck_Input Fsck_Fds
    Json_Props Chromium_Load Chromium_Permute
begin

text \<open>
  A verification development for BookmarkFS, a FUSE file system that shows the bookmarks of a web browser as
  files: a folder is a directory, a bookmark is a file whose contents are its URL, and the other fields are
  extended attributes.  All sources named here are under \<open>src/src\<close>.

  \<^bold>\<open>The program and how its parts interact.\<close>  The kernel sends requests to libfuse, which calls the
  operations of \<open>fs_ops.c\<close>.  They keep a table of open handles (\<open>hashmap.c\<close>) and call a backend through the
  table of functions of \<open>backend.h\<close>.  The Chromium backend (\<open>backend_chromium.c\<close>) reads a JSON file into
  memory, indexes its nodes with three hash tables, and writes the file back (\<open>json.c\<close>, over the wrappers of
  system calls in \<open>xstd.c\<close>) with an MD5 check sum (\<open>md5.c\<close>, \<open>base16.c\<close>); nodes carry UUIDs (\<open>uuid.c\<close>,
  \<open>prng.c\<close>).  The program \<open>fsck.bookmarkfs\<close> (\<open>fsck.c\<close>) asks a checker for the next entry with a bad name:
  \<open>fsck_offline.c\<close> calls a backend, \<open>fsck_online.c\<close> sends ioctls to a mounted file system; a handler
  (\<open>fsck_handler_simple.c\<close>) decides what to do with the entry.

  \<^bold>\<open>How code becomes definitions.\<close>  Every function of the source is a definition of the same name (with a
  suffix where the same name is in several files or is taken).  C integers are words of their width, or
  \<open>int\<close> and \<open>nat\<close> where the code cannot leave their range or the range is checked in the model; memory is a
  list of bytes, so that an access outside an object has no value.  A state is passed explicitly; allocated
  objects are maps from pointers.  A result \<open>None\<close> of a definition of type \<open>option\<close> means that the code aborts
  in a failed assertion, has undefined behaviour, or does not return; the loops without a bound are
  \<open>partial_function (option)\<close>, so theorems whose conclusion is \<open>Some\<close> say that the code returns.  Negative
  statuses are the error numbers that the source returns.

  \<^bold>\<open>Theories.\<close>
  \<^item> \<open>Prelude\<close>, \<open>C_Strings\<close>, \<open>C_Numbers\<close>: machine types, error numbers, byte strings, the C library's
    functions on strings and numbers that the program calls.
  \<^item> \<open>Codec\<close> (\<open>base16.c\<close>, \<open>base64.c\<close>), \<open>Uuid\<close> (\<open>uuid.c\<close>, \<open>prng.c\<close>), \<open>Md5\<close> (\<open>md5.c\<close>): exact inverses, UUID text,
    streaming MD5 against a definition of RFC 1321 over the whole message.
  \<^item> \<open>Hashmap\<close> (\<open>hashmap.c\<close>), \<open>Hashmap_Correct\<close> (invariant), \<open>Entry_Set\<close> (the interface of its clients, a locale),
    \<open>Hashmap_Table\<close> (its interpretation, and sequences of operations against a set).
  \<^item> \<open>Backend_Types\<close> (\<open>backend.h\<close>, \<open>ioctl.h\<close>), \<open>Filename\<close> (\<open>backend_util.c\<close>).
  \<^item> \<open>Fs_Types\<close>, \<open>Fs_Core\<close>, \<open>Fs_File\<close>, \<open>Fs_Dir\<close>, \<open>Fs_Intfs\<close>, \<open>Fs_Ops\<close> (\<open>fs_ops.c\<close>: context, handles, file and
    directory operations, the root and tag directories, the operations of libfuse).  \<open>Fs_Table\<close> and \<open>Fs_Step\<close>
    prove the invariant of the handle table for every request; \<open>Fs_File_Correct\<close> refines handles to byte files;
    \<open>Fs_Props\<close>, \<open>Fs_Handle\<close> and \<open>Fs_Props_Dir\<close> state the properties, \<open>Fs_Demo\<close> a concrete mount for witnesses.
  \<^item> \<open>Xio\<close> (\<open>xstd.c\<close>), \<open>Jansson\<close> (what the manual of the JSON library promises, a predicate on its functions),
    \<open>Jansson_Demo\<close> (a small library that keeps the promises), \<open>Json_File\<close> (\<open>json.c\<close>), \<open>Json_Props\<close>.
  \<^item> \<open>Chromium_Types\<close>, \<open>Chromium_Nodes\<close>, \<open>Chromium_Walk\<close>, \<open>Chromium_Store\<close>, \<open>Chromium_Read\<close>, \<open>Chromium_Write\<close>
    (\<open>backend_chromium.c\<close>: context, fields of nodes, traversal and check sum, loading and saving, the reading
    and the changing operations).  \<open>Chromium_Tree\<close> turns the traversal with its explicit stack into a recursion
    over a tree, \<open>Chromium_Chksum\<close> the check sum into the digest of one text, \<open>Chromium_Maps\<close> and
    \<open>Chromium_Inv\<close> are the invariant of the lookup tables, \<open>Chromium_Times\<close> the times, \<open>Chromium_New\<close> and
    \<open>Chromium_New_Sum\<close> the file made by \<open>mkfs\<close>, \<open>Chromium_Permute\<close> the order of a folder, \<open>Chromium_Load\<close> and
    \<open>Chromium_Demo\<close> the properties with concrete stores.
  \<^item> \<open>Fsck_Handler\<close> (\<open>fsck_handler_simple.c\<close>, \<open>fsck_util.c\<close>), \<open>Fsck_Offline\<close> (\<open>fsck_offline.c\<close>), \<open>Fsck_Online\<close>
    (\<open>fsck_online.c\<close>), \<open>Fsck_Main\<close> (the loop of \<open>fsck.c\<close>); \<open>Fsck_Walk\<close>, \<open>Fsck_Repair\<close>, \<open>Fsck_Input\<close> and
    \<open>Fsck_Fds\<close> hold what is proved of them.

  \<^bold>\<open>What the lemmas show.\<close>  Of the front end: each request is answered and keeps the invariant; writes and
  truncations are those of a byte file; when modified contents reach the backend and when they are lost.  Of
  the hash table: it is a finite set under any sequence of insertions and deletions, insertions return, and
  what equal hash codes cost.  Of the checkers: the order and the completeness of the report, that a read-only
  check changes nothing, that repair ends, that no descriptor leaks.  Of the JSON writer: a file is replaced
  as a whole or not at all.  Of the Chromium backend: the check sum, the times, the tables after loading, the
  file made by \<open>mkfs\<close>, and the order of a folder.  Some theorems state what the code does where that is
  not what it means to do; the text before each of them says so.

  \<^bold>\<open>Bounds.\<close>  The constants are those of the source: 128 levels of folders in a traversal, 255 bytes in
  a name, \<open>EXP_MIN\<close> and \<open>EXP_MAX\<close> for the logarithm of the table's size, the buffers of \<open>fs_ops.c\<close> and
  \<open>json.c\<close>.  There is no fuel: a loop is structural, has a measure, or is a \<open>partial_function\<close>.

  \<^bold>\<open>What is a parameter.\<close>  The functions of a backend under \<open>fs_ops.c\<close> and \<open>fsck_offline.c\<close>; libfuse, system calls,
  clocks, entropy, Jansson, \<open>iconv\<close>, the file watcher, the sandbox, readline, the keyed hash (xxHash) and
  uninitialised memory.  Hypotheses on them (\<open>jansson_ok\<close>, \<open>os_dir_ok\<close>, \<open>backend_ok\<close>, \<open>converts\<close>) state their
  documentation, and each has an instance in the witnesses.

  \<^bold>\<open>Not modelled.\<close>  The Firefox backend (\<open>backend_firefox.c\<close>, \<open>db.c\<close>), whose operations are SQL statements that SQLite
  runs; the Tcl handler (\<open>fsck_handler_tcl.c\<close>), glue to an interpreter; the thread of \<open>watcher.c\<close> and the
  filters of \<open>sandbox.c\<close>, which are calls of the kernel; the command lines and the loading of modules
  (\<open>mount.c\<close>, \<open>mkfs.c\<close>, \<open>bookmarkctl.c\<close>, \<open>frontend_util.c\<close>, part of \<open>fsck.c\<close>); \<open>hash.c\<close>, a wrapper of xxHash; the
  client of attributes \<open>xattr.c\<close>; texts of versions and of help.  In the modelled parts, reference counts of
  JSON values, failures of \<open>malloc\<close> and the functions that only free memory are left out.
\<close>

end
